(* ===== verification/Prelude.thy ===== *)
theory Prelude
  imports Main "HOL-Library.Word" "HOL-Library.Signed_Division" "HOL-Library.Multiset"
begin

text \<open>
  The Rust side of the model: machine integers, panics as values, the comparison results and the
  two slice routines of the standard library the crate uses (stable sort by a comparator and
  binary search).

  Arithmetic follows the checked build of the language: an operation whose mathematical result does
  not fit its type panics. A build without overflow checks returns the same value on every run
  that does not panic here, so a statement that an operation returns holds for both.

  The collection \<open>returns\<close> holds the equivalences that say when a computation returns a
  value; \<open>res_defs\<close> holds the definitions of the combinators.
\<close>

named_theorems returns \<open>when a computation returns normally\<close>
named_theorems res_defs \<open>definitions of the error combinators\<close>

section \<open>Machine integers\<close>

type_synonym u8 = "8 word"
type_synonym u16 = "16 word"
type_synonym u32 = "32 word"
type_synonym u64 = "64 word"
type_synonym i32 = "32 word"
type_synonym i64 = "64 word"

text \<open>
  The fields of a record keep their width: \<open>u64\<close> and \<open>i64\<close> are both 64-bit words, read by
  \<open>uint\<close> and \<open>sint\<close>. Widened intermediate values (\<open>as i128\<close>) are integers whose range is
  checked at every operation.
\<close>

section \<open>Failures as values\<close>

text \<open>
  \<open>Panic\<close> is a Rust panic with its message, \<open>Deadlock\<close> a thread blocked for ever on a lock it
  holds itself, \<open>OutOfFuel\<close> a loop cut off by the bound of its model, and \<open>Err\<close> an error
  value the function returns.
\<close>

datatype 'e fail = Panic string | Deadlock | OutOfFuel | Err 'e

abbreviation overflow :: "'e fail + 'a" where
  "overflow \<equiv> Inl (Panic ''arithmetic overflow'')"

abbreviation unimplemented :: "'e fail + 'a" where
  "unimplemented \<equiv> Inl (Panic ''not implemented'')"

definition bindE :: "'f + 'a \<Rightarrow> ('a \<Rightarrow> 'f + 'b) \<Rightarrow> 'f + 'b" where
  "bindE m k = (case m of Inl e \<Rightarrow> Inl e | Inr x \<Rightarrow> k x)"

lemma bindE_simps [simp]:
  "bindE (Inl e) k = Inl e"
  "bindE (Inr x) k = k x"
  by (simp_all add: bindE_def)

lemma bindE_Inr_iff [returns]:
  "bindE m k = Inr y \<longleftrightarrow> (\<exists>x. m = Inr x \<and> k x = Inr y)"
  by (cases m) auto

lemma bindE_Inl_iff:
  "bindE m k = Inl e \<longleftrightarrow> m = Inl e \<or> (\<exists>x. m = Inr x \<and> k x = Inl e)"
  by (cases m) auto

lemma bindE_cong [fundef_cong]:
  "m = m' \<Longrightarrow> (\<And>x. m' = Inr x \<Longrightarrow> k x = k' x) \<Longrightarrow> bindE m k = bindE m' k'"
  by (cases m') auto

definition guardE :: "bool \<Rightarrow> 'f \<Rightarrow> 'f + unit" where
  "guardE b e = (if b then Inr () else Inl e)"

lemma guardE_simps [simp]: "guardE True e = Inr ()" "guardE False e = Inl e"
  by (simp_all add: guardE_def)

lemma guardE_Inr_iff [returns]: "guardE b e = Inr u \<longleftrightarrow> b"
  by (simp add: guardE_def)

definition of_opt :: "'f \<Rightarrow> 'a option \<Rightarrow> 'f + 'a" where
  "of_opt e x = (case x of None \<Rightarrow> Inl e | Some a \<Rightarrow> Inr a)"

lemma of_opt_simps [simp]: "of_opt e None = Inl e" "of_opt e (Some a) = Inr a"
  by (simp_all add: of_opt_def)

lemma of_opt_Inr_iff [returns]: "of_opt e x = Inr a \<longleftrightarrow> x = Some a"
  by (cases x) simp_all

text \<open>A loop over a list that threads a state and may fail.\<close>

fun foldE :: "('s \<Rightarrow> 'a \<Rightarrow> 'f + 's) \<Rightarrow> 's \<Rightarrow> 'a list \<Rightarrow> 'f + 's" where
  "foldE f s [] = Inr s"
| "foldE f s (x # xs) = bindE (f s x) (\<lambda>s'. foldE f s' xs)"

fun mapE :: "('a \<Rightarrow> 'f + 'b) \<Rightarrow> 'a list \<Rightarrow> 'f + 'b list" where
  "mapE f [] = Inr []"
| "mapE f (x # xs) = bindE (f x) (\<lambda>y. bindE (mapE f xs) (\<lambda>ys. Inr (y # ys)))"

lemma foldE_append: "foldE f s (xs @ ys) = bindE (foldE f s xs) (\<lambda>s'. foldE f s' ys)"
  by (induction xs arbitrary: s) (auto simp: bindE_def split: sum.splits)

lemma foldE_map: "foldE f s (map g xs) = foldE (\<lambda>s x. f s (g x)) s xs"
  by (induction xs arbitrary: s) (auto simp: bindE_def split: sum.splits)

lemma foldE_inv:
  assumes "foldE f s xs = Inr s'" and "P s"
    and "\<And>t x t'. x \<in> set xs \<Longrightarrow> P t \<Longrightarrow> f t x = Inr t' \<Longrightarrow> P t'"
  shows "P s'"
  using assms by (induction xs arbitrary: s) (auto simp: returns)

lemma mapE_length: "mapE f xs = Inr ys \<Longrightarrow> length ys = length xs"
  by (induction xs arbitrary: ys) (auto simp: returns)

lemma mapE_Inr: "(\<And>x. x \<in> set xs \<Longrightarrow> f x = Inr (g x)) \<Longrightarrow> mapE f xs = Inr (map g xs)"
  by (induction xs) auto

section \<open>Checked arithmetic\<close>

definition fits_u :: "nat \<Rightarrow> int \<Rightarrow> bool" where
  "fits_u n x \<longleftrightarrow> 0 \<le> x \<and> x < 2 ^ n"

definition fits_i :: "nat \<Rightarrow> int \<Rightarrow> bool" where
  "fits_i n x \<longleftrightarrow> - (2 ^ (n - 1)) \<le> x \<and> x < 2 ^ (n - 1)"

definition chk_u :: "nat \<Rightarrow> int \<Rightarrow> 'e fail + int" where
  "chk_u n x = (if fits_u n x then Inr x else overflow)"

definition chk_i :: "nat \<Rightarrow> int \<Rightarrow> 'e fail + int" where
  "chk_i n x = (if fits_i n x then Inr x else overflow)"

lemma chk_u_Inr_iff [returns]: "chk_u n x = Inr y \<longleftrightarrow> fits_u n x \<and> y = x"
  by (auto simp: chk_u_def)

lemma chk_i_Inr_iff [returns]: "chk_i n x = Inr y \<longleftrightarrow> fits_i n x \<and> y = x"
  by (auto simp: chk_i_def)

lemma chk_u_fits [simp]: "fits_u n x \<Longrightarrow> chk_u n x = Inr x"
  by (simp add: chk_u_def)

lemma chk_i_fits [simp]: "fits_i n x \<Longrightarrow> chk_i n x = Inr x"
  by (simp add: chk_i_def)

text \<open>
  Division truncates towards zero and panics on a zero divisor; the one signed quotient that does
  not fit (the minimum divided by -1) panics too.
\<close>

definition div_i :: "nat \<Rightarrow> int \<Rightarrow> int \<Rightarrow> 'e fail + int" where
  "div_i n x y = (if y = 0 then Inl (Panic ''attempt to divide by zero'') else chk_i n (x sdiv y))"

definition div_u :: "nat \<Rightarrow> int \<Rightarrow> int \<Rightarrow> 'e fail + int" where
  "div_u n x y = (if y = 0 then Inl (Panic ''attempt to divide by zero'') else chk_u n (x div y))"

lemma div_i_Inr_iff [returns]:
  "div_i n x y = Inr z \<longleftrightarrow> y \<noteq> 0 \<and> fits_i n (x sdiv y) \<and> z = x sdiv y"
  by (auto simp: div_i_def returns)

lemma div_u_Inr_iff [returns]:
  "div_u n x y = Inr z \<longleftrightarrow> y \<noteq> 0 \<and> fits_u n (x div y) \<and> z = x div y"
  by (auto simp: div_u_def returns)

lemma div_i_fits [simp]: "y \<noteq> 0 \<Longrightarrow> fits_i n (x sdiv y) \<Longrightarrow> div_i n x y = Inr (x sdiv y)"
  by (simp add: div_i_def)

text \<open>Addition, subtraction and multiplication on unsigned words.\<close>

definition uadd :: "'a::len word \<Rightarrow> 'a word \<Rightarrow> 'e fail + 'a word" where
  "uadd a b = (if uint a + uint b < 2 ^ LENGTH('a) then Inr (a + b) else overflow)"

definition usub :: "'a::len word \<Rightarrow> 'a word \<Rightarrow> 'e fail + 'a word" where
  "usub a b = (if b \<le> a then Inr (a - b) else overflow)"

definition umul :: "'a::len word \<Rightarrow> 'a word \<Rightarrow> 'e fail + 'a word" where
  "umul a b = (if uint a * uint b < 2 ^ LENGTH('a) then Inr (a * b) else overflow)"

definition udiv :: "'a::len word \<Rightarrow> 'a word \<Rightarrow> 'e fail + 'a word" where
  "udiv a b = (if b = 0 then Inl (Panic ''attempt to divide by zero'') else Inr (a div b))"

lemma uadd_Inr_iff [returns]:
  fixes a b :: "'a::len word"
  shows "uadd a b = Inr c \<longleftrightarrow> uint a + uint b < 2 ^ LENGTH('a) \<and> c = a + b"
  by (auto simp: uadd_def)

lemma usub_Inr_iff [returns]: "usub a b = Inr c \<longleftrightarrow> b \<le> a \<and> c = a - b"
  by (auto simp: usub_def)

lemma umul_Inr_iff [returns]:
  fixes a b :: "'a::len word"
  shows "umul a b = Inr c \<longleftrightarrow> uint a * uint b < 2 ^ LENGTH('a) \<and> c = a * b"
  by (auto simp: umul_def)

lemma udiv_Inr_iff [returns]: "udiv a b = Inr c \<longleftrightarrow> b \<noteq> 0 \<and> c = a div b"
  by (auto simp: udiv_def)

lemma uint_uadd: "uadd a b = Inr c \<Longrightarrow> uint c = uint a + uint b"
  by (auto simp: returns uint_word_ariths mod_pos_pos_trivial)

lemma uint_usub: "usub a b = Inr c \<Longrightarrow> uint c = uint a - uint b"
  by (auto simp: returns uint_sub_if_size word_le_def)

text \<open>The checked conversion \<open>try_into().unwrap()\<close> into an unsigned word.\<close>

definition try_u :: "int \<Rightarrow> 'e fail + 'a::len word" where
  "try_u x = (if fits_u LENGTH('a) x then Inr (word_of_int x)
              else Inl (Panic ''out of range integral type conversion attempted''))"

lemma try_u_Inr_iff [returns]:
  fixes w :: "'a::len word"
  shows "try_u x = Inr w \<longleftrightarrow> fits_u LENGTH('a) x \<and> w = word_of_int x"
  by (auto simp: try_u_def)

lemma uint_try_u: "try_u x = Inr w \<Longrightarrow> uint w = x"
  by (auto simp: returns fits_u_def uint_word_of_int mod_pos_pos_trivial)

lemma uint_range [simp]: "0 \<le> uint w" "uint (w :: 'a::len word) < 2 ^ LENGTH('a)"
  by (simp_all add: uint_bounded)

lemma fits_uint [simp]: "fits_u LENGTH('a) (uint (w :: 'a::len word))"
  by (simp add: fits_u_def uint_bounded)

lemma u64_range: "0 \<le> uint (w :: u64)" "uint (w :: u64) < 18446744073709551616"
  using uint_bounded [of w] by simp_all

lemma u8_range: "0 \<le> uint (w :: u8)" "uint (w :: u8) < 256"
  using uint_bounded [of w] by simp_all

lemma i64_range: "- 9223372036854775808 \<le> sint (w :: i64)" "sint (w :: i64) < 9223372036854775808"
  using sint_ge [of w] sint_lt [of w] by simp_all

lemma i32_range: "- 2147483648 \<le> sint (w :: i32)" "sint (w :: i32) < 2147483648"
  using sint_ge [of w] sint_lt [of w] by simp_all

end
