(* ===== verification/Rust_Std.thy ===== *)
theory Rust_Std
  imports Prelude
begin

text \<open>
  The parts of the Rust standard library whose behaviour the properties depend on: the result of a
  comparison, the stable sort \<open>sort_by\<close> with a comparator that may panic, and
  \<open>binary_search_by\<close> on a slice.
\<close>

section \<open>Comparison results\<close>

datatype ordering = Less | Equal | Greater

fun reverse_ord :: "ordering \<Rightarrow> ordering" where
  "reverse_ord Less = Greater"
| "reverse_ord Equal = Equal"
| "reverse_ord Greater = Less"

definition cmp_of :: "'a::linorder \<Rightarrow> 'a \<Rightarrow> ordering" where
  "cmp_of a b = (if a < b then Less else if a = b then Equal else Greater)"

lemma cmp_of_simps [simp]:
  "cmp_of a b = Less \<longleftrightarrow> a < b"
  "cmp_of a b = Equal \<longleftrightarrow> a = b"
  "cmp_of a b = Greater \<longleftrightarrow> b < a"
  by (auto simp: cmp_of_def)

lemma reverse_ord_iff [simp]:
  "reverse_ord c = Less \<longleftrightarrow> c = Greater"
  "reverse_ord c = Equal \<longleftrightarrow> c = Equal"
  "reverse_ord c = Greater \<longleftrightarrow> c = Less"
  by (cases c; simp)+

section \<open>Sorting with a comparator\<close>

text \<open>
  \<open>sort_by\<close> inserts each element into the sorted part before it, moving left as long as the
  comparator answers \<open>Less\<close>. This is the routine the library runs on slices of up to twenty
  elements; longer slices are sorted in runs of it that are merged with the same comparator. The
  sorted part is kept with its last element first. A panic of the comparator is the result.
\<close>

fun insert_byE :: "('a \<Rightarrow> 'a \<Rightarrow> 'f + ordering) \<Rightarrow> 'a \<Rightarrow> 'a list \<Rightarrow> 'f + 'a list" where
  "insert_byE cmp x [] = Inr [x]"
| "insert_byE cmp x (y # ys) =
     bindE (cmp x y) (\<lambda>c.
       if c = Less then bindE (insert_byE cmp x ys) (\<lambda>zs. Inr (y # zs))
       else Inr (x # y # ys))"

definition sort_byE :: "('a \<Rightarrow> 'a \<Rightarrow> 'f + ordering) \<Rightarrow> 'a list \<Rightarrow> 'f + 'a list" where
  "sort_byE cmp xs = bindE (foldE (\<lambda>acc x. insert_byE cmp x acc) [] xs) (\<lambda>ys. Inr (rev ys))"

text \<open>
  What the sort gives is stated for a key the comparator agrees with: \<open>Less\<close> only if the key is
  not larger, anything else only if it is not smaller. A comparator that never answers \<open>Equal\<close>
  agrees with its key in this sense, although it is no total order.
\<close>

definition cmp_agrees :: "('a \<Rightarrow> 'k::linorder) \<Rightarrow> 'a set \<Rightarrow> ('a \<Rightarrow> 'a \<Rightarrow> 'f + ordering) \<Rightarrow> bool" where
  "cmp_agrees key A cmp \<longleftrightarrow> (\<forall>x\<in>A. \<forall>y\<in>A. \<exists>c. cmp x y = Inr c \<and>
     (if c = Less then key x \<le> key y else key y \<le> key x))"

lemma insert_byE_mset: "insert_byE cmp x ys = Inr zs \<Longrightarrow> mset zs = add_mset x (mset ys)"
  by (induction ys arbitrary: zs) (auto simp: returns split: if_splits)

lemma insert_byE_sorted:
  assumes "cmp_agrees key A cmp" and "x \<in> A" and "set ys \<subseteq> A"
    and "sorted_wrt (\<lambda>a b. key b \<le> key a) ys"
  shows "\<exists>zs. insert_byE cmp x ys = Inr zs \<and> sorted_wrt (\<lambda>a b. key b \<le> key a) zs"
  using assms(3,4)
proof (induction ys)
  case Nil
  then show ?case by simp
next
  case (Cons y ys)
  then obtain zs where zs: "insert_byE cmp x ys = Inr zs"
      "sorted_wrt (\<lambda>a b. key b \<le> key a) zs" by auto
  obtain c where c: "cmp x y = Inr c" "if c = Less then key x \<le> key y else key y \<le> key x"
    using assms(1,2) Cons.prems(1) unfolding cmp_agrees_def
    by (meson list.set_intros(1) subsetD)
  have "set zs = insert x (set ys)"
    using insert_byE_mset [OF zs(1)] by (metis set_mset_add_mset_insert set_mset_mset)
  with Cons.prems(2) c zs show ?case
    by (cases "c = Less") (auto intro: order_trans)
qed

lemma sort_byE_mset: "sort_byE cmp xs = Inr zs \<Longrightarrow> mset zs = mset xs"
proof -
  have "foldE (\<lambda>acc x. insert_byE cmp x acc) acc xs = Inr ys \<Longrightarrow> mset ys = mset xs + mset acc"
    for acc ys
    by (induction xs arbitrary: acc) (auto simp: returns dest!: insert_byE_mset)
  then show "sort_byE cmp xs = Inr zs \<Longrightarrow> mset zs = mset xs"
    by (auto simp: sort_byE_def returns)
qed

lemma sort_byE_set: "sort_byE cmp xs = Inr zs \<Longrightarrow> set zs = set xs"
  by (metis sort_byE_mset set_mset_mset)

lemma foldE_insert_sorted:
  assumes "cmp_agrees key A cmp" and "set xs \<subseteq> A" and "set acc \<subseteq> A"
    and "sorted_wrt (\<lambda>a b. key b \<le> key a) acc"
  shows "\<exists>ys. foldE (\<lambda>acc x. insert_byE cmp x acc) acc xs = Inr ys \<and>
    sorted_wrt (\<lambda>a b. key b \<le> key a) ys"
  using assms(2-4)
proof (induction xs arbitrary: acc)
  case Nil
  then show ?case by simp
next
  case (Cons x xs)
  then have "x \<in> A" by simp
  then obtain zs where zs: "insert_byE cmp x acc = Inr zs"
      "sorted_wrt (\<lambda>a b. key b \<le> key a) zs"
    using insert_byE_sorted [OF assms(1) _ Cons.prems(2,3)] by blast
  have "set zs \<subseteq> A"
    using insert_byE_mset [OF zs(1)] Cons.prems(2) \<open>x \<in> A\<close>
    by (metis insert_subset set_mset_add_mset_insert set_mset_mset)
  with Cons.IH [of zs] Cons.prems(1) zs show ?case by simp
qed

lemma sort_byE_sorted:
  assumes "cmp_agrees key (set xs) cmp"
  shows "\<exists>zs. sort_byE cmp xs = Inr zs \<and> mset zs = mset xs \<and> sorted (map key zs)"
proof -
  obtain ys where ys: "foldE (\<lambda>acc x. insert_byE cmp x acc) [] xs = Inr ys"
      "sorted_wrt (\<lambda>a b. key b \<le> key a) ys"
    using foldE_insert_sorted [OF assms, of xs "[]"] by auto
  then have *: "sort_byE cmp xs = Inr (rev ys)" by (simp add: sort_byE_def)
  have "sorted (map key (rev ys))"
    using ys(2) by (simp add: sorted_wrt_rev sorted_map)
  with * sort_byE_mset [OF *] show ?thesis by blast
qed

section \<open>Binary search\<close>

text \<open>
  \<open>binary_search_by f\<close> on a slice: \<open>Inl\<close> holds the insertion point (the library's \<open>Err\<close>),
  \<open>Inr\<close> the index of a match (\<open>Ok\<close>). \<open>f\<close> compares an element with the target.
\<close>

function bsearch :: "('a \<Rightarrow> ordering) \<Rightarrow> 'a list \<Rightarrow> nat \<Rightarrow> nat \<Rightarrow> nat + nat" where
  "bsearch f xs left right =
     (if left < right then
        let mid = left + (right - left) div 2; c = f (xs ! mid) in
        case c of
          Equal \<Rightarrow> Inr mid
        | Less \<Rightarrow> bsearch f xs (Suc mid) right
        | Greater \<Rightarrow> bsearch f xs left mid
      else Inl left)"
  by pat_completeness auto
termination
  by (relation "measure (\<lambda>(f, xs, l, r). r - l)") auto

declare bsearch.simps [simp del]

definition binary_search_by :: "('a \<Rightarrow> ordering) \<Rightarrow> 'a list \<Rightarrow> nat + nat" where
  "binary_search_by f xs = bsearch f xs 0 (length xs)"

text \<open>
  On a slice where the elements below the target come first, then those equal to it, then those
  above, the search finds an equal element if there is one and otherwise the one place where the
  target can be inserted.
\<close>

definition partitioned :: "('a \<Rightarrow> ordering) \<Rightarrow> 'a list \<Rightarrow> bool" where
  "partitioned f xs \<longleftrightarrow>
     sorted_wrt (\<lambda>a b. (f b = Less \<longrightarrow> f a = Less) \<and> (f a = Greater \<longrightarrow> f b = Greater)) xs"

lemma partitioned_nth:
  assumes "partitioned f xs" and "i < j" and "j < length xs"
  shows "f (xs ! j) = Less \<Longrightarrow> f (xs ! i) = Less"
    and "f (xs ! i) = Greater \<Longrightarrow> f (xs ! j) = Greater"
  using assms sorted_wrt_nth_less [of _ xs i j] by (auto simp: partitioned_def)

lemma bsearch_correct:
  assumes "partitioned f xs" and "left \<le> right" and "right \<le> length xs"
    and "\<forall>i<left. f (xs ! i) = Less" and "\<forall>i. right \<le> i \<and> i < length xs \<longrightarrow> f (xs ! i) = Greater"
  shows "case bsearch f xs left right of
      Inr i \<Rightarrow> i < length xs \<and> f (xs ! i) = Equal
    | Inl i \<Rightarrow> i \<le> length xs \<and> (\<forall>j<i. f (xs ! j) = Less) \<and>
        (\<forall>j. i \<le> j \<and> j < length xs \<longrightarrow> f (xs ! j) = Greater)"
  using assms
proof (induction f xs left right rule: bsearch.induct)
  case (1 f xs left right)
  let ?mid = "left + (right - left) div 2"
  show ?case
  proof (cases "left < right")
    case False
    with 1 show ?thesis by (subst bsearch.simps) auto
  next
    case True
    then have mid: "left \<le> ?mid" "?mid < right" by auto
    with "1.prems"(3) have len: "?mid < length xs" by simp
    show ?thesis
    proof (cases "f (xs ! ?mid)")
      case Equal
      with True len show ?thesis by (subst bsearch.simps) (simp add: Let_def)
    next
      case Less
      have "\<forall>i<Suc ?mid. f (xs ! i) = Less"
        using Less partitioned_nth(1) [OF "1.prems"(1) _ len] by (metis less_Suc_eq)
      with "1.IH"(1) [OF True refl refl] 1 mid Less have
        "case bsearch f xs (Suc ?mid) right of
            Inr i \<Rightarrow> i < length xs \<and> f (xs ! i) = Equal
          | Inl i \<Rightarrow> i \<le> length xs \<and> (\<forall>j<i. f (xs ! j) = Less) \<and>
              (\<forall>j. i \<le> j \<and> j < length xs \<longrightarrow> f (xs ! j) = Greater)" by simp
      with True Less show ?thesis by (subst bsearch.simps) (simp add: Let_def)
    next
      case Greater
      have "\<forall>i. ?mid \<le> i \<and> i < length xs \<longrightarrow> f (xs ! i) = Greater"
        using Greater partitioned_nth(2) [OF "1.prems"(1)] by (metis le_neq_implies_less)
      with "1.IH"(2) [OF True refl refl] 1 mid Greater have
        "case bsearch f xs left ?mid of
            Inr i \<Rightarrow> i < length xs \<and> f (xs ! i) = Equal
          | Inl i \<Rightarrow> i \<le> length xs \<and> (\<forall>j<i. f (xs ! j) = Less) \<and>
              (\<forall>j. i \<le> j \<and> j < length xs \<longrightarrow> f (xs ! j) = Greater)" by simp
      with True Greater show ?thesis by (subst bsearch.simps) (simp add: Let_def)
    qed
  qed
qed

lemma binary_search_by_correct:
  assumes "partitioned f xs"
  shows "case binary_search_by f xs of
      Inr i \<Rightarrow> i < length xs \<and> f (xs ! i) = Equal
    | Inl i \<Rightarrow> i \<le> length xs \<and> (\<forall>j<i. f (xs ! j) = Less) \<and>
        (\<forall>j. i \<le> j \<and> j < length xs \<longrightarrow> f (xs ! j) = Greater)"
  unfolding binary_search_by_def by (rule bsearch_correct [OF assms]) auto

lemma binary_search_by_Inl:
  assumes "partitioned f xs" and "binary_search_by f xs = Inl i"
  shows "i \<le> length xs" and "x \<in> set (take i xs) \<Longrightarrow> f x = Less"
    and "x \<in> set (drop i xs) \<Longrightarrow> f x = Greater"
proof -
  have *: "i \<le> length xs \<and> (\<forall>j<i. f (xs ! j) = Less) \<and>
        (\<forall>j. i \<le> j \<and> j < length xs \<longrightarrow> f (xs ! j) = Greater)"
    using binary_search_by_correct [OF assms(1)] assms(2) by simp
  then show "i \<le> length xs" ..
  show "f x = Less" if "x \<in> set (take i xs)"
    using * that by (metis in_set_conv_nth length_take min_less_iff_conj nth_take)
  show "f x = Greater" if "x \<in> set (drop i xs)"
  proof -
    from that obtain j where "j < length xs - i" "x = xs ! (i + j)"
      by (auto simp: in_set_conv_nth)
    with * show ?thesis by simp
  qed
qed

lemma binary_search_by_Inr:
  assumes "partitioned f xs" and "binary_search_by f xs = Inr i"
  shows "i < length xs" and "f (xs ! i) = Equal"
  using binary_search_by_correct [OF assms(1)] assms(2) by simp_all

text \<open>\<open>Vec::insert\<close>: panics past the end.\<close>

definition vec_insert :: "nat \<Rightarrow> 'a \<Rightarrow> 'a list \<Rightarrow> 'e fail + 'a list" where
  "vec_insert i x xs = (if i \<le> length xs then Inr (take i xs @ x # drop i xs)
     else Inl (Panic ''insertion index (is index) should be <= len (is len)''))"

lemma vec_insert_Inr_iff [returns]:
  "vec_insert i x xs = Inr ys \<longleftrightarrow> i \<le> length xs \<and> ys = take i xs @ x # drop i xs"
  by (auto simp: vec_insert_def)

section \<open>Decimal numbers in text\<close>

text \<open>\<open>Display\<close> of an unsigned integer: its decimal digits without leading zeros.\<close>

definition digit :: "nat \<Rightarrow> char" where
  "digit n = char_of (48 + n)"

fun dec :: "nat \<Rightarrow> string" where
  "dec n = (if n < 10 then [digit n] else dec (n div 10) @ [digit (n mod 10)])"

declare dec.simps [simp del]

definition undec :: "string \<Rightarrow> nat" where
  "undec s = foldl (\<lambda>n c. 10 * n + (of_char c - 48)) 0 s"

lemma of_char_digit: "n < 10 \<Longrightarrow> of_char (digit n) = (48 + n :: nat)"
  by (simp add: digit_def)

lemma undec_snoc: "undec (s @ [c]) = 10 * undec s + (of_char c - 48)"
  by (simp add: undec_def)

lemma undec_dec: "undec (dec n) = n"
proof (induction n rule: dec.induct)
  case (1 n)
  show ?case
  proof (cases "n < 10")
    case True
    then have "dec n = [digit n]" by (simp add: dec.simps)
    with True show ?thesis by (simp add: undec_def of_char_digit)
  next
    case False
    then have "dec n = dec (n div 10) @ [digit (n mod 10)]" by (simp add: dec.simps)
    with False 1 show ?thesis by (simp add: undec_snoc of_char_digit)
  qed
qed

lemma inj_dec: "inj dec"
  by (metis injI undec_dec)

lemma dec_digits: "c \<in> set (dec n) \<Longrightarrow> 48 \<le> (of_char c :: nat) \<and> (of_char c :: nat) < 58"
proof (induction n rule: dec.induct)
  case (1 n)
  show ?case
  proof (cases "n < 10")
    case True
    with "1.prems" show ?thesis by (simp add: dec.simps of_char_digit)
  next
    case False
    then have "dec n = dec (n div 10) @ [digit (n mod 10)]" by (simp add: dec.simps)
    with False 1 show ?thesis by (auto simp: of_char_digit)
  qed
qed

lemma dash_not_in_dec: "CHR ''-'' \<notin> set (dec n)"
  using dec_digits [of "CHR ''-''" n] by auto

end
