(* ===== verification/Sdk_Types.thy ===== *)
theory Sdk_Types
  imports Rust_Std
begin

text \<open>
  \<open>src/src/types.rs\<close>: the crate's data types, the order builder and the error type with its two
  conversions, over the data of the drift program they are made of.

  Types of the program crate (\<open>Order\<close>, \<open>OrderType\<close>, \<open>OraclePriceData\<close> ...) are not under
  \<open>src/\<close>: they appear as records and datatypes with the fields and variants this crate reads or
  writes. Their methods and default values are fields of a record of parameters that the
  definitions take as an argument.
\<close>

section \<open>Data of the drift program\<close>

text \<open>
  A public key is 32 bytes ordered lexicographically, that is, a 256-bit number in big-endian
  order; the default key is zero.
\<close>

type_synonym pubkey = "256 word"

datatype market_type = Spot | Perp

datatype position_direction = Long | Short

datatype order_type = Market | Limit | TriggerMarket | TriggerLimit | Oracle

datatype order_status = Init | Open | Filled | Canceled

datatype order_trigger_condition = Above | Below | TriggeredAbove | TriggeredBelow

datatype post_only_param = PostOnlyNone | MustPostOnly | TryPostOnly | Slide

record order =
  o_slot :: u64
  o_price :: u64
  o_base_asset_amount :: u64
  o_base_asset_amount_filled :: u64
  o_trigger_price :: u64
  o_auction_start_price :: i64
  o_auction_end_price :: i64
  o_max_ts :: i64
  o_oracle_price_offset :: i32
  o_order_id :: u32
  o_market_index :: u16
  o_status :: order_status
  o_order_type :: order_type
  o_market_type :: market_type
  o_user_order_id :: u8
  o_direction :: position_direction
  o_post_only :: bool
  o_trigger_condition :: order_trigger_condition
  o_auction_duration :: u8

record oracle_price_data =
  opd_price :: i64
  opd_confidence :: u64
  opd_delay :: i64
  opd_has_sufficient_number_of_data_points :: bool

section \<open>Errors\<close>

text \<open>
  Errors of other crates keep what this crate can see of them: an RPC client error is the
  transaction error it may carry.
\<close>

type_synonym ext_error = string

datatype instruction_error = Custom u32 | OtherInstructionError

datatype transaction_error =
    InstructionError u8 instruction_error
  | InsufficientFundsForFee
  | InsufficientFundsForRent u8
  | OtherTransactionError

datatype sdk_error =
    Http ext_error
  | Rpc "transaction_error option"
  | Ws ext_error
  | Anchor ext_error
  | Deserializing
  | InvalidAccount
  | InvalidOracle
  | InvalidSeed
  | InvalidBase58
  | NoPosiiton u16
  | OutOfSOL
  | Signing ext_error
  | ConnectionError ext_error
  | SubscriptionFailure ext_error
  | WebsocketError
  | MissedHeartbeat
  | UnsupportedAccountData
  | CouldntDecode ext_error
  | CouldntJoin ext_error
  | CouldntUnsubscribe
  | MathError string
  | BorrowMutError ext_error
  | BorrowError ext_error
  | Generic string
  | MaxReconnectionAttemptsReached
  | JitOrderNotFound

type_synonym 'a res = "sdk_error fail + 'a"

text \<open>
  \<open>to_anchor_error_code\<close>: the anchor offset (a constant of another crate) is subtracted in
  \<open>u32\<close> and the difference taken as the discriminant of the program's error enum. The value here
  is that discriminant.
\<close>

definition to_anchor_error_code :: "u32 \<Rightarrow> sdk_error \<Rightarrow> u32 option res" where
  "to_anchor_error_code offset e =
     (case e of
        Rpc (Some (InstructionError _ (Custom code))) \<Rightarrow>
          bindE (usub code offset) (\<lambda>d. Inr (Some d))
      | _ \<Rightarrow> Inr None)"

definition to_out_of_sol_error :: "sdk_error \<Rightarrow> sdk_error option" where
  "to_out_of_sol_error e =
     (case e of
        Rpc (Some InsufficientFundsForFee) \<Rightarrow> Some OutOfSOL
      | Rpc (Some (InsufficientFundsForRent _)) \<Rightarrow> Some OutOfSOL
      | _ \<Rightarrow> None)"

section \<open>Small helpers\<close>

definition is_one_of_variant :: "'a \<Rightarrow> 'a list \<Rightarrow> bool" where
  "is_one_of_variant v variants = list_ex (\<lambda>variant. v = variant) variants"

lemma is_one_of_variant_iff [simp]: "is_one_of_variant v vs \<longleftrightarrow> v \<in> set vs"
  by (auto simp: is_one_of_variant_def list_ex_iff)

record 'd data_and_slot =
  das_slot :: u64
  das_data :: 'd

section \<open>Market ids\<close>

record market_id =
  mid_index :: u16
  mid_kind :: market_type

definition market_id_perp :: "u16 \<Rightarrow> market_id" where
  "market_id_perp index = \<lparr>mid_index = index, mid_kind = market_type.Perp\<rparr>"

definition market_id_spot :: "u16 \<Rightarrow> market_id" where
  "market_id_spot index = \<lparr>mid_index = index, mid_kind = market_type.Spot\<rparr>"

definition QUOTE_SPOT :: market_id where
  "QUOTE_SPOT = \<lparr>mid_index = 0, mid_kind = market_type.Spot\<rparr>"

definition market_id_from :: "u16 \<times> market_type \<Rightarrow> market_id" where
  "market_id_from v = \<lparr>mid_index = fst v, mid_kind = snd v\<rparr>"

section \<open>Order parameters and their builder\<close>

record order_params =
  p_order_type :: order_type
  p_market_type :: market_type
  p_direction :: position_direction
  p_user_order_id :: u8
  p_base_asset_amount :: u64
  p_price :: u64
  p_market_index :: u16
  p_reduce_only :: bool
  p_post_only :: post_only_param
  p_immediate_or_cancel :: bool

text \<open>The default values of the program's types, which the builder starts from.\<close>

record type_defaults =
  def_order_type :: order_type
  def_direction :: position_direction
  def_market_type :: market_type
  def_post_only :: post_only_param
  def_order_params :: order_params

record new_order =
  no_order_type :: order_type
  no_direction :: position_direction
  no_reduce_only :: bool
  no_market_id :: market_id
  no_post_only :: post_only_param
  no_ioc :: bool
  no_amount :: u64
  no_price :: u64
  no_user_order_id :: u8

definition new_order_default :: "type_defaults \<Rightarrow> new_order" where
  "new_order_default D =
     \<lparr>no_order_type = def_order_type D, no_direction = def_direction D, no_reduce_only = False,
      no_market_id = \<lparr>mid_index = 0, mid_kind = def_market_type D\<rparr>,
      no_post_only = def_post_only D, no_ioc = False, no_amount = 0, no_price = 0,
      no_user_order_id = 0\<rparr>"

definition new_order_market :: "type_defaults \<Rightarrow> market_id \<Rightarrow> new_order" where
  "new_order_market D market_id =
     (new_order_default D)\<lparr>no_order_type := order_type.Market, no_market_id := market_id\<rparr>"

definition new_order_limit :: "type_defaults \<Rightarrow> market_id \<Rightarrow> new_order" where
  "new_order_limit D market_id =
     (new_order_default D)\<lparr>no_order_type := order_type.Limit, no_market_id := market_id\<rparr>"

text \<open>\<open>unsigned_abs\<close> of an \<open>i64\<close> is exact for every value, the minimum included.\<close>

definition unsigned_abs :: "i64 \<Rightarrow> u64" where
  "unsigned_abs x = word_of_int \<bar>sint x\<bar>"

definition new_order_amount :: "i64 \<Rightarrow> new_order \<Rightarrow> new_order" where
  "new_order_amount amount b =
     b\<lparr>no_direction := (if 0 \<le> sint amount then Long else Short), no_amount := unsigned_abs amount\<rparr>"

definition new_order_price :: "u64 \<Rightarrow> new_order \<Rightarrow> new_order" where
  "new_order_price price b = b\<lparr>no_price := price\<rparr>"

definition new_order_reduce_only :: "bool \<Rightarrow> new_order \<Rightarrow> new_order" where
  "new_order_reduce_only flag b = b\<lparr>no_reduce_only := flag\<rparr>"

definition new_order_ioc :: "bool \<Rightarrow> new_order \<Rightarrow> new_order" where
  "new_order_ioc flag b = b\<lparr>no_ioc := flag\<rparr>"

definition new_order_post_only :: "post_only_param \<Rightarrow> new_order \<Rightarrow> new_order" where
  "new_order_post_only v b = b\<lparr>no_post_only := v\<rparr>"

definition new_order_user_order_id :: "u8 \<Rightarrow> new_order \<Rightarrow> new_order" where
  "new_order_user_order_id i b = b\<lparr>no_user_order_id := i\<rparr>"

definition new_order_build :: "type_defaults \<Rightarrow> new_order \<Rightarrow> order_params" where
  "new_order_build D b = (def_order_params D)
     \<lparr>p_order_type := no_order_type b,
      p_market_index := mid_index (no_market_id b),
      p_market_type := mid_kind (no_market_id b),
      p_price := no_price b,
      p_base_asset_amount := no_amount b,
      p_reduce_only := no_reduce_only b,
      p_direction := no_direction b,
      p_immediate_or_cancel := no_ioc b,
      p_post_only := no_post_only b,
      p_user_order_id := no_user_order_id b\<rparr>"

lemma uint_unsigned_abs: "uint (unsigned_abs x) = \<bar>sint x\<bar>"
proof -
  have "0 \<le> \<bar>sint x\<bar>" "\<bar>sint x\<bar> < 2 ^ 64"
    using i64_range [of x] by simp_all
  then show ?thesis by (simp add: unsigned_abs_def uint_word_of_int)
qed

text \<open>The signed quantity a set of order parameters asks for: the inverse of \<open>amount\<close>.\<close>

definition signed_amount :: "order_params \<Rightarrow> int" where
  "signed_amount p = (case p_direction p of Long \<Rightarrow> uint (p_base_asset_amount p)
     | Short \<Rightarrow> - uint (p_base_asset_amount p))"

section \<open>Client options\<close>

record client_opts =
  co_active_sub_account_id :: u16
  co_sub_account_ids :: "u16 list"

definition client_opts_default :: client_opts where
  "client_opts_default = \<lparr>co_active_sub_account_id = 0, co_sub_account_ids = [0]\<rparr>"

definition client_opts_new :: "u16 \<Rightarrow> u16 list option \<Rightarrow> client_opts" where
  "client_opts_new active sub_account_ids =
     \<lparr>co_active_sub_account_id = active,
      co_sub_account_ids = (case sub_account_ids of None \<Rightarrow> [active] | Some ids \<Rightarrow> ids)\<rparr>"

end
