(* ===== verification/Order_Math.thy ===== *)
theory Order_Math
  imports Sdk_Types
begin

text \<open>
  \<open>src/src/math/auction.rs\<close> and \<open>src/src/math/order.rs\<close>: the auction price of an order, its limit
  price, and the classification of an order as complete, resting or expired.

  The methods of the program's \<open>Order\<close> and the textual form of a key come from other crates: they
  are the fields of \<open>order_env\<close>, and \<open>order_env_ok\<close> states what their documentation says.
\<close>

record order_env =
  env_must_be_triggered :: "order \<Rightarrow> bool"
  env_triggered :: "order \<Rightarrow> bool"
  env_is_limit_order :: "order \<Rightarrow> bool"
  env_pubkey_to_string :: "pubkey \<Rightarrow> string"

definition order_env_ok :: "'a order_env_scheme \<Rightarrow> bool" where
  "order_env_ok E \<longleftrightarrow>
     (\<forall>order. env_must_be_triggered E order \<longleftrightarrow>
        o_order_type order \<in> {order_type.TriggerMarket, order_type.TriggerLimit}) \<and>
     (\<forall>order. env_triggered E order \<longleftrightarrow>
        o_trigger_condition order \<in> {TriggeredAbove, TriggeredBelow}) \<and>
     (\<forall>order. env_is_limit_order E order \<longleftrightarrow>
        o_order_type order \<in> {order_type.Limit, order_type.TriggerLimit}) \<and>
     inj (env_pubkey_to_string E)"

section \<open>Auctions\<close>

definition is_auction_complete :: "order \<Rightarrow> u64 \<Rightarrow> bool res" where
  "is_auction_complete order slot =
     (if o_auction_duration order = 0 then Inr True
      else bindE (uadd (o_slot order) (ucast (o_auction_duration order))) (\<lambda>end_slot.
        Inr (end_slot < slot)))"

text \<open>
  \<open>slot as i64\<close> reinterprets the bits, and the subtraction is checked. The prices, widened to
  \<open>i128\<close>, are multiplied before they are subtracted, as the operators of the source bind.
\<close>

definition get_auction_price_for_fixed_auction :: "order \<Rightarrow> u64 \<Rightarrow> int res" where
  "get_auction_price_for_fixed_auction order slot =
     bindE (chk_i 64 (sint slot - sint (o_slot order))) (\<lambda>slots_elapsed.
     let auction_start_price = sint (o_auction_start_price order);
         auction_end_price = sint (o_auction_end_price order);
         delta_denominator = uint (o_auction_duration order);
         delta_numerator = min slots_elapsed (uint (o_auction_duration order)) in
     if delta_denominator = 0 then Inr auction_start_price
     else case o_direction order of
       Long \<Rightarrow>
         bindE (chk_i 128 (auction_start_price * delta_numerator)) (\<lambda>m.
         bindE (div_i 128 m delta_denominator) (\<lambda>q.
         bindE (chk_i 128 (auction_end_price - q)) (\<lambda>price_delta.
         chk_i 128 (auction_start_price + price_delta))))
     | Short \<Rightarrow>
         bindE (chk_i 128 (auction_end_price * delta_numerator)) (\<lambda>m.
         bindE (div_i 128 m delta_denominator) (\<lambda>q.
         bindE (chk_i 128 (auction_start_price - q)) (\<lambda>price_delta.
         chk_i 128 (auction_start_price - price_delta)))))"

definition get_auction_price_for_oracle_offset_auction :: "order \<Rightarrow> u64 \<Rightarrow> i64 \<Rightarrow> int res" where
  "get_auction_price_for_oracle_offset_auction order slot oracle_price =
     bindE (chk_i 64 (sint slot - sint (o_slot order))) (\<lambda>slots_elapsed.
     let auction_start_price = sint (o_auction_start_price order);
         auction_end_price = sint (o_auction_end_price order);
         delta_denominator = uint (o_auction_duration order);
         delta_numerator = min slots_elapsed (uint (o_auction_duration order)) in
     if delta_denominator = 0 then Inr auction_start_price
     else bindE
       (case o_direction order of
         Long \<Rightarrow>
           bindE (chk_i 128 (auction_start_price * delta_numerator)) (\<lambda>m.
           bindE (div_i 128 m delta_denominator) (\<lambda>q.
           bindE (chk_i 128 (auction_end_price - q)) (\<lambda>price_delta.
           chk_i 128 (auction_start_price + price_delta))))
       | Short \<Rightarrow>
           bindE (chk_i 128 (auction_end_price * delta_numerator)) (\<lambda>m.
           bindE (div_i 128 m delta_denominator) (\<lambda>q.
           bindE (chk_i 128 (auction_start_price - q)) (\<lambda>price_delta.
           chk_i 128 (auction_start_price - price_delta)))))
       (\<lambda>price_offset. chk_i 128 (sint oracle_price + price_offset)))"

definition get_auction_price :: "order \<Rightarrow> u64 \<Rightarrow> i64 \<Rightarrow> int res" where
  "get_auction_price order slot price =
     (if is_one_of_variant (o_order_type order)
           [order_type.Market, order_type.TriggerMarket, order_type.Limit, order_type.TriggerLimit]
      then get_auction_price_for_fixed_auction order slot
      else if o_order_type order = order_type.Oracle
      then get_auction_price_for_oracle_offset_auction order slot price
      else Inl (Panic ''Invalid order type''))"

definition is_fallback_available :: "order \<Rightarrow> u8 \<Rightarrow> u64 \<Rightarrow> bool res" where
  "is_fallback_available order min_auction_duration slot =
     (if min_auction_duration = 0 then Inr True
      else bindE (uadd (o_slot order) (ucast min_auction_duration)) (\<lambda>end_slot.
        Inr (end_slot < slot)))"

section \<open>Limit prices and the state of an order\<close>

definition has_auction_price :: "order \<Rightarrow> u64 \<Rightarrow> bool res" where
  "has_auction_price order slot =
     bindE (is_auction_complete order slot) (\<lambda>complete.
     Inr (\<not> complete \<and> (o_auction_start_price order \<noteq> 0 \<or> o_auction_end_price order \<noteq> 0)))"

definition get_limit_price :: "order \<Rightarrow> oracle_price_data \<Rightarrow> u64 \<Rightarrow> u64 option \<Rightarrow> u64 res" where
  "get_limit_price order oracle_price_data slot fallback_price =
     bindE (has_auction_price order slot) (\<lambda>auction.
     if auction then
       bindE (get_auction_price order slot (opd_price oracle_price_data)) try_u
     else if o_oracle_price_offset order \<noteq> 0 then
       bindE (chk_i 128 (sint (opd_price oracle_price_data) + sint (o_oracle_price_offset order)))
         try_u
     else if o_price order = 0 then
       (case fallback_price of
          Some price \<Rightarrow> Inr price
        | None \<Rightarrow> Inl (Panic ''Order price is 0 and no fallback price provided''))
     else Inr (o_price order))"

definition is_resting_limit_order :: "'a order_env_scheme \<Rightarrow> order \<Rightarrow> u64 \<Rightarrow> bool res" where
  "is_resting_limit_order E order slot =
     (if \<not> env_is_limit_order E order then Inr False
      else if o_order_type order = order_type.TriggerLimit then
        (case o_direction order of
           Long \<Rightarrow> if o_trigger_price order < o_price order then Inr False
                   else is_auction_complete order slot
         | Short \<Rightarrow> if o_price order < o_trigger_price order then Inr False
                   else is_auction_complete order slot)
      else if o_post_only order then Inr True
      else is_auction_complete order slot)"

definition is_limit_order :: "order \<Rightarrow> bool" where
  "is_limit_order order \<longleftrightarrow> o_order_type order \<in> {order_type.Limit, order_type.TriggerLimit}"

definition is_order_expired :: "'a order_env_scheme \<Rightarrow> order \<Rightarrow> i64 \<Rightarrow> bool \<Rightarrow> bool res" where
  "is_order_expired E order ts enforce_buffer =
     (if env_must_be_triggered E order \<or> o_status order \<noteq> order_status.Open \<or> o_max_ts order = 0
      then Inr False
      else bindE
        (if is_limit_order order \<and> enforce_buffer then chk_i 64 (sint (o_max_ts order) + 15)
         else Inr (sint (o_max_ts order)))
        (\<lambda>max_ts. Inr (sint ts > max_ts)))"

section \<open>Arithmetic of the auction\<close>

lemma abs_sdiv_le: "\<bar>x sdiv y\<bar> \<le> \<bar>x\<bar>" for x y :: int
proof (cases "y = 0")
  case False
  have "\<bar>x sdiv y\<bar> = \<bar>x\<bar> div \<bar>y\<bar>" if "x \<noteq> 0"
    using False that by (simp add: signed_divide_int_def abs_mult abs_sgn_eq pos_imp_zdiv_nonneg_iff)
  moreover have "\<bar>x\<bar> div \<bar>y\<bar> \<le> \<bar>x\<bar>"
    using False div_le_dividend [of "nat \<bar>x\<bar>" "nat \<bar>y\<bar>"]
    by (metis abs_ge_zero nat_div_distrib nat_le_eq_zle nat_0_le
        pos_imp_zdiv_nonneg_iff zero_less_abs_iff)
  ultimately show ?thesis by (cases "x = 0") (auto simp: signed_divide_int_def)
qed (simp add: signed_divide_int_def)

lemma sdiv_mult_cancel: "y \<noteq> 0 \<Longrightarrow> (x * y) sdiv y = x" for x y :: int
  by (simp add: signed_divide_int_def abs_mult sgn_mult mult.assoc sgn_mult_abs)

text \<open>No intermediate value of the interpolation leaves the range of \<open>i128\<close>.\<close>

lemma auction_step_fits:
  assumes "\<bar>a\<bar> \<le> 2 ^ 63" and "\<bar>b\<bar> \<le> 2 ^ 63" and "\<bar>n\<bar> \<le> 2 ^ 63"
  shows "fits_i 128 (a * n)" and "fits_i 128 ((a * n) sdiv d)"
    and "fits_i 128 (b - (a * n) sdiv d)"
    and "fits_i 128 (a + (b - (a * n) sdiv d))"
    and "fits_i 128 (b - (b - (a * n) sdiv d))"
proof -
  have "\<bar>a * n\<bar> \<le> 2 ^ 63 * 2 ^ 63"
    unfolding abs_mult using assms by (intro mult_mono) auto
  moreover have "\<bar>(a * n) sdiv d\<bar> \<le> \<bar>a * n\<bar>" by (rule abs_sdiv_le)
  ultimately show "fits_i 128 (a * n)" and "fits_i 128 ((a * n) sdiv d)"
    and "fits_i 128 (b - (a * n) sdiv d)"
    and "fits_i 128 (a + (b - (a * n) sdiv d))"
    and "fits_i 128 (b - (b - (a * n) sdiv d))"
    using assms(1,2) by (auto simp: fits_i_def abs_le_iff)
qed

lemma abs_sint_i64: "\<bar>sint (w :: i64)\<bar> \<le> 2 ^ 63"
  using i64_range [of w] by auto

text \<open>
  The slots of an auction that have passed, and the closed form of the expression the source computes
  after \<open>n\<close> of \<open>d\<close> slots, as its operators bind. This is a lemma's right-hand side and not a linear
  interpolation, which is \<open>linear_price\<close> of \<open>Auction_Price\<close>.
\<close>

definition elapsed_slots :: "order \<Rightarrow> u64 \<Rightarrow> int" where
  "elapsed_slots order slot =
     min (sint slot - sint (o_slot order)) (uint (o_auction_duration order))"

definition source_price :: "order \<Rightarrow> int \<Rightarrow> int" where
  "source_price order n =
     (let s = sint (o_auction_start_price order); e = sint (o_auction_end_price order);
          d = uint (o_auction_duration order) in
      case o_direction order of
        Long \<Rightarrow> s + e - (s * n) sdiv d
      | Short \<Rightarrow> (e * n) sdiv d)"

lemma elapsed_slots_bound:
  assumes "fits_i 64 (sint slot - sint (o_slot order))"
  shows "\<bar>elapsed_slots order slot\<bar> \<le> 2 ^ 63"
  using assms u8_range [of "o_auction_duration order"]
  by (auto simp: elapsed_slots_def fits_i_def min_def)

lemmas auction_fits = auction_step_fits [OF abs_sint_i64 abs_sint_i64]

text \<open>The two branches of the direction compute that expression without overflow.\<close>

lemma auction_direction:
  assumes "fits_i 64 (sint slot - sint (o_slot order))" and "o_auction_duration order \<noteq> 0"
  shows "(case o_direction order of
       Long \<Rightarrow>
         bindE (chk_i 128 (sint (o_auction_start_price order) * elapsed_slots order slot)) (\<lambda>m.
         bindE (div_i 128 m (uint (o_auction_duration order))) (\<lambda>q.
         bindE (chk_i 128 (sint (o_auction_end_price order) - q)) (\<lambda>price_delta.
         chk_i 128 (sint (o_auction_start_price order) + price_delta))))
     | Short \<Rightarrow>
         bindE (chk_i 128 (sint (o_auction_end_price order) * elapsed_slots order slot)) (\<lambda>m.
         bindE (div_i 128 m (uint (o_auction_duration order))) (\<lambda>q.
         bindE (chk_i 128 (sint (o_auction_start_price order) - q)) (\<lambda>price_delta.
         chk_i 128 (sint (o_auction_start_price order) - price_delta)))))
     = (Inr (source_price order (elapsed_slots order slot)) :: int res)"
proof -
  have d: "uint (o_auction_duration order) \<noteq> 0" using assms(2) by (simp add: unsigned_eq_0_iff)
  note fits = auction_fits [OF elapsed_slots_bound [OF assms(1)]]
  show ?thesis
    using d by (cases "o_direction order")
      (simp_all add: fits source_price_def Let_def)
qed

section \<open>Properties of auctions\<close>

lemma fixed_auction_eq:
  assumes "fits_i 64 (sint slot - sint (o_slot order))"
  shows "get_auction_price_for_fixed_auction order slot = Inr
    (if o_auction_duration order = 0 then sint (o_auction_start_price order)
     else source_price order (elapsed_slots order slot))"
  using auction_direction [OF assms] assms
  by (simp add: get_auction_price_for_fixed_auction_def elapsed_slots_def Let_def
      unsigned_eq_0_iff cong: position_direction.case_cong)

lemma source_price_bound:
  assumes "\<bar>n\<bar> \<le> uint (o_auction_duration order)"
  shows "\<bar>source_price order n\<bar> \<le> 2 ^ 71 + 2 ^ 64"
proof -
  have n: "\<bar>n\<bar> \<le> 2 ^ 8" using assms u8_range [of "o_auction_duration order"] by simp
  have "\<bar>(sint p * n) sdiv d\<bar> \<le> 2 ^ 63 * 2 ^ 8" for p :: i64 and d
  proof -
    have "\<bar>sint p * n\<bar> \<le> 2 ^ 63 * 2 ^ 8"
      unfolding abs_mult using n abs_sint_i64 [of p] by (intro mult_mono) auto
    with abs_sdiv_le show ?thesis by (rule order_trans)
  qed
  note q = this [of "o_auction_start_price order" "uint (o_auction_duration order)"]
    this [of "o_auction_end_price order" "uint (o_auction_duration order)"]
  show ?thesis
    using q abs_sint_i64 [of "o_auction_start_price order"] abs_sint_i64 [of "o_auction_end_price order"]
    by (cases "o_direction order") (auto simp: source_price_def Let_def abs_le_iff)
qed

lemma oracle_auction_eq:
  assumes "fits_i 64 (sint slot - sint (o_slot order))" and "sint (o_slot order) \<le> sint slot"
  shows "get_auction_price_for_oracle_offset_auction order slot oracle_price = Inr
    (if o_auction_duration order = 0 then sint (o_auction_start_price order)
     else sint oracle_price + source_price order (elapsed_slots order slot))"
proof (cases "o_auction_duration order = 0")
  case True
  with assms show ?thesis
    by (simp add: get_auction_price_for_oracle_offset_auction_def Let_def)
next
  case False
  have "\<bar>elapsed_slots order slot\<bar> \<le> uint (o_auction_duration order)"
    using assms(2) by (auto simp: elapsed_slots_def)
  from source_price_bound [OF this] abs_sint_i64 [of oracle_price]
  have "fits_i 128 (sint oracle_price + source_price order (elapsed_slots order slot))"
    by (auto simp: fits_i_def abs_le_iff)
  with False auction_direction [OF assms(1) False] assms show ?thesis
    by (simp add: get_auction_price_for_oracle_offset_auction_def elapsed_slots_def Let_def
        unsigned_eq_0_iff cong: position_direction.case_cong)
qed

section \<open>A concrete environment\<close>

text \<open>The documented methods, and decimal text for keys: the hypotheses on the parameters hold.\<close>

definition doc_env :: order_env where
  "doc_env = \<lparr>
     env_must_be_triggered = (\<lambda>order.
       o_order_type order \<in> {order_type.TriggerMarket, order_type.TriggerLimit}),
     env_triggered = (\<lambda>order. o_trigger_condition order \<in> {TriggeredAbove, TriggeredBelow}),
     env_is_limit_order = (\<lambda>order.
       o_order_type order \<in> {order_type.Limit, order_type.TriggerLimit}),
     env_pubkey_to_string = (\<lambda>k. dec (unat k))\<rparr>"

lemma order_env_ok_doc_env: "order_env_ok doc_env"
proof -
  have "inj (\<lambda>k :: pubkey. dec (unat k))"
    using inj_dec by (auto intro!: injI dest!: injD simp: word_unat_eq_iff)
  then show ?thesis by (simp add: order_env_ok_def doc_env_def)
qed

text \<open>An open limit order whose auction runs over the slots 100 to 110.\<close>

definition sample_order :: order where
  "sample_order = \<lparr>o_slot = 100, o_price = 1000, o_base_asset_amount = 50,
     o_base_asset_amount_filled = 0, o_trigger_price = 0, o_auction_start_price = 90,
     o_auction_end_price = 110, o_max_ts = 5000, o_oracle_price_offset = 0, o_order_id = 1,
     o_market_index = 0, o_status = order_status.Open, o_order_type = order_type.Limit,
     o_market_type = market_type.Perp, o_user_order_id = 0, o_direction = Long,
     o_post_only = False, o_trigger_condition = Above, o_auction_duration = 10\<rparr>"

section \<open>Properties of auctions\<close>

lemma sint_small: "uint (w :: u64) < 2 ^ 63 \<Longrightarrow> sint w = uint w"
proof -
  assume "uint w < 2 ^ 63"
  moreover have "- (2 ^ 63) \<le> uint w" by (rule order_trans [OF _ u64_range(1)]) simp
  ultimately show ?thesis using sint_uint [of w] signed_take_bit_int_eq_self [of 63 "uint w"] by simp
qed

lemma auction_slots:
  assumes "uint slot < 2 ^ 63" and "o_slot order \<le> slot"
  shows "sint slot = uint slot" and "sint (o_slot order) = uint (o_slot order)"
    and "fits_i 64 (sint slot - sint (o_slot order))"
proof -
  have le: "uint (o_slot order) \<le> uint slot" using assms(2) by (simp add: word_le_def)
  show s: "sint slot = uint slot" by (rule sint_small [OF assms(1)])
  show o: "sint (o_slot order) = uint (o_slot order)"
    using le assms(1) by (intro sint_small) simp
  show "fits_i 64 (sint slot - sint (o_slot order))"
  proof -
    have "0 \<le> uint slot - uint (o_slot order)" "uint slot - uint (o_slot order) < 2 ^ 63"
      using le assms(1) u64_range(1) [of "o_slot order"] by linarith+
    then show ?thesis unfolding s o fits_i_def by simp
  qed
qed

lemma is_auction_type:
  "o_order_type order \<noteq> order_type.Oracle \<Longrightarrow> is_one_of_variant (o_order_type order)
     [order_type.Market, order_type.TriggerMarket, order_type.Limit, order_type.TriggerLimit]"
  by (cases "o_order_type order") simp_all

lemma auction_price_eq:
  assumes "uint slot < 2 ^ 63" and "o_slot order \<le> slot"
  shows "get_auction_price order slot price = Inr
    (if o_auction_duration order = 0 then sint (o_auction_start_price order)
     else (if o_order_type order = order_type.Oracle then sint price else 0) +
       source_price order
         (min (uint slot - uint (o_slot order)) (uint (o_auction_duration order))))"
proof -
  note slots = auction_slots [OF assms]
  have "sint (o_slot order) \<le> sint slot"
    using assms(2) by (simp add: slots word_le_def)
  note eqs = fixed_auction_eq [OF slots(3)] oracle_auction_eq [OF slots(3) this]
  show ?thesis
    using is_auction_type [of order]
    by (simp add: get_auction_price_def eqs elapsed_slots_def slots)
qed

text \<open>
  Once the auction is over the price is the end price of the auction, for both directions, on
  top of the oracle price for an oracle order.
\<close>

theorem auction_price_at_end:
  assumes "o_auction_duration order \<noteq> 0" and "uint slot < 2 ^ 63"
    and "uint (o_slot order) + uint (o_auction_duration order) \<le> uint slot"
  shows "get_auction_price order slot price = Inr
    ((if o_order_type order = order_type.Oracle then sint price else 0) +
     sint (o_auction_end_price order))"
proof -
  have le: "o_slot order \<le> slot"
    using assms(3) u8_range(1) [of "o_auction_duration order"] unfolding word_le_def by linarith
  have m: "min (uint slot - uint (o_slot order)) (uint (o_auction_duration order)) =
      uint (o_auction_duration order)"
    using assms(3) by simp
  have d: "uint (o_auction_duration order) \<noteq> 0" using assms(1) by (simp add: unsigned_eq_0_iff)
  show ?thesis
    unfolding auction_price_eq [OF assms(2) le] m
    using assms(1) d by (cases "o_direction order")
      (simp_all add: source_price_def Let_def sdiv_mult_cancel)
qed

text \<open>
  In the first slot of its auction the price of an order is not the start price: a long order
  is priced at the sum of start and end price and a short order at zero (over the oracle price for
  an oracle order), because the product and quotient are taken before the subtraction.
\<close>

theorem auction_price_at_start:
  assumes "o_auction_duration order \<noteq> 0" and "uint (o_slot order) < 2 ^ 63"
  shows "get_auction_price order (o_slot order) price = Inr
    ((if o_order_type order = order_type.Oracle then sint price else 0) +
     (case o_direction order of
        Long \<Rightarrow> sint (o_auction_start_price order) + sint (o_auction_end_price order)
      | Short \<Rightarrow> 0))"
proof -
  have m: "min (uint (o_slot order) - uint (o_slot order)) (uint (o_auction_duration order)) = 0"
    by simp
  show ?thesis
    unfolding auction_price_eq [OF assms(2) order_refl] m
    using assms(1) by (cases "o_direction order") (simp_all add: source_price_def Let_def)
qed

theorem auction_price_at_end_witness: "get_auction_price sample_order 111 7 = Inr 110"
  using auction_price_at_end [of sample_order 111 7] by (simp add: sample_order_def)

theorem auction_price_at_start_witness: "get_auction_price sample_order 100 7 = Inr 200"
  using auction_price_at_start [of sample_order 7] by (simp add: sample_order_def)

section \<open>Properties of limit prices and of the state of an order\<close>

lemma is_auction_complete_Inr:
  "is_auction_complete order slot = Inr b \<longleftrightarrow>
     (if o_auction_duration order = 0 then b
      else uint (o_slot order) + uint (o_auction_duration order) < 2 ^ 64 \<and>
        b = (uint (o_slot order) + uint (o_auction_duration order) < uint slot))"
proof -
  have "uint (ucast d :: u64) = uint d" for d :: u8
    by (simp add: uint_up_ucast is_up)
  then show ?thesis
    by (auto simp: is_auction_complete_def uadd_def word_less_def uint_word_ariths split: if_splits)
qed

lemma is_auction_complete_mono:
  assumes "is_auction_complete order slot = Inr True" and "slot \<le> slot'"
  shows "is_auction_complete order slot' = Inr True"
  using assms by (auto simp: is_auction_complete_Inr word_le_def split: if_splits)

text \<open>
  Resting is for ever: an order that rests at a slot rests, without a panic, at every later
  slot.
\<close>

theorem resting_limit_order_mono:
  assumes "is_resting_limit_order E order slot = Inr True" and "slot \<le> slot'"
  shows "is_resting_limit_order E order slot' = Inr True"
  using assms(1) is_auction_complete_mono [OF _ assms(2)]
  by (auto simp: is_resting_limit_order_def split: if_splits position_direction.splits)

theorem resting_limit_order_mono_witness:
  "is_resting_limit_order doc_env sample_order 200 = Inr True"
proof (rule resting_limit_order_mono)
  show "is_resting_limit_order doc_env sample_order 111 = Inr True"
    by (simp add: is_resting_limit_order_def doc_env_def sample_order_def is_auction_complete_Inr)
  show "(111 :: u64) \<le> 200" by simp
qed

text \<open>
  The price of an order whose auction is over does not depend on the slot any more: from that
  slot on it is the oracle price shifted by the order's offset if it has one (a panic if that is
  negative or does not fit), otherwise its own price, otherwise the fallback, and without a
  fallback the function panics.
\<close>

theorem limit_price_after_auction:
  assumes "is_auction_complete order slot = Inr True" and "slot \<le> slot'"
  shows "get_limit_price order oracle slot' fallback =
    (if o_oracle_price_offset order \<noteq> 0
     then try_u (sint (opd_price oracle) + sint (o_oracle_price_offset order))
     else if o_price order \<noteq> 0 then Inr (o_price order)
     else of_opt (Panic ''Order price is 0 and no fallback price provided'') fallback)"
proof -
  have "fits_i 128 (sint (opd_price oracle) + sint (o_oracle_price_offset order))"
    using i64_range [of "opd_price oracle"] i32_range [of "o_oracle_price_offset order"]
    by (simp add: fits_i_def)
  then show ?thesis
    using is_auction_complete_mono [OF assms]
    by (simp add: get_limit_price_def has_auction_price_def split: option.split)
qed

text \<open>When an order is expired, as a predicate.\<close>

definition expired_at :: "i64 \<Rightarrow> bool \<Rightarrow> order \<Rightarrow> bool" where
  "expired_at ts enforce_buffer order \<longleftrightarrow>
     o_order_type order \<notin> {order_type.TriggerMarket, order_type.TriggerLimit} \<and>
     o_status order = order_status.Open \<and> o_max_ts order \<noteq> 0 \<and>
     sint (o_max_ts order) +
       (if o_order_type order = order_type.Limit \<and> enforce_buffer then 15 else 0) < sint ts"

lemma is_order_expired_eq:
  assumes "order_env_ok E" and "sint (o_max_ts order) + 15 < 2 ^ 63"
  shows "is_order_expired E order ts enforce_buffer = Inr (expired_at ts enforce_buffer order)"
proof -
  have "fits_i 64 (sint (o_max_ts order) + 15)"
    using assms(2) i64_range [of "o_max_ts order"] by (simp add: fits_i_def)
  then show ?thesis
    using assms(1)
    by (auto simp: is_order_expired_def order_env_ok_def is_limit_order_def expired_at_def)
qed

text \<open>
  An order is expired exactly if it is open, is not a trigger order, has an expiry time and the
  time given is after it, for limit orders with the buffer after fifteen seconds more; the check
  does not panic when the expiry time is at least fifteen seconds below the largest 64-bit integer.
\<close>

theorem order_expired_iff:
  assumes "order_env_ok E" and "sint (o_max_ts order) + 15 < 2 ^ 63"
  shows "is_order_expired E order ts enforce_buffer = Inr
    (o_order_type order \<notin> {order_type.TriggerMarket, order_type.TriggerLimit} \<and>
     o_status order = order_status.Open \<and> o_max_ts order \<noteq> 0 \<and>
     sint (o_max_ts order) +
       (if o_order_type order = order_type.Limit \<and> enforce_buffer then 15 else 0) < sint ts)"
  using is_order_expired_eq [OF assms, of ts enforce_buffer] by (simp add: expired_at_def)

theorem limit_price_after_auction_witness:
  "get_limit_price sample_order \<lparr>opd_price = 5, opd_confidence = 0, opd_delay = 0,
     opd_has_sufficient_number_of_data_points = True\<rparr> 300 None = Inr 1000"
  using limit_price_after_auction [of sample_order 200 300]
  by (simp add: sample_order_def is_auction_complete_Inr)

theorem order_expired_iff_witness:
  "is_order_expired doc_env sample_order 5015 True = Inr False \<and>
   is_order_expired doc_env sample_order 5016 True = Inr True"
  using order_expired_iff [OF order_env_ok_doc_env, of sample_order 5015 True]
    order_expired_iff [OF order_env_ok_doc_env, of sample_order 5016 True]
  by (simp add: sample_order_def)

end
