(* ===== verification/Keyed_Heap.thy ===== *)
theory Keyed_Heap
  imports Rust_Std "HOL-Library.AList"
begin

text \<open>
  The two interfaces between the order book and its queues.

  \<open>keyed_heap\<close> is the binary heap with keyed access of the \<open>mut_binary_heap\<close> crate, which is not
  under \<open>src/\<close>: its operations are parameters, its laws what the crate documents. The laws are
  about values of the heap's type, whose fields are private, so every value is a well-formed heap.

  \<open>drain_queue\<close> is the contract of the loops that empty a queue, \<open>drain\<close> the model of such a loop.
\<close>

section \<open>The loop that empties a queue\<close>

text \<open>
  \<open>while !q.is_empty() { if let Some(x) = q.next() { out.push(x) } }\<close>: the fuel bounds the number
  of rounds.
\<close>

fun drain :: "nat \<Rightarrow> ('s \<Rightarrow> bool) \<Rightarrow> ('s \<Rightarrow> 'e fail + 'a option \<times> 's) \<Rightarrow> 's \<Rightarrow> 'e fail + 'a list" where
  "drain fuel is_empty take_one s =
     (if is_empty s then Inr []
      else case fuel of
        0 \<Rightarrow> Inl OutOfFuel
      | Suc fuel \<Rightarrow> bindE (take_one s) (\<lambda>(x, s').
          bindE (drain fuel is_empty take_one s') (\<lambda>xs.
            Inr (case x of None \<Rightarrow> xs | Some a \<Rightarrow> a # xs))))"

declare drain.simps [simp del]

text \<open>
  One round may drop an element (\<open>None\<close>); what is taken out is the least of what is left.
\<close>

locale drain_queue =
  fixes is_empty :: "'s \<Rightarrow> bool"
    and take_one :: "'s \<Rightarrow> 'e fail + 'a option \<times> 's"
    and inv :: "'s \<Rightarrow> bool"
    and rounds :: "'s \<Rightarrow> nat"
    and contents :: "'s \<Rightarrow> 'a multiset"
    and le :: "'a \<Rightarrow> 'a \<Rightarrow> bool"
  assumes is_empty_iff: "inv s \<Longrightarrow> is_empty s \<longleftrightarrow> rounds s = 0"
    and contents_empty: "inv s \<Longrightarrow> is_empty s \<Longrightarrow> contents s = {#}"
    and take_least: "inv s \<Longrightarrow> \<not> is_empty s \<Longrightarrow>
      \<exists>x s'. take_one s = Inr (x, s') \<and> inv s' \<and> rounds s = Suc (rounds s') \<and>
        (case x of
           None \<Rightarrow> contents s' = contents s
         | Some a \<Rightarrow> contents s = add_mset a (contents s') \<and> (\<forall>y\<in>#contents s'. le a y))"
begin

text \<open>With fuel for every round the loop ends, and it has taken out everything in order.\<close>

lemma drain_sorted:
  assumes "inv s" and "rounds s \<le> fuel"
  shows "\<exists>xs. drain fuel is_empty take_one s = Inr xs \<and> mset xs = contents s \<and> sorted_wrt le xs"
  using assms
proof (induction fuel arbitrary: s)
  case 0
  then show ?case by (simp add: drain.simps is_empty_iff contents_empty)
next
  case (Suc fuel)
  show ?case
  proof (cases "is_empty s")
    case True
    with contents_empty [OF Suc.prems(1)] show ?thesis by (simp add: drain.simps)
  next
    case False
    from take_least [OF Suc.prems(1) this] obtain x s' where n: "take_one s = Inr (x, s')" "inv s'"
      "rounds s = Suc (rounds s')"
      "case x of None \<Rightarrow> contents s' = contents s
       | Some a \<Rightarrow> contents s = add_mset a (contents s') \<and> (\<forall>y\<in>#contents s'. le a y)"
      by blast
    with Suc.prems(2) Suc.IH [of s'] obtain xs where
      xs: "drain fuel is_empty take_one s' = Inr xs" "mset xs = contents s'" "sorted_wrt le xs"
      by auto
    have "\<forall>a. x = Some a \<longrightarrow> (\<forall>y\<in>set xs. le a y)"
      using n(4) unfolding xs(2) [symmetric] by auto
    with n xs False show ?thesis
      by (intro exI [of _ "case x of None \<Rightarrow> xs | Some a \<Rightarrow> a # xs"])
         (cases x; simp add: drain.simps)
  qed
qed

end

section \<open>The keyed heap\<close>

text \<open>A comparison that is a total preorder on a set.\<close>

definition total_cmp :: "('t \<Rightarrow> 't \<Rightarrow> ordering) \<Rightarrow> 't set \<Rightarrow> bool" where
  "total_cmp cmp A \<longleftrightarrow>
     (\<forall>x\<in>A. \<forall>y\<in>A. cmp y x = reverse_ord (cmp x y)) \<and>
     (\<forall>x\<in>A. \<forall>y\<in>A. \<forall>z\<in>A. cmp x y \<noteq> Greater \<longrightarrow> cmp y z \<noteq> Greater \<longrightarrow> cmp x z \<noteq> Greater)"

lemma total_cmp_subset: "total_cmp cmp A \<Longrightarrow> B \<subseteq> A \<Longrightarrow> total_cmp cmp B"
  unfolding total_cmp_def by (meson subsetD)

text \<open>
  \<open>push\<close> binds a key, replacing what it was bound to; \<open>pop\<close> removes an entry whose item no other
  item exceeds, provided the comparison is a total preorder on the items; \<open>get\<close> and \<open>put\<close> are the
  read and the write of \<open>get_mut\<close>; \<open>iter\<close> lists the entries in no particular order.
\<close>

locale keyed_heap =
  fixes cmp :: "'t \<Rightarrow> 't \<Rightarrow> ordering"
    and new :: 'h
    and push :: "'k \<Rightarrow> 't \<Rightarrow> 'h \<Rightarrow> 'h"
    and pop :: "'h \<Rightarrow> ('t \<times> 'h) option"
    and get :: "'h \<Rightarrow> 'k \<Rightarrow> 't option"
    and put :: "'k \<Rightarrow> 't \<Rightarrow> 'h \<Rightarrow> 'h"
    and iter :: "'h \<Rightarrow> ('k \<times> 't) list"
    and len :: "'h \<Rightarrow> nat"
  assumes iter_new: "iter new = []"
    and distinct_iter: "distinct (map fst (iter h))"
    and map_push: "map_of (iter (push k x h)) = (map_of (iter h))(k \<mapsto> x)"
    and pop_None: "pop h = None \<longleftrightarrow> iter h = []"
    and pop_Some: "pop h = Some (x, h') \<Longrightarrow>
      \<exists>k. map_of (iter h) k = Some x \<and> map_of (iter h') = (map_of (iter h))(k := None)"
    and pop_max: "pop h = Some (x, h') \<Longrightarrow> total_cmp cmp (snd ` set (iter h)) \<Longrightarrow>
      y \<in> snd ` set (iter h) \<Longrightarrow> cmp y x \<noteq> Greater"
    and get_map: "get h k = map_of (iter h) k"
    and map_put: "k \<in> fst ` set (iter h) \<Longrightarrow> map_of (iter (put k x h)) = (map_of (iter h))(k \<mapsto> x)"
    and len_iter: "len h = length (iter h)"

lemma mset_of_map:
  assumes "distinct (map fst xs)" and "distinct (map fst ys)" and "map_of xs = map_of ys"
  shows "mset xs = mset ys"
proof -
  have "set xs = set ys" using assms by (metis map_of_eq_Some_iff subset_antisym subsetI surj_pair)
  with assms(1,2) show ?thesis by (metis distinct_map set_eq_iff_mset_eq_distinct)
qed

lemma map_of_remove:
  assumes "distinct (map fst xs)" and "map_of xs k = Some x"
  shows "map_of (remove1 (k, x) xs) = (map_of xs)(k := None)"
  using assms
  by (induction xs) (auto simp: fun_eq_iff fun_upd_def map_of_eq_None_iff split: if_splits)

context keyed_heap
begin

definition items :: "'h \<Rightarrow> 't multiset" where
  "items h = image_mset snd (mset (iter h))"

lemma items_new: "items new = {#}"
  by (simp add: items_def iter_new)

lemma set_items: "set_mset (items h) = snd ` set (iter h)"
  by (simp add: items_def)

lemma size_items: "size (items h) = len h"
  by (simp add: items_def len_iter)

lemma items_empty: "items h = {#} \<longleftrightarrow> iter h = []"
  by (simp add: items_def)

lemma iter_mem: "(k, x) \<in> set (iter h) \<longleftrightarrow> map_of (iter h) k = Some x"
  by (simp add: map_of_eq_Some_iff distinct_iter)

lemma mset_remove:
  assumes "map_of (iter h) k = Some x" and "map_of (iter h') = (map_of (iter h))(k := None)"
  shows "mset (iter h) = add_mset (k, x) (mset (iter h'))"
proof -
  have mem: "(k, x) \<in> set (iter h)" using assms(1) by (simp add: iter_mem)
  have "distinct (map fst (remove1 (k, x) (iter h)))"
    using distinct_iter [of h] by (metis distinct_map distinct_remove1 inj_on_subset notin_set_remove1 subsetI)
  then have "mset (iter h') = mset (remove1 (k, x) (iter h))"
    using assms by (intro mset_of_map) (simp_all add: distinct_iter map_of_remove)
  with mem show ?thesis by simp
qed

lemma pop_items:
  assumes "pop h = Some (x, h')"
  shows "items h = add_mset x (items h')"
  using pop_Some [OF assms] mset_remove by (metis image_mset_add_mset items_def snd_conv)

lemma push_items:
  assumes "map_of (iter h) k = None"
  shows "items (push k x h) = add_mset x (items h)"
proof -
  have "mset (iter (push k x h)) = add_mset (k, x) (mset (iter h))"
    using assms by (intro mset_remove) (auto simp: map_push)
  then show ?thesis by (simp add: items_def)
qed

text \<open>A heap whose items are totally preordered, emptied by \<open>pop\<close>, comes out greatest first.\<close>

sublocale heap_queue: drain_queue "\<lambda>h. len h = 0"
  "\<lambda>h. Inr (case pop h of None \<Rightarrow> (None, h) | Some (x, h') \<Rightarrow> (Some x, h'))"
  "\<lambda>h. total_cmp cmp (set_mset (items h))" len items "\<lambda>x y. cmp y x \<noteq> Greater"
proof
  fix h assume total: "total_cmp cmp (set_mset (items h))"
  show "(len h = 0) = (len h = 0)" ..
  show "len h = 0 \<Longrightarrow> items h = {#}" by (simp add: len_iter items_empty)
  assume "len h \<noteq> 0"
  then obtain x h' where p: "pop h = Some (x, h')"
    by (metis len_iter list.size(3) not_None_eq pop_None surj_pair)
  note i = pop_items [OF p]
  have "total_cmp cmp (set_mset (items h'))"
    using total i by (metis set_mset_add_mset_insert subset_insertI total_cmp_subset)
  moreover have "\<forall>y\<in>#items h'. cmp y x \<noteq> Greater"
    using pop_max [OF p] total i by (metis insert_iff set_items set_mset_add_mset_insert)
  ultimately show "\<exists>x s'. Inr (case pop h of None \<Rightarrow> (None, h) | Some (x, h') \<Rightarrow> (Some x, h')) =
      Inr (x, s') \<and> total_cmp cmp (set_mset (items s')) \<and> len h = Suc (len s') \<and>
      (case x of None \<Rightarrow> items s' = items h
       | Some a \<Rightarrow> items h = add_mset a (items s') \<and> (\<forall>y\<in>#items s'. cmp y a \<noteq> Greater))"
    using p i by (auto simp flip: size_items)
qed

end

section \<open>A heap that satisfies the laws\<close>

text \<open>
  An association list, the first entry of a key being the one that counts. It shows that the laws
  can hold, and it is the heap of the concrete order books.
\<close>

fun best_entry :: "('t \<Rightarrow> 't \<Rightarrow> ordering) \<Rightarrow> ('k \<times> 't) list \<Rightarrow> ('k \<times> 't) option" where
  "best_entry cmp [] = None"
| "best_entry cmp (e # es) =
     (case best_entry cmp es of
        None \<Rightarrow> Some e
      | Some e' \<Rightarrow> if cmp (snd e') (snd e) = Greater then Some e' else Some e)"

definition list_heap_pop ::
  "('t \<Rightarrow> 't \<Rightarrow> ordering) \<Rightarrow> ('k \<times> 't) list \<Rightarrow> ('t \<times> ('k \<times> 't) list) option" where
  "list_heap_pop cmp h =
     (case best_entry cmp (AList.clearjunk h) of
        None \<Rightarrow> None
      | Some (k, x) \<Rightarrow> Some (x, AList.delete k h))"

definition list_heap_push :: "'k \<Rightarrow> 't \<Rightarrow> ('k \<times> 't) list \<Rightarrow> ('k \<times> 't) list" where
  "list_heap_push k x h = (k, x) # h"

lemma best_entry_None: "best_entry cmp es = None \<longleftrightarrow> es = []"
  by (cases es) (auto split: option.splits)

lemma best_entry_mem: "best_entry cmp es = Some e \<Longrightarrow> e \<in> set es"
  by (induction es arbitrary: e) (auto split: option.splits if_splits)

lemma best_entry_max:
  assumes "total_cmp cmp (snd ` set es)" and "best_entry cmp es = Some e" and "e' \<in> set es"
  shows "cmp (snd e') (snd e) \<noteq> Greater"
  using assms
proof (induction es arbitrary: e e')
  case Nil
  then show ?case by simp
next
  case (Cons a es)
  have tot: "total_cmp cmp (snd ` set es)"
    using Cons.prems(1) by (rule total_cmp_subset) auto
  have "cmp (snd a) (snd a) = reverse_ord (cmp (snd a) (snd a))"
    using Cons.prems(1) by (simp add: total_cmp_def)
  then have refl: "cmp (snd a) (snd a) \<noteq> Greater"
    by (cases "cmp (snd a) (snd a)") auto
  show ?case
  proof (cases "best_entry cmp es")
    case None
    with Cons.prems refl show ?thesis by (auto simp: best_entry_None)
  next
    case (Some b)
    note mem = best_entry_mem [OF Some]
    have IH: "cmp (snd c) (snd b) \<noteq> Greater" if "c \<in> set es" for c
      using Cons.IH [OF tot Some that] .
    have anti: "cmp y x = reverse_ord (cmp x y)"
        if "x \<in> snd ` set (a # es)" "y \<in> snd ` set (a # es)" for x y
      using Cons.prems(1) that unfolding total_cmp_def by blast
    have trans: "cmp x z \<noteq> Greater" if "cmp x y \<noteq> Greater" "cmp y z \<noteq> Greater"
        "x \<in> snd ` set (a # es)" "y \<in> snd ` set (a # es)" "z \<in> snd ` set (a # es)" for x y z
      using Cons.prems(1) that unfolding total_cmp_def by blast
    show ?thesis
    proof (cases "cmp (snd b) (snd a) = Greater")
      case True
      then have "cmp (snd a) (snd b) \<noteq> Greater"
        using anti [of "snd b" "snd a"] mem by auto
      with True Some IH [of e'] Cons.prems(2,3) show ?thesis by (cases "e' = a") simp_all
    next
      case False
      then have "cmp (snd c) (snd a) \<noteq> Greater" if "c \<in> set es" for c
        using trans [OF IH [OF that] False] that mem by auto
      from this [of e'] False Some refl Cons.prems(2,3) show ?thesis by (cases "e' = a") simp_all
    qed
  qed
qed

lemma keyed_heap_list:
  "keyed_heap cmp [] list_heap_push (list_heap_pop cmp) map_of list_heap_push AList.clearjunk
     (\<lambda>h. length (AList.clearjunk h))"
proof
  fix h h' and x y
  show "list_heap_pop cmp h = None \<longleftrightarrow> AList.clearjunk h = []"
    by (auto simp: list_heap_pop_def best_entry_None split: option.split)
  assume p: "list_heap_pop cmp h = Some (x, h')"
  then obtain k where k: "best_entry cmp (AList.clearjunk h) = Some (k, x)" "h' = AList.delete k h"
    by (auto simp: list_heap_pop_def split: option.splits)
  have "map_of h k = Some x"
    using best_entry_mem [OF k(1)] by (metis AList.distinct_clearjunk map_of_clearjunk map_of_is_SomeI)
  with k show "\<exists>k. map_of (AList.clearjunk h) k = Some x \<and>
      map_of (AList.clearjunk h') = (map_of (AList.clearjunk h))(k := None)"
    by (auto simp: map_of_clearjunk AList.delete_conv')
  assume "total_cmp cmp (snd ` set (AList.clearjunk h))" "y \<in> snd ` set (AList.clearjunk h)"
  then show "cmp y x \<noteq> Greater" using best_entry_max [OF _ k(1)] by auto
qed (auto simp: list_heap_push_def map_of_clearjunk AList.distinct_clearjunk)

end
