(* ===== verification/Dlob_Node.thy ===== *)
theory Dlob_Node
  imports Order_Math Keyed_Heap "HOL-Library.Option_ord" "HOL-Library.Product_Lexorder"
begin

text \<open>
  \<open>src/src/dlob/dlob_node.rs\<close>: the nodes of the order book, their sort value and comparison, and
  the signature that identifies an order. A method that is \<open>unimplemented!()\<close> panics.

  The record \<open>dlob_env\<close> adds the operations of the keyed heap, instantiated with strings and
  directional nodes, to the parameters of the order functions; the locale of the same purpose
  states what the book relies on.
\<close>

section \<open>Data\<close>

datatype node_type = TakingLimit | RestingLimit | FloatingLimit | Market | Trigger | VAMM

datatype sort_direction = Ascending | Descending

record order_node =
  on_order :: order
  on_user_account :: pubkey
  on_node_type :: node_type
  on_have_filled :: bool
  on_have_trigger :: bool

record vamm_node =
  vn_order :: order
  vn_price :: u64

datatype node = OrderNode order_node | VAMMNode vamm_node

record directional_node =
  dn_node :: node
  dn_sort_direction :: sort_direction

record node_to_trigger =
  ntt_node :: node

record node_to_fill =
  ntf_node :: node
  ntf_maker_nodes :: "node list"

definition directional_node_new :: "node \<Rightarrow> sort_direction \<Rightarrow> directional_node" where
  "directional_node_new node sort_direction =
     \<lparr>dn_node = node, dn_sort_direction = sort_direction\<rparr>"

section \<open>The methods of order nodes\<close>

definition order_node_new :: "node_type \<Rightarrow> order \<Rightarrow> pubkey \<Rightarrow> order_node" where
  "order_node_new node_type order user_account =
     \<lparr>on_order = order, on_user_account = user_account, on_node_type = node_type,
      on_have_filled = False, on_have_trigger = False\<rparr>"

definition order_node_get_price :: "order_node \<Rightarrow> oracle_price_data \<Rightarrow> u64 \<Rightarrow> u64 res" where
  "order_node_get_price n oracle_price_data slot =
     get_limit_price (on_order n) oracle_price_data slot None"

definition order_node_is_vamm_node :: "order_node \<Rightarrow> bool" where
  "order_node_is_vamm_node n = False"

definition order_node_is_base_filled :: "order_node \<Rightarrow> bool" where
  "order_node_is_base_filled n \<longleftrightarrow>
     o_base_asset_amount_filled (on_order n) = o_base_asset_amount (on_order n)"

fun order_node_get_sort_value :: "order_node \<Rightarrow> order \<Rightarrow> int option" where
  "order_node_get_sort_value n order =
     (case on_node_type n of
        node_type.TakingLimit \<Rightarrow> Some (uint (o_slot order))
      | node_type.RestingLimit \<Rightarrow> Some (uint (o_price order))
      | node_type.FloatingLimit \<Rightarrow> Some (sint (o_oracle_price_offset order))
      | node_type.Market \<Rightarrow> Some (uint (o_slot order))
      | node_type.Trigger \<Rightarrow> Some (uint (o_trigger_price order))
      | node_type.VAMM \<Rightarrow> None)"

definition order_node_set_have_filled :: "bool \<Rightarrow> order_node \<Rightarrow> order_node" where
  "order_node_set_have_filled b n = n\<lparr>on_have_filled := b\<rparr>"

definition order_node_set_have_trigger :: "bool \<Rightarrow> order_node \<Rightarrow> order_node" where
  "order_node_set_have_trigger b n = n\<lparr>on_have_trigger := b\<rparr>"

definition order_node_set_order :: "order \<Rightarrow> order_node \<Rightarrow> order_node" where
  "order_node_set_order order n = n\<lparr>on_order := order\<rparr>"

definition order_node_set_node_type :: "node_type \<Rightarrow> order_node \<Rightarrow> order_node" where
  "order_node_set_node_type t n = n\<lparr>on_node_type := t\<rparr>"

section \<open>The methods of AMM nodes\<close>

definition vamm_node_new :: "order \<Rightarrow> u64 \<Rightarrow> vamm_node" where
  "vamm_node_new order price = \<lparr>vn_order = order, vn_price = price\<rparr>"

definition vamm_node_get_price :: "vamm_node \<Rightarrow> oracle_price_data \<Rightarrow> u64 \<Rightarrow> u64 res" where
  "vamm_node_get_price n oracle_price_data slot = Inr (vn_price n)"

definition vamm_node_is_base_filled :: "vamm_node \<Rightarrow> bool" where
  "vamm_node_is_base_filled n = False"

definition vamm_node_get_sort_value :: "vamm_node \<Rightarrow> order \<Rightarrow> int option" where
  "vamm_node_get_sort_value n order = None"

definition vamm_node_get_user_account :: "vamm_node \<Rightarrow> pubkey res" where
  "vamm_node_get_user_account n = unimplemented"

definition vamm_node_set_order :: "order \<Rightarrow> vamm_node \<Rightarrow> vamm_node res" where
  "vamm_node_set_order order n = unimplemented"

section \<open>The methods of nodes\<close>

fun node_new :: "node_type \<Rightarrow> order \<Rightarrow> pubkey \<Rightarrow> node" where
  "node_new node_type.TakingLimit order user_account =
     OrderNode (order_node_new node_type.TakingLimit order user_account)"
| "node_new node_type.RestingLimit order user_account =
     OrderNode (order_node_new node_type.RestingLimit order user_account)"
| "node_new node_type.FloatingLimit order user_account =
     OrderNode (order_node_new node_type.FloatingLimit order user_account)"
| "node_new node_type.Market order user_account =
     OrderNode (order_node_new node_type.Market order user_account)"
| "node_new node_type.Trigger order user_account =
     OrderNode (order_node_new node_type.Trigger order user_account)"
| "node_new node_type.VAMM order user_account = VAMMNode (vamm_node_new order 0)"

fun get_price :: "node \<Rightarrow> oracle_price_data \<Rightarrow> u64 \<Rightarrow> u64 res" where
  "get_price (OrderNode n) oracle_price_data slot = order_node_get_price n oracle_price_data slot"
| "get_price (VAMMNode n) oracle_price_data slot = vamm_node_get_price n oracle_price_data slot"

fun is_vamm_node :: "node \<Rightarrow> bool" where
  "is_vamm_node (OrderNode _) = False"
| "is_vamm_node (VAMMNode _) = True"

fun is_base_filled :: "node \<Rightarrow> bool" where
  "is_base_filled (OrderNode n) = order_node_is_base_filled n"
| "is_base_filled (VAMMNode n) = vamm_node_is_base_filled n"

fun get_sort_value :: "node \<Rightarrow> order \<Rightarrow> int option" where
  "get_sort_value (OrderNode n) order = order_node_get_sort_value n order"
| "get_sort_value (VAMMNode n) order = vamm_node_get_sort_value n order"

fun get_order :: "node \<Rightarrow> order" where
  "get_order (OrderNode n) = on_order n"
| "get_order (VAMMNode n) = vn_order n"

fun get_user_account :: "node \<Rightarrow> pubkey res" where
  "get_user_account (OrderNode n) = Inr (on_user_account n)"
| "get_user_account (VAMMNode n) = vamm_node_get_user_account n"

fun set_order :: "order \<Rightarrow> node \<Rightarrow> node res" where
  "set_order order (OrderNode n) = Inr (OrderNode (order_node_set_order order n))"
| "set_order order (VAMMNode n) = bindE (vamm_node_set_order order n) (\<lambda>n. Inr (VAMMNode n))"

fun set_have_filled :: "bool \<Rightarrow> node \<Rightarrow> node res" where
  "set_have_filled b (OrderNode n) = Inr (OrderNode (order_node_set_have_filled b n))"
| "set_have_filled b (VAMMNode _) = unimplemented"

fun set_have_trigger :: "bool \<Rightarrow> node \<Rightarrow> node res" where
  "set_have_trigger b (OrderNode n) = Inr (OrderNode (order_node_set_have_trigger b n))"
| "set_have_trigger b (VAMMNode _) = unimplemented"

fun get_node_type :: "node \<Rightarrow> node_type" where
  "get_node_type (OrderNode n) = on_node_type n"
| "get_node_type (VAMMNode _) = node_type.VAMM"

fun set_node_type :: "node_type \<Rightarrow> node \<Rightarrow> node res" where
  "set_node_type t (OrderNode n) = Inr (OrderNode (order_node_set_node_type t n))"
| "set_node_type t (VAMMNode _) = unimplemented"

definition create_node :: "node_type \<Rightarrow> order \<Rightarrow> pubkey \<Rightarrow> node" where
  "create_node node_type order user_account = node_new node_type order user_account"

section \<open>Comparison\<close>

text \<open>\<open>partial_cmp\<close> of \<open>Option<i128>\<close> is never undefined; \<open>None\<close> is the least value.\<close>

fun option_cmp :: "int option \<Rightarrow> int option \<Rightarrow> ordering" where
  "option_cmp None None = Equal"
| "option_cmp None (Some _) = Less"
| "option_cmp (Some _) None = Greater"
| "option_cmp (Some a) (Some b) = cmp_of a b"

definition node_sort_value :: "node \<Rightarrow> int option" where
  "node_sort_value n = get_sort_value n (get_order n)"

definition dn_cmp :: "directional_node \<Rightarrow> directional_node \<Rightarrow> ordering" where
  "dn_cmp self other =
     (let c = option_cmp (get_sort_value (dn_node self) (get_order (dn_node self)))
                (get_sort_value (dn_node other) (get_order (dn_node other)));
          c = (if c = Equal
               then cmp_of (o_slot (get_order (dn_node self))) (o_slot (get_order (dn_node other)))
               else c) in
      if dn_sort_direction self = Ascending then reverse_ord c else c)"

definition node_eq :: "node \<Rightarrow> node \<Rightarrow> bool" where
  "node_eq self other \<longleftrightarrow>
     get_sort_value self (get_order self) = get_sort_value other (get_order other)"

definition directional_node_eq :: "directional_node \<Rightarrow> directional_node \<Rightarrow> bool" where
  "directional_node_eq self other \<longleftrightarrow> node_eq (dn_node self) (dn_node other)"

section \<open>Signatures\<close>

definition get_order_signature :: "'a order_env_scheme \<Rightarrow> u32 \<Rightarrow> pubkey \<Rightarrow> string" where
  "get_order_signature E order_id user_account =
     dec (unat order_id) @ ''-'' @ env_pubkey_to_string E user_account"

lemma get_order_signature_inj:
  assumes "order_env_ok E"
  shows "get_order_signature E i u = get_order_signature E j v \<longleftrightarrow> i = j \<and> u = v"
proof
  assume eq: "get_order_signature E i u = get_order_signature E j v"
  have split: "takeWhile (\<lambda>c. c \<noteq> CHR ''-'') (dec n @ ''-'' @ s) = dec n \<and>
      dropWhile (\<lambda>c. c \<noteq> CHR ''-'') (dec n @ ''-'' @ s) = ''-'' @ s" for n s
    using dash_not_in_dec [of n] by (subst takeWhile_append2, force, subst dropWhile_append2, force) simp
  have "dec (unat i) = dec (unat j)"
    using split [of "unat i" "env_pubkey_to_string E u"]
      split [of "unat j" "env_pubkey_to_string E v"] eq
    unfolding get_order_signature_def by metis
  moreover have "env_pubkey_to_string E u = env_pubkey_to_string E v"
    using eq calculation by (simp add: get_order_signature_def)
  ultimately show "i = j \<and> u = v"
    using inj_dec assms by (auto simp: order_env_ok_def dest: injD simp: word_unat_eq_iff)
qed simp

section \<open>The order of the nodes\<close>

text \<open>
  The comparison is the lexicographic one on sort value and slot, turned round for an ascending
  queue. On nodes of one direction it is a total preorder, which is what the heap asks for.
\<close>

definition node_key :: "node \<Rightarrow> int option \<times> u64" where
  "node_key n = (node_sort_value n, o_slot (get_order n))"

definition node_before :: "sort_direction \<Rightarrow> node \<Rightarrow> node \<Rightarrow> bool" where
  "node_before d a b \<longleftrightarrow> (if d = Ascending then node_key a \<le> node_key b else node_key b \<le> node_key a)"

lemma option_cmp_cmp_of: "option_cmp a b = cmp_of a b"
  by (cases a; cases b) (auto simp: cmp_of_def)

lemma dn_cmp_key:
  "dn_cmp x y = (if dn_sort_direction x = Ascending
     then reverse_ord (cmp_of (node_key (dn_node x)) (node_key (dn_node y)))
     else cmp_of (node_key (dn_node x)) (node_key (dn_node y)))"
  by (auto simp: dn_cmp_def Let_def option_cmp_cmp_of cmp_of_def node_key_def node_sort_value_def)

lemma reverse_cmp_of: "reverse_ord (cmp_of a b) = cmp_of b a"
  by (auto simp: cmp_of_def)

lemma total_dn_cmp:
  assumes "\<And>x. x \<in> A \<Longrightarrow> dn_sort_direction x = d"
  shows "total_cmp dn_cmp A"
  using assms unfolding total_cmp_def
  by (auto simp: dn_cmp_key reverse_cmp_of not_less intro: order_trans)

lemma dn_cmp_before:
  "dn_sort_direction y = d \<Longrightarrow> dn_cmp y x \<noteq> Greater \<longleftrightarrow> node_before d (dn_node x) (dn_node y)"
  by (auto simp: dn_cmp_key reverse_cmp_of node_before_def not_less)

section \<open>The environment of the order book\<close>

text \<open>
  \<open>map_shard\<close> is the shard of the concurrent map a market index falls into: two references into one
  shard, one of them mutable, can not be held at once, and a thread that asks for the second one
  waits for ever.
\<close>

record 'h dlob_env = order_env +
  h_new :: 'h
  h_push :: "string \<Rightarrow> directional_node \<Rightarrow> 'h \<Rightarrow> 'h"
  h_pop :: "'h \<Rightarrow> (directional_node \<times> 'h) option"
  h_get :: "'h \<Rightarrow> string \<Rightarrow> directional_node option"
  h_put :: "string \<Rightarrow> directional_node \<Rightarrow> 'h \<Rightarrow> 'h"
  h_iter :: "'h \<Rightarrow> (string \<times> directional_node) list"
  h_len :: "'h \<Rightarrow> nat"
  map_shard :: "u16 \<Rightarrow> nat"

locale dlob_env =
  fixes E :: "'h dlob_env"
  assumes env_ok: "order_env_ok E"
    and heap_ok: "keyed_heap dn_cmp (h_new E) (h_push E) (h_pop E) (h_get E) (h_put E) (h_iter E)
      (h_len E)"
begin

sublocale heap: keyed_heap dn_cmp "h_new E" "h_push E" "h_pop E" "h_get E" "h_put E" "h_iter E"
  "h_len E"
  by (rule heap_ok)

lemmas signature_inj [simp] = get_order_signature_inj [OF env_ok]

lemma env_methods [simp]:
  "env_must_be_triggered E order \<longleftrightarrow>
     o_order_type order \<in> {order_type.TriggerMarket, order_type.TriggerLimit}"
  "env_triggered E order \<longleftrightarrow> o_trigger_condition order \<in> {TriggeredAbove, TriggeredBelow}"
  "env_is_limit_order E order \<longleftrightarrow> o_order_type order \<in> {order_type.Limit, order_type.TriggerLimit}"
  using env_ok by (simp_all add: order_env_ok_def)

end

text \<open>The concrete environment of the worked examples.\<close>

type_synonym list_heap = "(string \<times> directional_node) list"

definition list_env :: "list_heap dlob_env" where
  "list_env = \<lparr>
     env_must_be_triggered = env_must_be_triggered doc_env,
     env_triggered = env_triggered doc_env,
     env_is_limit_order = env_is_limit_order doc_env,
     env_pubkey_to_string = env_pubkey_to_string doc_env,
     h_new = [], h_push = list_heap_push, h_pop = list_heap_pop dn_cmp, h_get = map_of,
     h_put = list_heap_push, h_iter = AList.clearjunk,
     h_len = (\<lambda>h. length (AList.clearjunk h)),
     map_shard = (\<lambda>k. unat k mod 4)\<rparr>"

interpretation list_book: dlob_env list_env
proof (rule dlob_env.intro)
  show "order_env_ok list_env"
    using order_env_ok_doc_env by (simp add: order_env_ok_def list_env_def)
  show "keyed_heap dn_cmp (h_new list_env) (h_push list_env) (h_pop list_env) (h_get list_env)
      (h_put list_env) (h_iter list_env) (h_len list_env)"
    using keyed_heap_list [of dn_cmp] by (simp add: list_env_def)
qed

end
