(* ===== verification/Order_List.thy ===== *)
theory Order_List
  imports Dlob_Node
begin

text \<open>
  \<open>src/src/dlob/order_list.rs\<close>: a list of orders of one kind, two keyed heaps and a map from
  signatures to nodes. Inserting a node computes its signature, which panics for an AMM node.
\<close>

datatype sub_type = Bid | Ask | Above | Below

record 'h order_list =
  ol_bids :: 'h
  ol_asks :: 'h
  ol_order_sigs :: "string \<rightharpoonup> node"
  ol_bid_sort_direction :: sort_direction
  ol_ask_sort_direction :: sort_direction

section \<open>Operations\<close>

definition orderlist_new :: "'h dlob_env \<Rightarrow> sort_direction \<Rightarrow> sort_direction \<Rightarrow> 'h order_list" where
  "orderlist_new E bid_sort_direction ask_sort_direction =
     \<lparr>ol_bids = h_new E, ol_asks = h_new E, ol_order_sigs = Map.empty,
      ol_bid_sort_direction = bid_sort_direction, ol_ask_sort_direction = ask_sort_direction\<rparr>"

definition insert_bid :: "'h dlob_env \<Rightarrow> node \<Rightarrow> 'h order_list \<Rightarrow> 'h order_list res" where
  "insert_bid E node ol =
     bindE (get_user_account node) (\<lambda>user_account.
     let order_sig = get_order_signature E (o_order_id (get_order node)) user_account;
         directional = directional_node_new node (ol_bid_sort_direction ol) in
     Inr (ol\<lparr>ol_order_sigs := (ol_order_sigs ol)(order_sig \<mapsto> node),
             ol_bids := h_push E order_sig directional (ol_bids ol)\<rparr>))"

definition insert_ask :: "'h dlob_env \<Rightarrow> node \<Rightarrow> 'h order_list \<Rightarrow> 'h order_list res" where
  "insert_ask E node ol =
     bindE (get_user_account node) (\<lambda>user_account.
     let order_sig = get_order_signature E (o_order_id (get_order node)) user_account;
         directional = directional_node_new node (ol_ask_sort_direction ol) in
     Inr (ol\<lparr>ol_order_sigs := (ol_order_sigs ol)(order_sig \<mapsto> node),
             ol_asks := h_push E order_sig directional (ol_asks ol)\<rparr>))"

text \<open>A popped node whose signature is not known is dropped and \<open>None\<close> returned.\<close>

definition get_best_bid :: "'h dlob_env \<Rightarrow> 'h order_list \<Rightarrow> (node option \<times> 'h order_list) res" where
  "get_best_bid E ol =
     (case h_pop E (ol_bids ol) of
        None \<Rightarrow> Inr (None, ol)
      | Some (directional, bids) \<Rightarrow>
          let node = dn_node directional; ol = ol\<lparr>ol_bids := bids\<rparr> in
          bindE (get_user_account node) (\<lambda>user_account.
          let order_sig = get_order_signature E (o_order_id (get_order node)) user_account in
          if ol_order_sigs ol order_sig \<noteq> None
          then Inr (Some node, ol\<lparr>ol_order_sigs := (ol_order_sigs ol)(order_sig := None)\<rparr>)
          else Inr (None, ol)))"

definition get_best_ask :: "'h dlob_env \<Rightarrow> 'h order_list \<Rightarrow> (node option \<times> 'h order_list) res" where
  "get_best_ask E ol =
     (case h_pop E (ol_asks ol) of
        None \<Rightarrow> Inr (None, ol)
      | Some (directional, asks) \<Rightarrow>
          let node = dn_node directional; ol = ol\<lparr>ol_asks := asks\<rparr> in
          bindE (get_user_account node) (\<lambda>user_account.
          let order_sig = get_order_signature E (o_order_id (get_order node)) user_account in
          if ol_order_sigs ol order_sig \<noteq> None
          then Inr (Some node, ol\<lparr>ol_order_sigs := (ol_order_sigs ol)(order_sig := None)\<rparr>)
          else Inr (None, ol)))"

definition get_node :: "'h order_list \<Rightarrow> string \<Rightarrow> node option" where
  "get_node ol order_sig = ol_order_sigs ol order_sig"

definition bids_empty :: "'h dlob_env \<Rightarrow> 'h order_list \<Rightarrow> bool" where
  "bids_empty E ol \<longleftrightarrow> h_len E (ol_bids ol) = 0"

definition asks_empty :: "'h dlob_env \<Rightarrow> 'h order_list \<Rightarrow> bool" where
  "asks_empty E ol \<longleftrightarrow> h_len E (ol_asks ol) = 0"

definition orderlist_size :: "'h dlob_env \<Rightarrow> 'h order_list \<Rightarrow> nat" where
  "orderlist_size E ol = h_len E (ol_bids ol) + h_len E (ol_asks ol)"

text \<open>
  \<open>update\<close> writes the order into the map and, if the heap of the subtype holds the signature, into
  the heap, whose entry is re-sorted when the mutable reference is dropped.
\<close>

definition orderlist_update ::
  "'h dlob_env \<Rightarrow> order \<Rightarrow> pubkey \<Rightarrow> sub_type \<Rightarrow> 'h order_list \<Rightarrow> 'h order_list res" where
  "orderlist_update E order user_account subtype ol =
     (let order_sig = get_order_signature E (o_order_id order) user_account in
      case ol_order_sigs ol order_sig of
        None \<Rightarrow> Inr ol
      | Some node \<Rightarrow>
          bindE (set_order order node) (\<lambda>node.
          let ol = ol\<lparr>ol_order_sigs := (ol_order_sigs ol)(order_sig \<mapsto> node)\<rparr> in
          case subtype of
            sub_type.Bid \<Rightarrow>
              (case h_get E (ol_bids ol) order_sig of
                 None \<Rightarrow> Inr ol
               | Some dn \<Rightarrow> bindE (set_order order (dn_node dn)) (\<lambda>node.
                   Inr (ol\<lparr>ol_bids := h_put E order_sig (dn\<lparr>dn_node := node\<rparr>) (ol_bids ol)\<rparr>)))
          | sub_type.Ask \<Rightarrow>
              (case h_get E (ol_asks ol) order_sig of
                 None \<Rightarrow> Inr ol
               | Some dn \<Rightarrow> bindE (set_order order (dn_node dn)) (\<lambda>node.
                   Inr (ol\<lparr>ol_asks := h_put E order_sig (dn\<lparr>dn_node := node\<rparr>) (ol_asks ol)\<rparr>)))
          | _ \<Rightarrow> Inl (Panic ''Invalid subtype'')))"

section \<open>The invariant\<close>

text \<open>
  One side: every entry is an order node under its own signature and all entries have the
  direction of the side. The map of signatures holds order nodes under their own signatures. That
  the entries of a side are in the map is a second invariant, \<open>orderlist_closed\<close>: popping drops the
  entries that are not.
\<close>

definition node_sig :: "'a order_env_scheme \<Rightarrow> order_node \<Rightarrow> string" where
  "node_sig E n = get_order_signature E (o_order_id (on_order n)) (on_user_account n)"

definition side_ok :: "'h dlob_env \<Rightarrow> sort_direction \<Rightarrow> 'h \<Rightarrow> bool" where
  "side_ok E d h \<longleftrightarrow> (\<forall>k dn. map_of (h_iter E h) k = Some dn \<longrightarrow>
     dn_sort_direction dn = d \<and> (\<exists>n. dn_node dn = OrderNode n \<and> k = node_sig E n))"

definition orderlist_ok :: "'h dlob_env \<Rightarrow> 'h order_list \<Rightarrow> bool" where
  "orderlist_ok E ol \<longleftrightarrow>
     side_ok E (ol_bid_sort_direction ol) (ol_bids ol) \<and>
     side_ok E (ol_ask_sort_direction ol) (ol_asks ol) \<and>
     (\<forall>k node. ol_order_sigs ol k = Some node \<longrightarrow> (\<exists>n. node = OrderNode n \<and> k = node_sig E n))"

definition orderlist_closed :: "'h dlob_env \<Rightarrow> 'h order_list \<Rightarrow> bool" where
  "orderlist_closed E ol \<longleftrightarrow>
     fst ` set (h_iter E (ol_bids ol)) \<union> fst ` set (h_iter E (ol_asks ol)) \<subseteq> dom (ol_order_sigs ol)"

text \<open>The nodes of a heap and those of them a map of signatures knows.\<close>

definition nodes :: "'h dlob_env \<Rightarrow> 'h \<Rightarrow> node multiset" where
  "nodes E h = image_mset dn_node (image_mset snd (mset (h_iter E h)))"

definition is_known :: "'h dlob_env \<Rightarrow> (string \<rightharpoonup> node) \<Rightarrow> node \<Rightarrow> bool" where
  "is_known E sigs node \<longleftrightarrow> (case node of OrderNode n \<Rightarrow> node_sig E n \<in> dom sigs | VAMMNode _ \<Rightarrow> False)"

definition known_nodes :: "'h dlob_env \<Rightarrow> (string \<rightharpoonup> node) \<Rightarrow> 'h \<Rightarrow> node multiset" where
  "known_nodes E sigs h = filter_mset (is_known E sigs) (nodes E h)"

context dlob_env
begin

lemma nodes_items: "nodes E h = image_mset dn_node (heap.items h)"
  by (simp add: nodes_def heap.items_def)

lemma size_nodes: "size (nodes E h) = h_len E h"
  by (simp add: nodes_items heap.size_items)

lemma nodes_new [simp]: "nodes E (h_new E) = {#}"
  by (simp add: nodes_items heap.items_new)

lemma side_ok_mem:
  assumes "side_ok E d h" and "dn \<in># heap.items h"
  shows "dn_sort_direction dn = d" and "\<exists>n. dn_node dn = OrderNode n \<and>
    map_of (h_iter E h) (node_sig E n) = Some dn"
proof -
  from assms(2) obtain k where "(k, dn) \<in> set (h_iter E h)"
    by (auto simp: heap.set_items)
  then have "map_of (h_iter E h) k = Some dn" by (simp add: heap.iter_mem)
  with assms(1) show "dn_sort_direction dn = d" and "\<exists>n. dn_node dn = OrderNode n \<and>
    map_of (h_iter E h) (node_sig E n) = Some dn"
    unfolding side_ok_def by blast+
qed

lemma side_ok_total: "side_ok E d h \<Longrightarrow> total_cmp dn_cmp (set_mset (heap.items h))"
  using side_ok_mem(1) total_dn_cmp by metis

text \<open>Popping a side: the first of its nodes; its signature is on no other entry.\<close>

lemma side_pop:
  assumes ok: "side_ok E d h" and pop: "h_pop E h = Some (dn, h')"
  shows "\<exists>n. dn_node dn = OrderNode n \<and> side_ok E d h' \<and>
      map_of (h_iter E h') = (map_of (h_iter E h))(node_sig E n := None) \<and>
      nodes E h = add_mset (OrderNode n) (nodes E h') \<and>
      (\<forall>y\<in>#nodes E h'. node_before d (OrderNode n) y)"
proof -
  from heap.pop_Some [OF pop] obtain k where
    k: "map_of (h_iter E h) k = Some dn" "map_of (h_iter E h') = (map_of (h_iter E h))(k := None)"
    by blast
  with ok obtain n where n: "dn_node dn = OrderNode n" "k = node_sig E n"
    unfolding side_ok_def by blast
  have "side_ok E d h'"
    using ok k(2) unfolding side_ok_def by (auto split: if_splits)
  moreover have "nodes E h = add_mset (OrderNode n) (nodes E h')"
    using heap.pop_items [OF pop] n(1) by (simp add: nodes_items)
  moreover have "node_before d (OrderNode n) y" if "y \<in># nodes E h'" for y
  proof -
    from that obtain dn' where dn': "dn' \<in># heap.items h'" "y = dn_node dn'"
      by (auto simp: nodes_items)
    then have mem: "dn' \<in># heap.items h" using heap.pop_items [OF pop] by simp
    with heap.pop_max [OF pop] side_ok_total [OF ok] have "dn_cmp dn' dn \<noteq> Greater"
      by (simp add: heap.set_items)
    with dn_cmp_before side_ok_mem(1) [OF ok mem] n(1) dn'(2) show ?thesis by metis
  qed
  ultimately show ?thesis using n k(2) by blast
qed

text \<open>Removing the signature of the popped node from the map changes nothing for the others.\<close>

lemma known_nodes_remove:
  assumes "side_ok E d h'" and "map_of (h_iter E h') (node_sig E n) = None"
  shows "known_nodes E (sigs(node_sig E n := None)) h' = known_nodes E sigs h'"
proof -
  have "is_known E (sigs(node_sig E n := None)) y = is_known E sigs y" if "y \<in># nodes E h'" for y
  proof -
    from that obtain dn where "dn \<in># heap.items h'" "y = dn_node dn" by (auto simp: nodes_items)
    with side_ok_mem(2) [OF assms(1)] obtain m where "y = OrderNode m"
        "map_of (h_iter E h') (node_sig E m) = Some dn" by metis
    with assms(2) show ?thesis by (auto simp: is_known_def)
  qed
  then show ?thesis by (simp add: known_nodes_def cong: filter_mset_cong)
qed

lemma side_push:
  assumes "side_ok E d h"
  shows "side_ok E d (h_push E (node_sig E n) (directional_node_new (OrderNode n) d) h)"
  using assms by (auto simp: side_ok_def heap.map_push directional_node_new_def)

lemma side_put:
  assumes "side_ok E d h" and "map_of (h_iter E h) (node_sig E n) = Some dn"
    and "o_order_id order = o_order_id (on_order n)"
  shows "\<exists>m. set_order order (dn_node dn) = Inr (OrderNode m) \<and> node_sig E m = node_sig E n \<and>
    side_ok E d (h_put E (node_sig E n) (dn\<lparr>dn_node := OrderNode m\<rparr>) h)"
proof -
  from assms(1,2) obtain m where m: "dn_node dn = OrderNode m" "node_sig E m = node_sig E n"
      "dn_sort_direction dn = d"
    unfolding side_ok_def by metis
  have key: "node_sig E n \<in> fst ` set (h_iter E h)"
    using assms(2) by (metis image_eqI fst_conv map_of_SomeD)
  let ?m = "order_node_set_order order m"
  have sig: "node_sig E ?m = node_sig E n"
    using m(2) assms(3) by (simp add: node_sig_def order_node_set_order_def)
  then have "side_ok E d (h_put E (node_sig E n) (dn\<lparr>dn_node := OrderNode ?m\<rparr>) h)"
    using assms(1) m(3) by (auto simp: side_ok_def heap.map_put [OF key])
  with m(1) sig show ?thesis by auto
qed

lemma nonempty_pop: "h_len E h \<noteq> 0 \<Longrightarrow> \<exists>dn h'. h_pop E h = Some (dn, h')"
  by (metis heap.len_iter heap.pop_None list.size(3) not_None_eq surj_pair)

lemma known_nodes_empty: "h_len E h = 0 \<Longrightarrow> known_nodes E sigs h = {#}"
  using size_nodes [of h] by (simp add: known_nodes_def)

text \<open>One round of the loop that empties a side, for both sides at once.\<close>

lemma side_take:
  assumes "side_ok E d h" and "h_pop E h = Some (dn, h')"
  shows "\<exists>n. dn_node dn = OrderNode n \<and> side_ok E d h' \<and> h_len E h = Suc (h_len E h') \<and>
    (if node_sig E n \<in> dom sigs
     then known_nodes E sigs h =
         add_mset (OrderNode n) (known_nodes E (sigs(node_sig E n := None)) h') \<and>
       (\<forall>y\<in>#known_nodes E (sigs(node_sig E n := None)) h'. node_before d (OrderNode n) y)
     else known_nodes E sigs h' = known_nodes E sigs h)"
proof -
  from side_pop [OF assms] obtain n where n: "dn_node dn = OrderNode n" "side_ok E d h'"
      "map_of (h_iter E h') = (map_of (h_iter E h))(node_sig E n := None)"
      "nodes E h = add_mset (OrderNode n) (nodes E h')"
      "\<forall>y\<in>#nodes E h'. node_before d (OrderNode n) y" by blast
  have "h_len E h = Suc (h_len E h')"
    using n(4) size_nodes [of h] size_nodes [of h'] by simp
  moreover have "known_nodes E (sigs(node_sig E n := None)) h' = known_nodes E sigs h'"
    using n(2,3) by (intro known_nodes_remove) auto
  ultimately show ?thesis
    using n by (auto simp: known_nodes_def is_known_def)
qed

lemma get_best_bid_step:
  assumes "side_ok E d (ol_bids ol)" and "\<not> bids_empty E ol"
  shows "\<exists>x ol'. get_best_bid E ol = Inr (x, ol') \<and> side_ok E d (ol_bids ol') \<and>
    h_len E (ol_bids ol) = Suc (h_len E (ol_bids ol')) \<and>
    (case x of
       None \<Rightarrow> known_nodes E (ol_order_sigs ol') (ol_bids ol') =
         known_nodes E (ol_order_sigs ol) (ol_bids ol)
     | Some a \<Rightarrow> known_nodes E (ol_order_sigs ol) (ol_bids ol) =
           add_mset a (known_nodes E (ol_order_sigs ol') (ol_bids ol')) \<and>
         (\<forall>y\<in>#known_nodes E (ol_order_sigs ol') (ol_bids ol'). node_before d a y))"
proof -
  from assms(2) obtain dn h where pop: "h_pop E (ol_bids ol) = Some (dn, h)"
    using nonempty_pop [of "ol_bids ol"] by (auto simp: bids_empty_def)
  from side_take [OF assms(1) this, of "ol_order_sigs ol"] obtain n where
    "dn_node dn = OrderNode n" "side_ok E d h" "h_len E (ol_bids ol) = Suc (h_len E h)"
    "if node_sig E n \<in> dom (ol_order_sigs ol)
     then known_nodes E (ol_order_sigs ol) (ol_bids ol) =
         add_mset (OrderNode n) (known_nodes E ((ol_order_sigs ol)(node_sig E n := None)) h) \<and>
       (\<forall>y\<in>#known_nodes E ((ol_order_sigs ol)(node_sig E n := None)) h.
         node_before d (OrderNode n) y)
     else known_nodes E (ol_order_sigs ol) h = known_nodes E (ol_order_sigs ol) (ol_bids ol)"
    by blast
  then show ?thesis
    by (cases "node_sig E n \<in> dom (ol_order_sigs ol)")
       (simp_all add: get_best_bid_def pop Let_def node_sig_def domIff)
qed

lemma get_best_ask_step:
  assumes "side_ok E d (ol_asks ol)" and "\<not> asks_empty E ol"
  shows "\<exists>x ol'. get_best_ask E ol = Inr (x, ol') \<and> side_ok E d (ol_asks ol') \<and>
    h_len E (ol_asks ol) = Suc (h_len E (ol_asks ol')) \<and>
    (case x of
       None \<Rightarrow> known_nodes E (ol_order_sigs ol') (ol_asks ol') =
         known_nodes E (ol_order_sigs ol) (ol_asks ol)
     | Some a \<Rightarrow> known_nodes E (ol_order_sigs ol) (ol_asks ol) =
           add_mset a (known_nodes E (ol_order_sigs ol') (ol_asks ol')) \<and>
         (\<forall>y\<in>#known_nodes E (ol_order_sigs ol') (ol_asks ol'). node_before d a y))"
proof -
  from assms(2) obtain dn h where pop: "h_pop E (ol_asks ol) = Some (dn, h)"
    using nonempty_pop [of "ol_asks ol"] by (auto simp: asks_empty_def)
  from side_take [OF assms(1) this, of "ol_order_sigs ol"] obtain n where
    "dn_node dn = OrderNode n" "side_ok E d h" "h_len E (ol_asks ol) = Suc (h_len E h)"
    "if node_sig E n \<in> dom (ol_order_sigs ol)
     then known_nodes E (ol_order_sigs ol) (ol_asks ol) =
         add_mset (OrderNode n) (known_nodes E ((ol_order_sigs ol)(node_sig E n := None)) h) \<and>
       (\<forall>y\<in>#known_nodes E ((ol_order_sigs ol)(node_sig E n := None)) h.
         node_before d (OrderNode n) y)
     else known_nodes E (ol_order_sigs ol) h = known_nodes E (ol_order_sigs ol) (ol_asks ol)"
    by blast
  then show ?thesis
    by (cases "node_sig E n \<in> dom (ol_order_sigs ol)")
       (simp_all add: get_best_ask_def pop Let_def node_sig_def domIff)
qed

sublocale bid_queue: drain_queue "bids_empty E" "get_best_bid E"
  "\<lambda>ol. side_ok E d (ol_bids ol)" "\<lambda>ol. h_len E (ol_bids ol)"
  "\<lambda>ol. known_nodes E (ol_order_sigs ol) (ol_bids ol)" "node_before d" for d
  by unfold_locales
     (simp_all add: bids_empty_def known_nodes_empty get_best_bid_step [unfolded bids_empty_def])

sublocale ask_queue: drain_queue "asks_empty E" "get_best_ask E"
  "\<lambda>ol. side_ok E d (ol_asks ol)" "\<lambda>ol. h_len E (ol_asks ol)"
  "\<lambda>ol. known_nodes E (ol_order_sigs ol) (ol_asks ol)" "node_before d" for d
  by unfold_locales
     (simp_all add: asks_empty_def known_nodes_empty get_best_ask_step [unfolded asks_empty_def])

section \<open>What the operations do and that they keep the invariant\<close>

lemma orderlist_new_ok: "orderlist_ok E (orderlist_new E b a)"
  by (simp add: orderlist_ok_def orderlist_new_def side_ok_def heap.iter_new)

lemma insert_bid_OrderNode:
  "insert_bid E (OrderNode n) ol = Inr (ol
     \<lparr>ol_order_sigs := (ol_order_sigs ol)(node_sig E n \<mapsto> OrderNode n),
      ol_bids := h_push E (node_sig E n)
        (directional_node_new (OrderNode n) (ol_bid_sort_direction ol)) (ol_bids ol)\<rparr>)"
  by (simp add: insert_bid_def Let_def node_sig_def)

lemma insert_ask_OrderNode:
  "insert_ask E (OrderNode n) ol = Inr (ol
     \<lparr>ol_order_sigs := (ol_order_sigs ol)(node_sig E n \<mapsto> OrderNode n),
      ol_asks := h_push E (node_sig E n)
        (directional_node_new (OrderNode n) (ol_ask_sort_direction ol)) (ol_asks ol)\<rparr>)"
  by (simp add: insert_ask_def Let_def node_sig_def)

lemma insert_VAMM:
  "insert_bid E (VAMMNode n) ol = unimplemented"
  "insert_ask E (VAMMNode n) ol = unimplemented"
  by (simp_all add: insert_bid_def insert_ask_def vamm_node_get_user_account_def)

lemma insert_bid_ok:
  assumes "orderlist_ok E ol" and "insert_bid E node ol = Inr ol'"
  shows "orderlist_ok E ol'"
  using assms side_push
  by (cases node) (auto simp: insert_bid_OrderNode insert_VAMM orderlist_ok_def split: if_splits)

lemma insert_ask_ok:
  assumes "orderlist_ok E ol" and "insert_ask E node ol = Inr ol'"
  shows "orderlist_ok E ol'"
  using assms side_push
  by (cases node) (auto simp: insert_ask_OrderNode insert_VAMM orderlist_ok_def split: if_splits)

end

end
