(* ===== verification/Dlob_Market.thy ===== *)
theory Dlob_Market
  imports Order_List
begin

text \<open>
  \<open>src/src/dlob/market.rs\<close>: the five order lists of a market, the classification of an order and
  the two maps of markets.

  A concurrent map from market indices to markets is an association list in its iteration order; no
  property depends on that order. A mutable reference into a market is the value it points to
  together with the function that writes it back.
\<close>

section \<open>Markets\<close>

record 'h market =
  mk_resting_limit_orders :: "'h order_list"
  mk_floating_limit_orders :: "'h order_list"
  mk_taking_limit_orders :: "'h order_list"
  mk_market_orders :: "'h order_list"
  mk_trigger_orders :: "'h order_list"

definition market_new :: "'h dlob_env \<Rightarrow> 'h market" where
  "market_new E = \<lparr>
     mk_resting_limit_orders = orderlist_new E Descending Ascending,
     mk_floating_limit_orders = orderlist_new E Descending Ascending,
     mk_taking_limit_orders = orderlist_new E Ascending Ascending,
     mk_market_orders = orderlist_new E Ascending Ascending,
     mk_trigger_orders = orderlist_new E Ascending Descending\<rparr>"

definition get_order_list_for_node_insert ::
  "node_type \<Rightarrow> 'h market \<Rightarrow> ('h order_list \<times> ('h order_list \<Rightarrow> 'h market)) res" where
  "get_order_list_for_node_insert node_type m =
     (case node_type of
        node_type.RestingLimit \<Rightarrow>
          Inr (mk_resting_limit_orders m, \<lambda>ol. m\<lparr>mk_resting_limit_orders := ol\<rparr>)
      | node_type.FloatingLimit \<Rightarrow>
          Inr (mk_floating_limit_orders m, \<lambda>ol. m\<lparr>mk_floating_limit_orders := ol\<rparr>)
      | node_type.TakingLimit \<Rightarrow>
          Inr (mk_taking_limit_orders m, \<lambda>ol. m\<lparr>mk_taking_limit_orders := ol\<rparr>)
      | node_type.Market \<Rightarrow> Inr (mk_market_orders m, \<lambda>ol. m\<lparr>mk_market_orders := ol\<rparr>)
      | node_type.Trigger \<Rightarrow> Inr (mk_trigger_orders m, \<lambda>ol. m\<lparr>mk_trigger_orders := ol\<rparr>)
      | node_type.VAMM \<Rightarrow> Inl (Panic ''VAMM order list not found''))"

definition get_order_list_for_node_type :: "node_type \<Rightarrow> 'h market \<Rightarrow> 'h order_list res" where
  "get_order_list_for_node_type node_type m =
     (case node_type of
        node_type.RestingLimit \<Rightarrow> Inr (mk_resting_limit_orders m)
      | node_type.FloatingLimit \<Rightarrow> Inr (mk_floating_limit_orders m)
      | node_type.TakingLimit \<Rightarrow> Inr (mk_taking_limit_orders m)
      | node_type.Market \<Rightarrow> Inr (mk_market_orders m)
      | node_type.Trigger \<Rightarrow> Inr (mk_trigger_orders m)
      | node_type.VAMM \<Rightarrow> Inl (Panic ''VAMM order list not found''))"

section \<open>Classification\<close>

definition get_node_subtype_and_type ::
  "'a order_env_scheme \<Rightarrow> order \<Rightarrow> u64 \<Rightarrow> (sub_type \<times> node_type) res" where
  "get_node_subtype_and_type E order slot =
     (let is_inactive_trigger_order =
        env_must_be_triggered E order \<and> \<not> env_triggered E order in
      bindE
        (if is_inactive_trigger_order then Inr node_type.Trigger
         else if is_one_of_variant (o_order_type order)
                [order_type.Market, order_type.TriggerMarket, order_type.Oracle]
         then Inr node_type.Market
         else if o_oracle_price_offset order \<noteq> 0 then Inr node_type.FloatingLimit
         else bindE (is_resting_limit_order E order slot) (\<lambda>resting.
           Inr (if resting then node_type.RestingLimit else node_type.TakingLimit)))
        (\<lambda>node_type.
        Inr (if is_inactive_trigger_order
             then (if o_trigger_condition order = order_trigger_condition.Above
                   then sub_type.Bid else sub_type.Ask)
             else (case o_direction order of Long \<Rightarrow> sub_type.Bid | Short \<Rightarrow> sub_type.Ask),
             node_type)))"

section \<open>The exchange\<close>

type_synonym 'h markets = "(u16 \<times> 'h market) list"

record 'h exchange =
  ex_perp :: "'h markets"
  ex_spot :: "'h markets"

definition exchange_new :: "'h exchange" where
  "exchange_new = \<lparr>ex_perp = [], ex_spot = []\<rparr>"

definition exchange_iter :: "'h exchange \<Rightarrow> 'h markets list" where
  "exchange_iter ex = [ex_perp ex, ex_spot ex]"

definition exchange_clear :: "'h exchange \<Rightarrow> 'h exchange" where
  "exchange_clear ex = \<lparr>ex_perp = [], ex_spot = []\<rparr>"

definition contains_market :: "string \<Rightarrow> u16 \<Rightarrow> 'h exchange \<Rightarrow> bool res" where
  "contains_market market_type market_index ex =
     (if market_type = ''perp'' then Inr (map_of (ex_perp ex) market_index \<noteq> None)
      else if market_type = ''spot'' then Inr (map_of (ex_spot ex) market_index \<noteq> None)
      else Inl (Panic ''Invalid market type''))"

definition insert_market :: "'h dlob_env \<Rightarrow> string \<Rightarrow> u16 \<Rightarrow> 'h exchange \<Rightarrow> 'h exchange res" where
  "insert_market E market_type market_index ex =
     (if market_type = ''perp''
      then Inr (ex\<lparr>ex_perp := AList.update market_index (market_new E) (ex_perp ex)\<rparr>)
      else if market_type = ''spot''
      then Inr (ex\<lparr>ex_spot := AList.update market_index (market_new E) (ex_spot ex)\<rparr>)
      else Inl (Panic ''Invalid market type''))"

definition add_market_indempotent ::
  "'h dlob_env \<Rightarrow> string \<Rightarrow> u16 \<Rightarrow> 'h exchange \<Rightarrow> 'h exchange res" where
  "add_market_indempotent E market_type market_index ex =
     bindE (contains_market market_type market_index ex) (\<lambda>present.
     if \<not> present then insert_market E market_type market_index ex else Inr ex)"

definition get_order_lists :: "'h exchange \<Rightarrow> 'h order_list list" where
  "get_order_lists ex =
     concat (map (\<lambda>(_, m).
       [mk_resting_limit_orders m, mk_floating_limit_orders m, mk_taking_limit_orders m,
        mk_market_orders m, mk_trigger_orders m]) (concat (exchange_iter ex)))"

definition market_size :: "'h dlob_env \<Rightarrow> 'h market \<Rightarrow> nat" where
  "market_size E m =
     orderlist_size E (mk_resting_limit_orders m) + orderlist_size E (mk_floating_limit_orders m) +
     orderlist_size E (mk_taking_limit_orders m) + orderlist_size E (mk_market_orders m) +
     orderlist_size E (mk_trigger_orders m)"

definition perp_size :: "'h dlob_env \<Rightarrow> 'h exchange \<Rightarrow> nat" where
  "perp_size E ex = sum_list (map (\<lambda>(_, m). market_size E m) (ex_perp ex))"

definition spot_size :: "'h dlob_env \<Rightarrow> 'h exchange \<Rightarrow> nat" where
  "spot_size E ex = sum_list (map (\<lambda>(_, m). market_size E m) (ex_spot ex))"

definition exchange_size :: "'h dlob_env \<Rightarrow> 'h exchange \<Rightarrow> nat" where
  "exchange_size E ex =
     sum_list (map (\<lambda>(_, m). market_size E m) (concat (exchange_iter ex)))"

text \<open>The map of one kind of market, as the book selects it, and its write back.\<close>

definition markets_of :: "market_type \<Rightarrow> 'h exchange \<Rightarrow> 'h markets" where
  "markets_of t ex = (case t of market_type.Perp \<Rightarrow> ex_perp ex | market_type.Spot \<Rightarrow> ex_spot ex)"

definition set_markets :: "market_type \<Rightarrow> 'h markets \<Rightarrow> 'h exchange \<Rightarrow> 'h exchange" where
  "set_markets t ms ex =
     (case t of market_type.Perp \<Rightarrow> ex\<lparr>ex_perp := ms\<rparr> | market_type.Spot \<Rightarrow> ex\<lparr>ex_spot := ms\<rparr>)"

lemma markets_of_set [simp]:
  "markets_of t (set_markets t' ms ex) = (if t = t' then ms else markets_of t ex)"
  by (cases t; cases t') (simp_all add: markets_of_def set_markets_def)

section \<open>The invariant of a market\<close>

text \<open>Each list is well formed and has the directions of its kind.\<close>

definition list_directions :: "node_type \<Rightarrow> sort_direction \<times> sort_direction" where
  "list_directions t = (case t of
     node_type.RestingLimit \<Rightarrow> (Descending, Ascending)
   | node_type.FloatingLimit \<Rightarrow> (Descending, Ascending)
   | node_type.Trigger \<Rightarrow> (Ascending, Descending)
   | _ \<Rightarrow> (Ascending, Ascending))"

definition market_ok :: "'h dlob_env \<Rightarrow> 'h market \<Rightarrow> bool" where
  "market_ok E m \<longleftrightarrow> (\<forall>t ol. get_order_list_for_node_type t m = Inr ol \<longrightarrow>
     orderlist_ok E ol \<and> (ol_bid_sort_direction ol, ol_ask_sort_direction ol) = list_directions t)"

definition exchange_ok :: "'h dlob_env \<Rightarrow> 'h exchange \<Rightarrow> bool" where
  "exchange_ok E ex \<longleftrightarrow>
     (\<forall>t. distinct (map fst (markets_of t ex)) \<and> (\<forall>m\<in>snd ` set (markets_of t ex). market_ok E m))"

lemma get_order_list_Inr:
  "get_order_list_for_node_type t m = Inr ol \<longleftrightarrow>
     (\<exists>put. get_order_list_for_node_insert t m = Inr (ol, put))"
  by (cases t) (auto simp: get_order_list_for_node_type_def get_order_list_for_node_insert_def)

text \<open>Writing a list back replaces that list and no other.\<close>

lemma put_order_list:
  assumes "get_order_list_for_node_insert t m = Inr (ol, put)"
  shows "get_order_list_for_node_type t' (put ol') =
    (if t' = t then Inr ol' else get_order_list_for_node_type t' m)"
  using assms
  by (cases t; cases t')
     (auto simp: get_order_list_for_node_type_def get_order_list_for_node_insert_def)

lemma market_ok_put:
  assumes "market_ok E m" and "get_order_list_for_node_insert t m = Inr (ol, put)"
    and "orderlist_ok E ol'"
    and "ol_bid_sort_direction ol' = ol_bid_sort_direction ol"
    and "ol_ask_sort_direction ol' = ol_ask_sort_direction ol"
  shows "market_ok E (put ol')"
  using assms unfolding market_ok_def
  by (auto simp: put_order_list [OF assms(2)] get_order_list_Inr split: if_splits)


end
