(* ===== verification/Program_Types.thy ===== *)
theory Program_Types
  imports Sdk_Types
begin

text \<open>
  Accounts of the drift program as far as this crate reads them, and what \<open>src/src/types.rs\<close> adds to
  them: market precision and referrer info. The fields of a perp market's \<open>amm\<close> have the prefix
  \<open>pm_amm_\<close>. A market's name is its bytes read as characters.
\<close>

datatype oracle_source = Pyth | Switchboard | QuoteAsset | Pyth1K | Pyth1M | PythStableCoin | Prelaunch

record perp_market =
  pm_pubkey :: pubkey
  pm_market_index :: u16
  pm_name :: string
  pm_fee_adjustment :: "16 word"
  pm_amm_oracle :: pubkey
  pm_amm_oracle_source :: oracle_source
  pm_amm_order_step_size :: u64
  pm_amm_order_tick_size :: u64
  pm_amm_min_order_size :: u64

record spot_market =
  sm_pubkey :: pubkey
  sm_market_index :: u16
  sm_name :: string
  sm_oracle :: pubkey
  sm_oracle_source :: oracle_source
  sm_vault :: pubkey
  sm_decimals :: u32
  sm_order_step_size :: u64
  sm_order_tick_size :: u64
  sm_min_order_size :: u64

record spot_position =
  sp_market_index :: u16
  sp_scaled_balance :: u64
  sp_open_orders :: u8

record perp_position =
  pp_market_index :: u16
  pp_base_asset_amount :: i64
  pp_quote_entry_amount :: i64
  pp_open_orders :: u8

record user =
  u_authority :: pubkey
  u_delegate :: pubkey
  u_orders :: "order list"
  u_spot_positions :: "spot_position list"
  u_perp_positions :: "perp_position list"

definition sample_perp_market :: "u16 \<Rightarrow> perp_market" where
  "sample_perp_market i = \<lparr>pm_pubkey = 200 + ucast i, pm_market_index = i, pm_name = ''SOL-PERP'',
     pm_fee_adjustment = 0, pm_amm_oracle = 300, pm_amm_oracle_source = Pyth, pm_amm_order_step_size = 1,
     pm_amm_order_tick_size = 1, pm_amm_min_order_size = 1\<rparr>"

definition sample_spot_market :: "u16 \<Rightarrow> spot_market" where
  "sample_spot_market i = \<lparr>sm_pubkey = 100 + ucast i, sm_market_index = i, sm_name = ''SOL'',
     sm_oracle = 300 + ucast i, sm_oracle_source = Pyth, sm_vault = 400, sm_decimals = 9, sm_order_step_size = 1,
     sm_order_tick_size = 1, sm_min_order_size = 1\<rparr>"

definition sample_user :: user where
  "sample_user = \<lparr>u_authority = 1, u_delegate = 2, u_orders = [], u_spot_positions = [],
     u_perp_positions = []\<rparr>"

record user_stats =
  us_referrer :: pubkey

text \<open>
  The methods of positions and the derivation of program addresses belong to other crates. The
  derivation takes the list of seeds and the program; \<open>pubkey_of\<close> is the macro \<open>pubkey!\<close> that
  decodes a base58 literal.
\<close>

record chain_env =
  spot_position_is_available :: "spot_position \<Rightarrow> bool"
  perp_position_is_available :: "perp_position \<Rightarrow> bool"
  perp_position_is_open_position :: "perp_position \<Rightarrow> bool"
  find_program_address :: "u8 list list \<Rightarrow> pubkey \<Rightarrow> pubkey"
  pubkey_of :: "string \<Rightarrow> pubkey"
  drift_ID :: pubkey

text \<open>A small instance for the worked examples: positions with an amount are not available.\<close>

definition sample_chain :: chain_env where
  "sample_chain = \<lparr>spot_position_is_available = (\<lambda>p. sp_scaled_balance p = 0 \<and> sp_open_orders p = 0),
     perp_position_is_available = (\<lambda>p. pp_base_asset_amount p = 0 \<and> pp_open_orders p = 0),
     perp_position_is_open_position = (\<lambda>p. pp_base_asset_amount p \<noteq> 0),
     find_program_address = (\<lambda>seeds program. word_rcat (concat seeds) + program),
     pubkey_of = (\<lambda>s. of_nat (length s)), drift_ID = 1000\<rparr>"

section \<open>Market precision\<close>

record market_precision =
  mp_price_tick :: u64
  mp_quantity_tick :: u64
  mp_min_order_size :: u64

definition spot_precision :: "spot_market \<Rightarrow> market_precision" where
  "spot_precision m = \<lparr>mp_price_tick = sm_order_tick_size m, mp_quantity_tick = sm_order_step_size m,
     mp_min_order_size = sm_min_order_size m\<rparr>"

definition perp_precision :: "perp_market \<Rightarrow> market_precision" where
  "perp_precision m = \<lparr>mp_price_tick = pm_amm_order_tick_size m,
     mp_quantity_tick = pm_amm_order_step_size m, mp_min_order_size = pm_amm_min_order_size m\<rparr>"

section \<open>Remaining accounts\<close>

record account_meta =
  am_pubkey :: pubkey
  am_is_signer :: bool
  am_is_writable :: bool

datatype remaining_account =
    Oracle (ra_key: pubkey)
  | Spot (ra_key: pubkey) (ra_writable: bool)
  | Perp (ra_key: pubkey) (ra_writable: bool)

definition remaining_pubkey :: "remaining_account \<Rightarrow> pubkey" where
  "remaining_pubkey a = (case a of
     remaining_account.Oracle pubkey \<Rightarrow> pubkey
   | remaining_account.Spot pubkey _ \<Rightarrow> pubkey
   | remaining_account.Perp pubkey _ \<Rightarrow> pubkey)"

definition remaining_parts :: "remaining_account \<Rightarrow> pubkey \<times> bool" where
  "remaining_parts a = (case a of
     remaining_account.Oracle pubkey \<Rightarrow> (pubkey, False)
   | remaining_account.Spot pubkey writable \<Rightarrow> (pubkey, writable)
   | remaining_account.Perp pubkey writable \<Rightarrow> (pubkey, writable))"

definition discriminant :: "remaining_account \<Rightarrow> u8" where
  "discriminant a = (case a of
     remaining_account.Oracle _ \<Rightarrow> 0 | remaining_account.Spot _ _ \<Rightarrow> 1 | remaining_account.Perp _ _ \<Rightarrow> 2)"

definition remaining_cmp :: "remaining_account \<Rightarrow> remaining_account \<Rightarrow> ordering" where
  "remaining_cmp a b =
     (let type_order = cmp_of (discriminant a) (discriminant b) in
      if type_order = Equal then cmp_of (remaining_pubkey a) (remaining_pubkey b) else type_order)"

definition to_account_meta :: "remaining_account \<Rightarrow> account_meta" where
  "to_account_meta a = (let (pubkey, is_writable) = remaining_parts a in
     \<lparr>am_pubkey = pubkey, am_is_signer = False, am_is_writable = is_writable\<rparr>)"

text \<open>The comparison is the lexicographic order of kind and key.\<close>

definition remaining_key :: "remaining_account \<Rightarrow> u8 \<times> pubkey" where
  "remaining_key a = (discriminant a, remaining_pubkey a)"

definition key_less :: "u8 \<times> pubkey \<Rightarrow> u8 \<times> pubkey \<Rightarrow> bool" where
  "key_less x y \<longleftrightarrow> fst x < fst y \<or> fst x = fst y \<and> snd x < snd y"

lemma remaining_cmp_iff:
  "remaining_cmp a b = Less \<longleftrightarrow> key_less (remaining_key a) (remaining_key b)"
  "remaining_cmp a b = Equal \<longleftrightarrow> remaining_key a = remaining_key b"
  "remaining_cmp a b = Greater \<longleftrightarrow> key_less (remaining_key b) (remaining_key a)"
  by (auto simp: remaining_cmp_def remaining_key_def key_less_def Let_def)

lemma key_less_trans: "key_less x y \<Longrightarrow> key_less y z \<Longrightarrow> key_less x z"
  by (auto simp: key_less_def)

lemma key_less_irrefl [simp]: "\<not> key_less x x"
  by (simp add: key_less_def)

section \<open>Referrers\<close>

record referrer_info =
  ri_referrer :: pubkey
  ri_referrer_stats :: pubkey

end
