(* ===== verification/Market_Operations.thy ===== *)
theory Market_Operations
  imports Program_Types
begin

text \<open>
  \<open>src/src/market_operations.rs\<close>: what the order book asks a perp or a spot market. The markets, the
  program's state and their own methods belong to the program crate: the records hold the fields
  this file reads, the methods and the constants of the exchange status are fields of
  \<open>market_env\<close>. A trait object is the record \<open>market_ops\<close> of its methods.
\<close>

record fee_tier =
  ft_maker_rebate_numerator :: u32
  ft_maker_rebate_denominator :: u32

record program_state =
  st_exchange_status :: u8
  st_min_perp_auction_duration :: u8
  st_perp_fee_tier_0 :: fee_tier
  st_spot_fee_tier_0 :: fee_tier

datatype perp_operation = AmmFill | Fill

datatype spot_operation = SpotFill

record market_env =
  es_active :: u8
  es_amm_paused :: u8
  es_fill_paused :: u8
  perp_is_operation_paused :: "perp_market \<Rightarrow> perp_operation \<Rightarrow> bool"
  perp_has_too_much_drawdown :: "perp_market \<Rightarrow> bool option"
  spot_is_operation_paused :: "spot_market \<Rightarrow> spot_operation \<Rightarrow> bool"

record market_ops =
  mo_market_type :: market_type
  mo_market_index :: u16
  mo_calculate_maker_rebate :: "program_state \<Rightarrow> (u64 \<times> u64) res"
  mo_is_amm_paused :: "program_state \<Rightarrow> bool res"
  mo_is_fill_paused :: "program_state \<Rightarrow> bool"

section \<open>Perp markets\<close>

definition perp_calculate_maker_rebate :: "perp_market \<Rightarrow> program_state \<Rightarrow> (u64 \<times> u64) res" where
  "perp_calculate_maker_rebate m state =
     (let numerator = uint (ft_maker_rebate_numerator (st_perp_fee_tier_0 state));
          denominator = uint (ft_maker_rebate_denominator (st_perp_fee_tier_0 state));
          fee_adjustment = sint (pm_fee_adjustment m) in
      bindE
        (if fee_adjustment \<noteq> 0 then
           bindE (chk_i 64 (numerator * fee_adjustment)) (\<lambda>p.
           bindE (div_i 64 p 100) (\<lambda>q. chk_i 64 (numerator + q)))
         else Inr numerator)
        (\<lambda>numerator. Inr (word_of_int numerator, word_of_int denominator)))"

definition perp_is_amm_paused :: "market_env \<Rightarrow> perp_market \<Rightarrow> program_state \<Rightarrow> bool res" where
  "perp_is_amm_paused M m state =
     (if and (st_exchange_status state) (es_amm_paused M) = es_amm_paused M then Inr True
      else let is_op_paused = perp_is_operation_paused M m AmmFill in
      bindE (of_opt (Panic ''ok'') (perp_has_too_much_drawdown M m)) (\<lambda>is_drawdown_pause.
      Inr (is_op_paused \<or> is_drawdown_pause)))"

definition perp_is_fill_paused :: "market_env \<Rightarrow> perp_market \<Rightarrow> program_state \<Rightarrow> bool" where
  "perp_is_fill_paused M m state =
     (if and (st_exchange_status state) (es_fill_paused M) = es_fill_paused M then True
      else perp_is_operation_paused M m Fill)"

definition perp_market_ops :: "market_env \<Rightarrow> perp_market \<Rightarrow> market_ops" where
  "perp_market_ops M m = \<lparr>mo_market_type = market_type.Perp, mo_market_index = pm_market_index m,
     mo_calculate_maker_rebate = perp_calculate_maker_rebate m,
     mo_is_amm_paused = perp_is_amm_paused M m, mo_is_fill_paused = perp_is_fill_paused M m\<rparr>"

section \<open>Spot markets\<close>

definition spot_calculate_maker_rebate :: "spot_market \<Rightarrow> program_state \<Rightarrow> (u64 \<times> u64) res" where
  "spot_calculate_maker_rebate m state =
     Inr (ucast (ft_maker_rebate_numerator (st_spot_fee_tier_0 state)),
          ucast (ft_maker_rebate_denominator (st_spot_fee_tier_0 state)))"

definition spot_is_amm_paused :: "market_env \<Rightarrow> spot_market \<Rightarrow> program_state \<Rightarrow> bool res" where
  "spot_is_amm_paused M m state =
     Inr (and (st_exchange_status state) (es_amm_paused M) = es_amm_paused M)"

definition spot_is_fill_paused :: "market_env \<Rightarrow> spot_market \<Rightarrow> program_state \<Rightarrow> bool" where
  "spot_is_fill_paused M m state =
     (if and (st_exchange_status state) (es_fill_paused M) = es_fill_paused M then True
      else spot_is_operation_paused M m SpotFill)"

definition spot_market_ops :: "market_env \<Rightarrow> spot_market \<Rightarrow> market_ops" where
  "spot_market_ops M m = \<lparr>mo_market_type = market_type.Spot, mo_market_index = sm_market_index m,
     mo_calculate_maker_rebate = spot_calculate_maker_rebate m,
     mo_is_amm_paused = spot_is_amm_paused M m, mo_is_fill_paused = spot_is_fill_paused M m\<rparr>"

section \<open>What every market guarantees\<close>

text \<open>
  The contract of the trait: a paused exchange pauses the market, and the maker rebate is a value
  whose denominator is that of the fee tier.
\<close>

locale market_operations =
  fixes ops :: "'m \<Rightarrow> market_ops" and M :: market_env and tier :: "program_state \<Rightarrow> fee_tier"
  assumes fill_paused: "and (st_exchange_status state) (es_fill_paused M) = es_fill_paused M \<Longrightarrow>
      mo_is_fill_paused (ops m) state"
    and amm_paused: "and (st_exchange_status state) (es_amm_paused M) = es_amm_paused M \<Longrightarrow>
      mo_is_amm_paused (ops m) state = Inr True"
    and rebate: "\<exists>num den. mo_calculate_maker_rebate (ops m) state = Inr (num, den) \<and>
      uint den = uint (ft_maker_rebate_denominator (tier state))"
begin

lemma all_paused:
  assumes "st_exchange_status state = - 1"
  shows "mo_is_fill_paused (ops m) state" and "mo_is_amm_paused (ops m) state = Inr True"
  using assms by (simp_all add: fill_paused amm_paused)

end

lemma rebate_fits:
  "fits_i 64 (uint (n :: u32) * sint (a :: 16 word))"
  "fits_i 64 (uint n * sint a sdiv 100)"
  "fits_i 64 (uint n + uint n * sint a sdiv 100)"
proof -
  have n: "0 \<le> uint n" "uint n < 2 ^ 32" using uint_bounded [of n] by simp_all
  have a: "- (2 ^ 15) \<le> sint a" "sint a < 2 ^ 15" using sint_ge [of a] sint_lt [of a] by simp_all
  have p: "\<bar>uint n * sint a\<bar> \<le> 2 ^ 32 * 2 ^ 15"
    unfolding abs_mult using n a by (intro mult_mono) auto
  moreover have "\<bar>x sdiv 100\<bar> \<le> \<bar>x\<bar>" for x :: int
    by (auto simp: signed_divide_int_def abs_mult abs_sgn_eq)
  from this [of "uint n * sint a"] p have "\<bar>uint n * sint a sdiv 100\<bar> \<le> 2 ^ 32 * 2 ^ 15" by linarith
  ultimately show "fits_i 64 (uint n * sint a)" "fits_i 64 (uint n * sint a sdiv 100)"
    "fits_i 64 (uint n + uint n * sint a sdiv 100)"
    using n unfolding fits_i_def by (simp_all add: abs_le_iff, linarith+)
qed

lemma perp_rebate_eq:
  "perp_calculate_maker_rebate m state =
     Inr (word_of_int (uint (ft_maker_rebate_numerator (st_perp_fee_tier_0 state)) +
            uint (ft_maker_rebate_numerator (st_perp_fee_tier_0 state)) *
            sint (pm_fee_adjustment m) sdiv 100),
          word_of_int (uint (ft_maker_rebate_denominator (st_perp_fee_tier_0 state))))"
  by (cases "sint (pm_fee_adjustment m) = 0")
     (simp_all add: perp_calculate_maker_rebate_def Let_def rebate_fits)

lemma uint_widen: "uint (ucast (n :: u32) :: u64) = uint n"
  by (simp add: uint_up_ucast is_up)

interpretation perp_ops: market_operations "perp_market_ops M" M st_perp_fee_tier_0
  by unfold_locales
     (simp_all add: perp_market_ops_def perp_is_fill_paused_def perp_is_amm_paused_def perp_rebate_eq
       uint_widen del: of_int_add of_int_mult)

interpretation spot_ops: market_operations "spot_market_ops M" M st_spot_fee_tier_0
  by unfold_locales
     (simp_all add: spot_market_ops_def spot_is_fill_paused_def spot_is_amm_paused_def
       spot_calculate_maker_rebate_def uint_up_ucast is_up)

text \<open>
  The maker rebate of a perp market never panics, whatever the fee tier and the adjustment; for an
  adjustment of at least -100 percent the numerator is the tier's numerator adjusted by that
  percentage, rounded towards the unadjusted value, and it is not negative.
\<close>

theorem perp_maker_rebate:
  assumes "- 100 \<le> sint (pm_fee_adjustment m)"
  shows "\<exists>num den. perp_calculate_maker_rebate m state = Inr (num, den) \<and>
    uint den = uint (ft_maker_rebate_denominator (st_perp_fee_tier_0 state)) \<and>
    uint num = uint (ft_maker_rebate_numerator (st_perp_fee_tier_0 state)) +
      (uint (ft_maker_rebate_numerator (st_perp_fee_tier_0 state)) * sint (pm_fee_adjustment m)) sdiv 100"
proof -
  let ?n = "uint (ft_maker_rebate_numerator (st_perp_fee_tier_0 state))"
  let ?a = "sint (pm_fee_adjustment m)"
  have "?n * (- 100) \<le> ?n * ?a" using assms by (intro mult_left_mono) simp_all
  then have "- ?n \<le> (?n * ?a) sdiv 100"
    by (cases "?n * ?a" "0 :: int" rule: linorder_cases)
       (auto simp: signed_divide_int_def sgn_if)
  moreover have "?n + (?n * ?a) sdiv 100 < 2 ^ 64"
    using rebate_fits(3) [of "ft_maker_rebate_numerator (st_perp_fee_tier_0 state)" "pm_fee_adjustment m"]
    by (simp add: fits_i_def)
  ultimately show ?thesis
    unfolding perp_rebate_eq by (simp add: uint_widen uint_word_of_int del: of_int_add of_int_mult)
qed

theorem perp_maker_rebate_witness:
  "\<exists>num den. perp_calculate_maker_rebate ((sample_perp_market 1)\<lparr>pm_fee_adjustment := - 50\<rparr>)
     \<lparr>st_exchange_status = 0, st_min_perp_auction_duration = 10,
      st_perp_fee_tier_0 = \<lparr>ft_maker_rebate_numerator = 21, ft_maker_rebate_denominator = 1000\<rparr>,
      st_spot_fee_tier_0 = \<lparr>ft_maker_rebate_numerator = 0, ft_maker_rebate_denominator = 1\<rparr>\<rparr> =
     Inr (num, den) \<and> uint den = 1000 \<and> uint num = 11"
  using perp_maker_rebate [of "(sample_perp_market 1)\<lparr>pm_fee_adjustment := - 50\<rparr>"
      "\<lparr>st_exchange_status = 0, st_min_perp_auction_duration = 10,
      st_perp_fee_tier_0 = \<lparr>ft_maker_rebate_numerator = 21, ft_maker_rebate_denominator = 1000\<rparr>,
      st_spot_fee_tier_0 = \<lparr>ft_maker_rebate_numerator = 0, ft_maker_rebate_denominator = 1\<rparr>\<rparr>"]
  by (simp add: signed_divide_int_def)

end
