(* ===== verification/Dlob_Core.thy ===== *)
theory Dlob_Core
  imports Dlob_Market Market_Operations
begin

text \<open>
  \<open>src/src/dlob/dlob.rs\<close>, the book itself: building, inserting, looking up, moving orders to the
  resting lists and listing them. A method with \<open>&self\<close> that changes the shared maps returns the
  changed book. Building, its placement and round-trip properties are in this theory, the search
  for orders to fill in \<open>Dlob_Fill\<close>.
\<close>

section \<open>State\<close>

text \<open>
  The open orders are a map from the two market types to sets of signatures. A value of this record is one book:
  the code's clones share the newest slot of the resting orders with the book they come from, and here a clone has its own.
\<close>

record 'h dlob =
  dl_exchange :: "'h exchange"
  dl_open_orders :: "string \<rightharpoonup> string set"
  dl_initialized :: bool
  dl_max_slot_for_resting_limit_orders :: u64

definition dlob_new :: "'h dlob" where
  "dlob_new = \<lparr>dl_exchange = exchange_new,
     dl_open_orders = [''perp'' \<mapsto> {}, ''spot'' \<mapsto> {}],
     dl_initialized = True, dl_max_slot_for_resting_limit_orders = 0\<rparr>"

definition dlob_clear :: "'h dlob \<Rightarrow> 'h dlob" where
  "dlob_clear D = \<lparr>dl_exchange = exchange_clear (dl_exchange D), dl_open_orders = Map.empty,
     dl_initialized = False, dl_max_slot_for_resting_limit_orders = 0\<rparr>"

definition dlob_size :: "'h dlob_env \<Rightarrow> 'h dlob \<Rightarrow> nat \<times> nat" where
  "dlob_size E D = (perp_size E (dl_exchange D), spot_size E (dl_exchange D))"

definition market_type_to_string :: "market_type \<Rightarrow> string" where
  "market_type_to_string t = (case t of market_type.Perp \<Rightarrow> ''perp'' | market_type.Spot \<Rightarrow> ''spot'')"

section \<open>Inserting and looking up\<close>

text \<open>
  The mutable reference into the market is written back when the function ends. The two subtypes
  other than bid and ask are ignored.
\<close>

definition insert_order :: "'h dlob_env \<Rightarrow> order \<Rightarrow> pubkey \<Rightarrow> u64 \<Rightarrow> 'h dlob \<Rightarrow> 'h dlob res" where
  "insert_order E order user_account slot D =
     (let market_type = market_type_to_string (o_market_type order);
          market_index = o_market_index order in
      bindE (get_node_subtype_and_type E order slot) (\<lambda>(subtype, node_type).
      let node = create_node node_type order user_account in
      bindE (add_market_indempotent E market_type market_index (dl_exchange D)) (\<lambda>ex.
      let markets = markets_of (o_market_type order) ex in
      bindE (of_opt (Panic ''market'') (map_of markets market_index)) (\<lambda>market.
      bindE (get_order_list_for_node_insert node_type market) (\<lambda>(order_list, put).
      bindE (case subtype of
               sub_type.Bid \<Rightarrow> insert_bid E node order_list
             | sub_type.Ask \<Rightarrow> insert_ask E node order_list
             | _ \<Rightarrow> Inr order_list) (\<lambda>order_list.
      Inr (D\<lparr>dl_exchange := set_markets (o_market_type order)
             (AList.update market_index (put order_list) markets) ex\<rparr>)))))))"

fun find_map :: "('a \<Rightarrow> 'b option) \<Rightarrow> 'a list \<Rightarrow> 'b option" where
  "find_map f [] = None"
| "find_map f (x # xs) = (case f x of None \<Rightarrow> find_map f xs | Some y \<Rightarrow> Some y)"

definition dlob_get_order :: "'h dlob_env \<Rightarrow> u32 \<Rightarrow> pubkey \<Rightarrow> 'h dlob \<Rightarrow> order option" where
  "dlob_get_order E order_id user_account D =
     (let order_signature = get_order_signature E order_id user_account in
      find_map (\<lambda>order_list. map_option get_order (get_node order_list order_signature))
        (get_order_lists (dl_exchange D)))"

text \<open>
  The users of a user map with their orders, in the iteration order of the map; \<open>from_str\<close> parses a
  key, which panics if it is not one.
\<close>

definition build_from_usermap ::
  "'h dlob_env \<Rightarrow> (string \<Rightarrow> pubkey option) \<Rightarrow> (string \<times> user) list \<Rightarrow> u64 \<Rightarrow>
   'h dlob \<Rightarrow> 'h dlob res" where
  "build_from_usermap E from_str usermap slot D =
     bindE (foldE (\<lambda>D (user_key, user).
        bindE (of_opt (Panic ''Valid pubkey'') (from_str user_key)) (\<lambda>user_pubkey.
        foldE (\<lambda>D order.
          if o_status order = order_status.Init then Inr D
          else insert_order E order user_pubkey slot D) D (u_orders user)))
       (dlob_clear D) usermap) (\<lambda>D.
     Inr (D\<lparr>dl_initialized := True\<rparr>))"

section \<open>Moving taking orders to the resting lists\<close>

definition taking_bid_step :: "'h dlob_env \<Rightarrow> u64 \<Rightarrow> 'h order_list \<times> 'h \<Rightarrow>
    string \<times> directional_node \<Rightarrow> ('h order_list \<times> 'h) res" where
  "taking_bid_step E slot = (\<lambda>(resting, new_taking_bids) (order_sig, directional_node).
     bindE (is_resting_limit_order E (get_order (dn_node directional_node)) slot) (\<lambda>is_resting.
     if is_resting
     then bindE (insert_bid E (dn_node directional_node) resting) (\<lambda>resting.
       Inr (resting, new_taking_bids))
     else Inr (resting, h_push E order_sig directional_node new_taking_bids)))"

definition taking_ask_step :: "'h dlob_env \<Rightarrow> u64 \<Rightarrow> 'h order_list \<times> 'h \<Rightarrow>
    string \<times> directional_node \<Rightarrow> ('h order_list \<times> 'h) res" where
  "taking_ask_step E slot = (\<lambda>(resting, new_taking_asks) (order_sig, directional_node).
     bindE (is_resting_limit_order E (get_order (dn_node directional_node)) slot) (\<lambda>is_resting.
     if is_resting
     then bindE (insert_ask E (dn_node directional_node) resting) (\<lambda>resting.
       Inr (resting, new_taking_asks))
     else Inr (resting, h_push E order_sig directional_node new_taking_asks)))"

text \<open>
  One market of the loop. The two heaps of the orders that keep taking are created before the loop
  and carried from market to market.
\<close>

definition update_market_step :: "'h dlob_env \<Rightarrow> u64 \<Rightarrow> 'h markets \<times> 'h \<times> 'h \<Rightarrow>
    u16 \<times> 'h market \<Rightarrow> ('h markets \<times> 'h \<times> 'h) res" where
  "update_market_step E slot =
     (\<lambda>(markets, new_taking_asks, new_taking_bids) (market_index, market).
     bindE (foldE (taking_bid_step E slot) (mk_resting_limit_orders market, new_taking_bids)
       (h_iter E (ol_bids (mk_taking_limit_orders market)))) (\<lambda>(resting, new_taking_bids).
     bindE (foldE (taking_ask_step E slot) (resting, new_taking_asks)
       (h_iter E (ol_asks (mk_taking_limit_orders market)))) (\<lambda>(resting, new_taking_asks).
     let market_clone = market\<lparr>mk_resting_limit_orders := resting,
           mk_taking_limit_orders := (mk_taking_limit_orders market)
             \<lparr>ol_bids := new_taking_bids, ol_asks := new_taking_asks\<rparr>\<rparr> in
     Inr (AList.update market_index market_clone markets, new_taking_asks, new_taking_bids))))"

definition update_resting_limit_orders_for_market_type ::
  "'h dlob_env \<Rightarrow> u64 \<Rightarrow> market_type \<Rightarrow> 'h dlob \<Rightarrow> 'h dlob res" where
  "update_resting_limit_orders_for_market_type E slot market_type D =
     (let markets = markets_of market_type (dl_exchange D) in
      bindE (foldE (update_market_step E slot) (markets, h_new E, h_new E) markets)
        (\<lambda>(markets, _, _).
      Inr (D\<lparr>dl_exchange := set_markets market_type markets (dl_exchange D)\<rparr>)))"

definition update_resting_limit_orders :: "'h dlob_env \<Rightarrow> u64 \<Rightarrow> 'h dlob \<Rightarrow> 'h dlob res" where
  "update_resting_limit_orders E slot D =
     (if slot \<le> dl_max_slot_for_resting_limit_orders D then Inr D
      else
        let D = D\<lparr>dl_max_slot_for_resting_limit_orders := slot\<rparr> in
        bindE (update_resting_limit_orders_for_market_type E slot market_type.Perp D) (\<lambda>D.
        update_resting_limit_orders_for_market_type E slot market_type.Spot D))"

section \<open>Listing orders\<close>

text \<open>Each round pops one entry, so the number of entries is fuel enough.\<close>

definition get_best_orders ::
  "'h dlob_env \<Rightarrow> market_type \<Rightarrow> sub_type \<Rightarrow> node_type \<Rightarrow> u16 \<Rightarrow> 'h dlob \<Rightarrow> node list res" where
  "get_best_orders E market_type sub_type node_type market_index D =
     (case map_of (markets_of market_type (dl_exchange D)) market_index of
        None \<Rightarrow> Inr []
      | Some market \<Rightarrow>
          bindE (get_order_list_for_node_type node_type market) (\<lambda>order_list.
          case sub_type of
            sub_type.Bid \<Rightarrow>
              drain (h_len E (ol_bids order_list)) (bids_empty E) (get_best_bid E) order_list
          | sub_type.Ask \<Rightarrow>
              drain (h_len E (ol_asks order_list)) (asks_empty E) (get_best_ask E) order_list
          | _ \<Rightarrow> unimplemented))"

definition asks_comparator ::
  "oracle_price_data \<Rightarrow> u64 \<Rightarrow> node \<Rightarrow> node \<Rightarrow> ordering res" where
  "asks_comparator oracle_price_data slot a b =
     bindE (get_price a oracle_price_data slot) (\<lambda>price_a.
     bindE (get_price b oracle_price_data slot) (\<lambda>price_b.
     Inr (if price_b < price_a then Greater else Less)))"

definition bids_comparator ::
  "oracle_price_data \<Rightarrow> u64 \<Rightarrow> node \<Rightarrow> node \<Rightarrow> ordering res" where
  "bids_comparator oracle_price_data slot a b =
     bindE (get_price a oracle_price_data slot) (\<lambda>price_a.
     bindE (get_price b oracle_price_data slot) (\<lambda>price_b.
     Inr (if price_a < price_b then Greater else Less)))"

definition get_resting_limit_asks :: "'h dlob_env \<Rightarrow> u64 \<Rightarrow> market_type \<Rightarrow> u16 \<Rightarrow>
    oracle_price_data \<Rightarrow> 'h dlob \<Rightarrow> (node list \<times> 'h dlob) res" where
  "get_resting_limit_asks E slot market_type market_index oracle_price_data D =
     bindE (update_resting_limit_orders E slot D) (\<lambda>D.
     bindE (get_best_orders E market_type sub_type.Ask node_type.RestingLimit market_index D)
       (\<lambda>resting_limit_orders.
     bindE (get_best_orders E market_type sub_type.Ask node_type.FloatingLimit market_index D)
       (\<lambda>floating_limit_orders.
     bindE (sort_byE (asks_comparator oracle_price_data slot)
       (resting_limit_orders @ floating_limit_orders)) (\<lambda>all_orders.
     Inr (all_orders, D)))))"

definition get_resting_limit_bids :: "'h dlob_env \<Rightarrow> u64 \<Rightarrow> market_type \<Rightarrow> u16 \<Rightarrow>
    oracle_price_data \<Rightarrow> 'h dlob \<Rightarrow> (node list \<times> 'h dlob) res" where
  "get_resting_limit_bids E slot market_type market_index oracle_price_data D =
     bindE (update_resting_limit_orders E slot D) (\<lambda>D.
     bindE (get_best_orders E market_type sub_type.Bid node_type.RestingLimit market_index D)
       (\<lambda>resting_limit_orders.
     bindE (get_best_orders E market_type sub_type.Bid node_type.FloatingLimit market_index D)
       (\<lambda>floating_limit_orders.
     bindE (sort_byE (bids_comparator oracle_price_data slot)
       (resting_limit_orders @ floating_limit_orders)) (\<lambda>all_orders.
     Inr (all_orders, D)))))"

definition taking_comparator :: "node \<Rightarrow> node \<Rightarrow> ordering res" where
  "taking_comparator a b =
     Inr (if o_slot (get_order a) < o_slot (get_order b) then Greater else Less)"

definition get_taking_orders :: "'h dlob_env \<Rightarrow> u64 \<Rightarrow> market_type \<Rightarrow> u16 \<Rightarrow> sub_type \<Rightarrow>
    'h dlob \<Rightarrow> (node list \<times> 'h dlob) res" where
  "get_taking_orders E slot market_type market_index subtype D =
     bindE (update_resting_limit_orders E slot D) (\<lambda>D.
     bindE (get_best_orders E market_type subtype node_type.TakingLimit market_index D)
       (\<lambda>taking_limit_orders.
     bindE (get_best_orders E market_type subtype node_type.Market market_index D)
       (\<lambda>market_orders.
     bindE (sort_byE taking_comparator (taking_limit_orders @ market_orders)) (\<lambda>all_orders.
     Inr (all_orders, D)))))"

section \<open>Orders to trigger\<close>

text \<open>
  The loops that pop a heap until a node does not satisfy the test; the node that fails it is lost
  with the copy of the heap.
\<close>

fun pop_while :: "'h dlob_env \<Rightarrow> nat \<Rightarrow> (node \<Rightarrow> bool) \<Rightarrow> 'h \<Rightarrow> node list res" where
  "pop_while E fuel P h =
     (if h_len E h = 0 then Inr []
      else case fuel of
        0 \<Rightarrow> Inl OutOfFuel
      | Suc fuel \<Rightarrow>
          bindE (of_opt (Panic ''called `Option::unwrap()` on a `None` value'') (h_pop E h))
            (\<lambda>(dn, h').
          if P (dn_node dn)
          then bindE (pop_while E fuel P h') (\<lambda>ns. Inr (dn_node dn # ns))
          else Inr []))"

declare pop_while.simps [simp del]

definition find_nodes_to_trigger :: "'h dlob_env \<Rightarrow> market_env \<Rightarrow> u16 \<Rightarrow> market_type \<Rightarrow> u64 \<Rightarrow>
    program_state \<Rightarrow> 'h dlob \<Rightarrow> node_to_trigger list option res" where
  "find_nodes_to_trigger E M market_index market_type oracle_price state D =
     (if st_exchange_status state \<noteq> es_active M then Inr None
      else case map_of (markets_of market_type (dl_exchange D)) market_index of
        None \<Rightarrow> Inr None
      | Some market \<Rightarrow>
          let trigger_above_list = ol_bids (mk_trigger_orders market);
              trigger_below_list = ol_asks (mk_trigger_orders market) in
          bindE (pop_while E (h_len E trigger_above_list)
            (\<lambda>node. o_trigger_price (get_order node) < oracle_price) trigger_above_list) (\<lambda>above.
          bindE (pop_while E (h_len E trigger_below_list)
            (\<lambda>node. oracle_price < o_trigger_price (get_order node)) trigger_below_list) (\<lambda>below.
          Inr (Some (map (\<lambda>node. \<lparr>ntt_node = node\<rparr>) (above @ below))))))"

end
