(* ===== verification/Dlob_Inserting.thy ===== *)
theory Dlob_Inserting
  imports Dlob_Core
begin

text \<open>
  Inserting into the book and looking up again: what \<open>get_node_subtype_and_type\<close> answers, the
  invariant of the book and the abstract view of it as a function from places to nodes.
\<close>

section \<open>Classification\<close>

lemma is_auction_complete_defined:
  "uint (o_slot order) + uint (o_auction_duration order) < 2 ^ 64 \<Longrightarrow>
   \<exists>b. is_auction_complete order slot = Inr b"
  by (cases "is_auction_complete order slot")
     (auto simp: is_auction_complete_def uadd_def uint_up_ucast is_up split: if_splits)

lemma is_resting_defined:
  "uint (o_slot order) + uint (o_auction_duration order) < 2 ^ 64 \<Longrightarrow>
   \<exists>b. is_resting_limit_order E order slot = Inr b"
  using is_auction_complete_defined [of order slot]
  by (auto simp: is_resting_limit_order_def split: position_direction.splits)

lemma subtype_and_type_place:
  assumes "get_node_subtype_and_type E order slot = Inr (st, nt)"
  shows "st = sub_type.Bid \<or> st = sub_type.Ask" and "nt \<noteq> node_type.VAMM"
  using assms
  by (auto simp: get_node_subtype_and_type_def Let_def returns split: if_splits position_direction.splits)

section \<open>The market an order is inserted into\<close>

lemma AList_update_twice: "AList.update k a (AList.update k b xs) = AList.update k a xs"
  by (induction xs) auto

lemma market_type_to_string_eq [simp]:
  "market_type_to_string t = ''perp'' \<longleftrightarrow> t = market_type.Perp"
  "market_type_to_string t = ''spot'' \<longleftrightarrow> t = market_type.Spot"
  by (cases t; simp add: market_type_to_string_def)+

text \<open>The market at an index, or the fresh one the book creates for it.\<close>

definition market_at :: "'h dlob_env \<Rightarrow> market_type \<Rightarrow> u16 \<Rightarrow> 'h exchange \<Rightarrow> 'h market" where
  "market_at E t i ex = (case map_of (markets_of t ex) i of None \<Rightarrow> market_new E | Some m \<Rightarrow> m)"

lemma add_market_eq:
  "\<exists>ex'. add_market_indempotent E (market_type_to_string t) i ex = Inr ex' \<and>
     map_of (markets_of t ex') i = Some (market_at E t i ex) \<and>
     set_markets t (AList.update i m (markets_of t ex')) ex' =
       set_markets t (AList.update i m (markets_of t ex)) ex"
  by (cases t)
     (auto simp: add_market_indempotent_def contains_market_def insert_market_def market_at_def
       markets_of_def set_markets_def market_type_to_string_def AList_update_twice update_conv'
       split: option.split)

text \<open>
  Inserting succeeds whenever the classification does: the node goes into the list of its type on
  the side of its subtype, and nothing else changes.
\<close>

lemma insert_order_eq:
  assumes c: "get_node_subtype_and_type E order slot = Inr (st, nt)"
  shows "\<exists>n ol put ol'. create_node nt order user = OrderNode n \<and>
    on_order n = order \<and> on_user_account n = user \<and> on_node_type n = nt \<and>
    get_order_list_for_node_insert nt
      (market_at E (o_market_type order) (o_market_index order) (dl_exchange D)) = Inr (ol, put) \<and>
    (if st = sub_type.Bid then insert_bid E (OrderNode n) ol = Inr ol'
     else insert_ask E (OrderNode n) ol = Inr ol') \<and>
    insert_order E order user slot D = Inr (D\<lparr>dl_exchange := set_markets (o_market_type order)
      (AList.update (o_market_index order) (put ol')
        (markets_of (o_market_type order) (dl_exchange D))) (dl_exchange D)\<rparr>)"
proof -
  note place = subtype_and_type_place [OF c]
  obtain ol put where list: "get_order_list_for_node_insert nt
      (market_at E (o_market_type order) (o_market_index order) (dl_exchange D)) = Inr (ol, put)"
    using place(2) by (cases nt) (auto simp: get_order_list_for_node_insert_def)
  obtain n where n: "create_node nt order user = OrderNode n" "on_order n = order"
      "on_user_account n = user" "on_node_type n = nt"
    using place(2) by (cases nt) (auto simp: create_node_def order_node_new_def)
  have "\<exists>ol'. if st = sub_type.Bid then insert_bid E (OrderNode n) ol = Inr ol'
      else insert_ask E (OrderNode n) ol = Inr ol'"
    by (cases "st = sub_type.Bid") (simp_all add: insert_bid_def insert_ask_def Let_def)
  then obtain ol' where ins: "if st = sub_type.Bid then insert_bid E (OrderNode n) ol = Inr ol'
      else insert_ask E (OrderNode n) ol = Inr ol'" ..
  from add_market_eq [of E "o_market_type order" "o_market_index order" "dl_exchange D" "put ol'"]
  show ?thesis using place(1) list n ins c
    by (intro exI [of _ n] exI [of _ ol] exI [of _ put] exI [of _ ol'])
       (auto simp: insert_order_def Let_def)
qed

lemma insert_order_defined:
  assumes "uint (o_slot order) + uint (o_auction_duration order) < 2 ^ 64"
  shows "\<exists>D'. insert_order E order user slot D = Inr D'"
proof -
  have "\<exists>st nt. get_node_subtype_and_type E order slot = Inr (st, nt)"
    using is_resting_defined [OF assms, of E slot]
    by (auto simp: get_node_subtype_and_type_def Let_def simp del: is_one_of_variant_iff)
  then obtain st nt where "get_node_subtype_and_type E order slot = Inr (st, nt)" by blast
  from insert_order_eq [OF this, of user D] show ?thesis by blast
qed

lemma insert_order_Inr:
  "insert_order E order user slot D = Inr D' \<Longrightarrow>
   \<exists>st nt. get_node_subtype_and_type E order slot = Inr (st, nt)"
  by (auto simp: insert_order_def Let_def returns)

section \<open>Looking up\<close>

lemma find_map_append:
  "find_map f (xs @ ys) = (case find_map f xs of None \<Rightarrow> find_map f ys | Some y \<Rightarrow> Some y)"
  by (induction xs) (auto split: option.split)

lemma find_map_concat: "find_map f (concat xss) = find_map (find_map f) xss"
  by (induction xss) (auto simp: find_map_append split: option.split)

lemma find_map_map: "find_map f (map g xs) = find_map (f \<circ> g) xs"
  by (induction xs) (auto split: option.split)

lemma find_map_update_same:
  assumes "g m = (case map_of ms k of None \<Rightarrow> None | Some m \<Rightarrow> g m)"
  shows "find_map (\<lambda>(_, m). g m) (AList.update k m ms) = find_map (\<lambda>(_, m). g m) ms"
  using assms by (induction ms) (auto split: option.split)

lemma find_map_update_new:
  assumes "find_map (\<lambda>(_, m). g m) ms = None" and "g m = Some x"
  shows "find_map (\<lambda>(_, m). g m) (AList.update k m ms) = Some x"
  using assms by (induction ms) (auto split: option.splits)

definition market_find :: "string \<Rightarrow> 'h market \<Rightarrow> order option" where
  "market_find sig m = find_map (\<lambda>ol. map_option get_order (get_node ol sig))
     [mk_resting_limit_orders m, mk_floating_limit_orders m, mk_taking_limit_orders m,
      mk_market_orders m, mk_trigger_orders m]"

lemma dlob_get_order_markets:
  "dlob_get_order E order_id user D =
     (case find_map (\<lambda>(_, m). market_find (get_order_signature E order_id user) m)
         (markets_of market_type.Perp (dl_exchange D)) of
        None \<Rightarrow> find_map (\<lambda>(_, m). market_find (get_order_signature E order_id user) m)
         (markets_of market_type.Spot (dl_exchange D))
      | Some y \<Rightarrow> Some y)"
  by (auto simp: dlob_get_order_def Let_def get_order_lists_def find_map_concat find_map_map comp_def
      exchange_iter_def find_map_append markets_of_def market_find_def case_prod_unfold
      split: option.split)

text \<open>Writing one list back changes the lookup only through that list.\<close>

definition list_kinds :: "node_type list" where
  "list_kinds = [node_type.RestingLimit, node_type.FloatingLimit, node_type.TakingLimit,
     node_type.Market, node_type.Trigger]"

lemma list_kinds_iff: "t \<in> set list_kinds \<longleftrightarrow> t \<noteq> node_type.VAMM"
  by (cases t) (simp_all add: list_kinds_def)

definition list_lookup :: "string \<Rightarrow> 'h market \<Rightarrow> node_type \<Rightarrow> order option" where
  "list_lookup sig m t = (case get_order_list_for_node_type t m of
     Inl _ \<Rightarrow> None | Inr ol \<Rightarrow> map_option get_order (get_node ol sig))"

lemma market_find_kinds: "market_find sig m = find_map (list_lookup sig m) list_kinds"
  by (simp add: market_find_def list_kinds_def list_lookup_def get_order_list_for_node_type_def
      split: option.split)

lemma list_lookup_put:
  assumes "get_order_list_for_node_insert nt m = Inr (ol, put)"
  shows "list_lookup sig (put ol') t =
    (if t = nt then map_option get_order (get_node ol' sig) else list_lookup sig m t)"
  by (simp add: list_lookup_def put_order_list [OF assms])

lemma list_lookup_at:
  assumes "get_order_list_for_node_insert nt m = Inr (ol, put)"
  shows "list_lookup sig m nt = map_option get_order (get_node ol sig)"
  using assms get_order_list_Inr [of nt m ol] by (auto simp: list_lookup_def)

lemma find_map_cong:
  "(\<And>x. x \<in> set xs \<Longrightarrow> f x = g x) \<Longrightarrow> find_map f xs = find_map g xs"
  by (induction xs) (auto split: option.split)

lemma find_map_None: "find_map f xs = None \<longleftrightarrow> (\<forall>x\<in>set xs. f x = None)"
  by (induction xs) (auto split: option.split)

lemma find_map_single:
  assumes "x \<in> set xs" and "f x = Some y" and "\<And>z. z \<in> set xs \<Longrightarrow> z \<noteq> x \<Longrightarrow> f z = None"
  shows "find_map f xs = Some y"
  using assms
proof (induction xs)
  case (Cons a xs)
  then show ?case by (cases "a = x") auto
qed simp

lemma market_find_put:
  assumes "get_order_list_for_node_insert nt m = Inr (ol, put)" and "get_node ol' sig = get_node ol sig"
  shows "market_find sig (put ol') = market_find sig m"
  unfolding market_find_kinds
  by (rule find_map_cong)
     (simp add: list_lookup_put [OF assms(1)] list_lookup_at [OF assms(1)] assms(2))

lemma market_find_put_new:
  assumes "get_order_list_for_node_insert nt m = Inr (ol, put)" and "get_node ol' sig = Some node"
    and "market_find sig m = None"
  shows "market_find sig (put ol') = Some (get_order node)"
proof -
  have "nt \<in> set list_kinds"
    using assms(1) by (cases nt) (auto simp: get_order_list_for_node_insert_def list_kinds_def)
  then show ?thesis
    using assms(2,3) unfolding market_find_kinds find_map_None
    by (intro find_map_single [of nt]) (simp_all add: list_lookup_put [OF assms(1)])
qed

lemma market_find_new: "market_find sig (market_new E) = None"
  by (simp add: market_find_def market_new_def orderlist_new_def get_node_def)

lemma market_at_lookup:
  "market_find sig (market_at E t i ex) =
     (case map_of (markets_of t ex) i of None \<Rightarrow> None | Some m \<Rightarrow> market_find sig m)"
  by (simp add: market_at_def market_find_new split: option.split)

text \<open>The lookup in the book after one market has been written back.\<close>

definition kind_lookup :: "string \<Rightarrow> 'h dlob \<Rightarrow> market_type \<Rightarrow> order option" where
  "kind_lookup sig D t = find_map (\<lambda>(_, m). market_find sig m) (markets_of t (dl_exchange D))"

lemma dlob_get_order_kinds:
  "dlob_get_order E order_id user D =
     find_map (kind_lookup (get_order_signature E order_id user) D) [market_type.Perp, market_type.Spot]"
  by (simp add: dlob_get_order_markets kind_lookup_def split: option.split)

lemma kind_lookup_write:
  "kind_lookup sig (D\<lparr>dl_exchange := set_markets t ms (dl_exchange D)\<rparr>) t' =
     (if t = t' then find_map (\<lambda>(_, m). market_find sig m) ms else kind_lookup sig D t')"
  by (simp add: kind_lookup_def)

lemma set_kinds: "set [market_type.Perp, market_type.Spot] = UNIV"
  using market_type.exhaust by auto

lemma get_order_write_same:
  assumes "market_find (get_order_signature E j v) m =
      market_find (get_order_signature E j v) (market_at E t i (dl_exchange D))"
  shows "dlob_get_order E j v (D\<lparr>dl_exchange := set_markets t
      (AList.update i m (markets_of t (dl_exchange D))) (dl_exchange D)\<rparr>) = dlob_get_order E j v D"
  unfolding dlob_get_order_kinds
  using assms by (intro find_map_cong)
    (simp add: kind_lookup_write find_map_update_same market_at_lookup kind_lookup_def)

lemma get_order_write_new:
  assumes "dlob_get_order E j v D = None" and "market_find (get_order_signature E j v) m = Some x"
  shows "dlob_get_order E j v (D\<lparr>dl_exchange := set_markets t
      (AList.update i m (markets_of t (dl_exchange D))) (dl_exchange D)\<rparr>) = Some x"
proof -
  have none: "kind_lookup (get_order_signature E j v) D t' = None" for t'
    using assms(1) unfolding dlob_get_order_kinds find_map_None set_kinds by blast
  have "t \<in> set [market_type.Perp, market_type.Spot]" unfolding set_kinds by simp
  then show ?thesis
    unfolding dlob_get_order_kinds
    using none [of t] assms(2) none
    by (intro find_map_single [of t])
       (auto simp: kind_lookup_write find_map_update_new kind_lookup_def)
qed

lemma get_order_None_lookup:
  assumes "dlob_get_order E j v D = None"
  shows "market_find (get_order_signature E j v) (market_at E t i (dl_exchange D)) = None"
proof -
  have "kind_lookup (get_order_signature E j v) D t = None"
    using assms unfolding dlob_get_order_kinds find_map_None set_kinds by blast
  then show ?thesis
    by (auto simp: market_at_lookup kind_lookup_def find_map_None split: option.split dest!: map_of_SomeD)
qed

context dlob_env
begin

lemma insert_node_sigs:
  assumes "if st = sub_type.Bid then insert_bid E (OrderNode n) ol = Inr ol'
    else insert_ask E (OrderNode n) ol = Inr ol'"
  shows "get_node ol' sig = (if sig = node_sig E n then Some (OrderNode n) else get_node ol sig)"
  using assms by (auto simp: insert_bid_OrderNode insert_ask_OrderNode get_node_def split: if_splits)

lemma insert_get_order:
  assumes fresh: "dlob_get_order E (o_order_id order) user D = None"
    and ins: "insert_order E order user slot D = Inr D'"
  shows "dlob_get_order E j v D' =
    (if (j, v) = (o_order_id order, user) then Some order else dlob_get_order E j v D)"
proof -
  from insert_order_Inr [OF ins] obtain st nt where
    "get_node_subtype_and_type E order slot = Inr (st, nt)" by blast
  from insert_order_eq [OF this, of user D] ins obtain n ol put ol' where
    n: "on_order n = order" "on_user_account n = user" and
    list: "get_order_list_for_node_insert nt
      (market_at E (o_market_type order) (o_market_index order) (dl_exchange D)) = Inr (ol, put)" and
    ol': "if st = sub_type.Bid then insert_bid E (OrderNode n) ol = Inr ol'
      else insert_ask E (OrderNode n) ol = Inr ol'" and
    D': "D' = D\<lparr>dl_exchange := set_markets (o_market_type order) (AList.update (o_market_index order)
      (put ol') (markets_of (o_market_type order) (dl_exchange D))) (dl_exchange D)\<rparr>" by auto
  have sig: "node_sig E n = get_order_signature E (o_order_id order) user"
    by (simp add: node_sig_def n)
  show ?thesis
  proof (cases "(j, v) = (o_order_id order, user)")
    case True
    have "market_find (node_sig E n) (put ol') = Some (get_order (OrderNode n))"
      using insert_node_sigs [OF ol', of "node_sig E n"] get_order_None_lookup [OF fresh]
      by (intro market_find_put_new [OF list]) (simp_all add: sig)
    with True fresh show ?thesis unfolding D'
      by (simp add: get_order_write_new sig n)
  next
    case False
    then have "get_order_signature E j v \<noteq> node_sig E n" by (auto simp: sig)
    with insert_node_sigs [OF ol'] have "get_node ol' (get_order_signature E j v) =
        get_node ol (get_order_signature E j v)" by simp
    from market_find_put [OF list this] False show ?thesis unfolding D'
      by (auto simp: get_order_write_same)
  qed
qed

end

text \<open>
  C22. An order that is not in the book can be looked up under its id and owner once it has been
  inserted, as it was inserted, and every other order of the book is found as before.
\<close>

theorem insert_then_get_order:
  assumes "dlob_env E"
    and "dlob_get_order E (o_order_id order) user D = None"
    and "insert_order E order user slot D = Inr D'"
  shows "dlob_get_order E j v D' =
    (if (j, v) = (o_order_id order, user) then Some order else dlob_get_order E j v D)"
  using assms by (rule dlob_env.insert_get_order)

text \<open>
  Inserting an order never panics as long as the end of its auction is a slot, whatever the kind,
  market and side of the order.
\<close>

theorem insert_order_total:
  assumes "uint (o_slot order) + uint (o_auction_duration order) < 2 ^ 64"
  shows "\<exists>D'. insert_order E order user slot D = Inr D'"
  using assms by (rule insert_order_defined)

theorem insert_order_total_witness:
  "\<exists>D'. insert_order list_env sample_order 7 100 dlob_new = Inr D'"
  by (rule insert_order_total) (simp add: sample_order_def)

theorem insert_then_get_order_witness:
  "\<exists>D'. insert_order list_env sample_order 7 100 dlob_new = Inr D' \<and>
     dlob_get_order list_env 1 7 D' = Some sample_order"
proof -
  obtain D' where D': "insert_order list_env sample_order 7 100 dlob_new = Inr D'"
    using insert_order_defined [of sample_order list_env 7 100 dlob_new]
    by (auto simp: sample_order_def)
  moreover have "dlob_get_order list_env (o_order_id sample_order) 7 dlob_new = None"
    by (simp add: dlob_get_order_markets dlob_new_def exchange_new_def markets_of_def)
  ultimately have "dlob_get_order list_env 1 7 D' = Some sample_order"
    using insert_then_get_order [OF list_book.dlob_env_axioms, of sample_order 7 dlob_new 100 D' 1 7]
    by (simp add: sample_order_def)
  with D' show ?thesis by blast
qed

section \<open>The book as a function from places to nodes\<close>

text \<open>
  The abstract view of the book: the nodes the book holds for a kind of market, a market index, a
  list and a side.
\<close>

definition side_nodes :: "'h dlob_env \<Rightarrow> sub_type \<Rightarrow> 'h order_list \<Rightarrow> node multiset" where
  "side_nodes E st ol = (case st of
     sub_type.Bid \<Rightarrow> known_nodes E (ol_order_sigs ol) (ol_bids ol)
   | sub_type.Ask \<Rightarrow> known_nodes E (ol_order_sigs ol) (ol_asks ol)
   | _ \<Rightarrow> {#})"

definition market_nodes :: "'h dlob_env \<Rightarrow> node_type \<Rightarrow> sub_type \<Rightarrow> 'h market \<Rightarrow> node multiset" where
  "market_nodes E nt st m =
     (case get_order_list_for_node_type nt m of Inl _ \<Rightarrow> {#} | Inr ol \<Rightarrow> side_nodes E st ol)"

definition book_nodes ::
  "'h dlob_env \<Rightarrow> 'h dlob \<Rightarrow> market_type \<Rightarrow> u16 \<Rightarrow> node_type \<Rightarrow> sub_type \<Rightarrow> node multiset" where
  "book_nodes E D t i nt st =
     (case map_of (markets_of t (dl_exchange D)) i of
        None \<Rightarrow> {#} | Some m \<Rightarrow> market_nodes E nt st m)"

text \<open>
  Books whose lists are well formed, have the directions of their kind and hold nodes of the types
  their list may hold: a resting list also holds the nodes that came from the taking list.
\<close>

definition allowed_types :: "node_type \<Rightarrow> node_type set" where
  "allowed_types t = (if t = node_type.RestingLimit then {node_type.RestingLimit, node_type.TakingLimit}
     else {t})"

definition list_types_ok :: "'h dlob_env \<Rightarrow> node_type \<Rightarrow> 'h order_list \<Rightarrow> bool" where
  "list_types_ok E t ol \<longleftrightarrow>
     (\<forall>node\<in># nodes E (ol_bids ol) + nodes E (ol_asks ol). get_node_type node \<in> allowed_types t)"

definition book_market_ok :: "'h dlob_env \<Rightarrow> 'h market \<Rightarrow> bool" where
  "book_market_ok E m \<longleftrightarrow> (\<forall>t ol. get_order_list_for_node_type t m = Inr ol \<longrightarrow>
     orderlist_ok E ol \<and> list_types_ok E t ol \<and>
     (ol_bid_sort_direction ol, ol_ask_sort_direction ol) = list_directions t)"

definition dlob_ok :: "'h dlob_env \<Rightarrow> 'h dlob \<Rightarrow> bool" where
  "dlob_ok E D \<longleftrightarrow> (\<forall>t. distinct (map fst (markets_of t (dl_exchange D))) \<and>
     (\<forall>m\<in>snd ` set (markets_of t (dl_exchange D)). book_market_ok E m))"

text \<open>Every entry of every side is in its list's map of signatures.\<close>

definition market_closed :: "'h dlob_env \<Rightarrow> 'h market \<Rightarrow> bool" where
  "market_closed E m \<longleftrightarrow>
     (\<forall>t ol. get_order_list_for_node_type t m = Inr ol \<longrightarrow> orderlist_closed E ol)"

definition dlob_closed :: "'h dlob_env \<Rightarrow> 'h dlob \<Rightarrow> bool" where
  "dlob_closed E D \<longleftrightarrow> (\<forall>t. \<forall>m\<in>snd ` set (markets_of t (dl_exchange D)). market_closed E m)"

lemma book_market_ok_put:
  assumes "book_market_ok E m" and "get_order_list_for_node_insert t m = Inr (ol, put)"
    and "orderlist_ok E ol'" and "list_types_ok E t ol'"
    and "ol_bid_sort_direction ol' = ol_bid_sort_direction ol"
    and "ol_ask_sort_direction ol' = ol_ask_sort_direction ol"
  shows "book_market_ok E (put ol')"
  using assms unfolding book_market_ok_def
  by (auto simp: put_order_list [OF assms(2)] get_order_list_Inr split: if_splits)

lemma market_closed_put:
  assumes "market_closed E m" and "get_order_list_for_node_insert t m = Inr (ol, put)"
    and "orderlist_closed E ol'"
  shows "market_closed E (put ol')"
  using assms unfolding market_closed_def
  by (auto simp: put_order_list [OF assms(2)] split: if_splits)

lemma snd_set_update: "snd ` set (AList.update k v xs) \<subseteq> insert v (snd ` set xs)"
  by (induction xs) auto

lemma all_update:
  assumes "\<forall>m\<in>snd ` set xs. P m" and "P v"
  shows "\<forall>m\<in>snd ` set (AList.update k v xs). P m"
  using assms snd_set_update [of k v xs] by blast

lemma dlob_ok_write:
  assumes "dlob_ok E D" and "book_market_ok E m"
  shows "dlob_ok E (D\<lparr>dl_exchange := set_markets t
    (AList.update i m (markets_of t (dl_exchange D))) (dl_exchange D)\<rparr>)"
proof -
  have "\<forall>m\<in>snd ` set (AList.update i m (markets_of t (dl_exchange D))). book_market_ok E m"
    using assms by (intro all_update) (simp_all add: dlob_ok_def)
  moreover have "distinct (map fst (AList.update i m (markets_of t (dl_exchange D))))"
    using assms(1) by (simp add: dlob_ok_def distinct_update)
  ultimately show ?thesis using assms(1) by (simp add: dlob_ok_def)
qed

lemma dlob_closed_write:
  assumes "dlob_closed E D" and "market_closed E m"
  shows "dlob_closed E (D\<lparr>dl_exchange := set_markets t
    (AList.update i m (markets_of t (dl_exchange D))) (dl_exchange D)\<rparr>)"
proof -
  have "\<forall>m\<in>snd ` set (AList.update i m (markets_of t (dl_exchange D))). market_closed E m"
    using assms by (intro all_update) (simp_all add: dlob_closed_def)
  with assms(1) show ?thesis by (simp add: dlob_closed_def)
qed

lemma book_nodes_write:
  "book_nodes E (D\<lparr>dl_exchange := set_markets t
      (AList.update i m (markets_of t (dl_exchange D))) (dl_exchange D)\<rparr>) t' i' nt st =
    (if t' = t \<and> i' = i then market_nodes E nt st m else book_nodes E D t' i' nt st)"
  by (auto simp: book_nodes_def update_conv')

lemma market_nodes_put:
  assumes "get_order_list_for_node_insert t m = Inr (ol, put)"
  shows "market_nodes E nt st (put ol') =
    (if nt = t then side_nodes E st ol' else market_nodes E nt st m)"
  by (simp add: market_nodes_def put_order_list [OF assms])

context dlob_env
begin

lemma market_new_ok: "book_market_ok E (market_new E)"
  unfolding book_market_ok_def
proof (intro allI impI)
  fix t ol assume "get_order_list_for_node_type t (market_new E) = Inr ol"
  then show "orderlist_ok E ol \<and> list_types_ok E t ol \<and>
      (ol_bid_sort_direction ol, ol_ask_sort_direction ol) = list_directions t"
    by (cases t) (auto simp: get_order_list_for_node_type_def market_new_def orderlist_new_ok
        list_directions_def list_types_ok_def orderlist_new_def orderlist_ok_def side_ok_def heap.iter_new)
qed

lemma market_new_closed: "market_closed E (market_new E)"
  unfolding market_closed_def
proof (intro allI impI)
  fix t ol assume "get_order_list_for_node_type t (market_new E) = Inr ol"
  then show "orderlist_closed E ol"
    by (cases t) (auto simp: get_order_list_for_node_type_def market_new_def orderlist_closed_def
        orderlist_new_def heap.iter_new)
qed

lemma market_nodes_new: "market_nodes E nt st (market_new E) = {#}"
  by (cases nt; cases st)
     (auto simp: market_nodes_def get_order_list_for_node_type_def market_new_def side_nodes_def
       orderlist_new_def known_nodes_def)

lemma market_at_ok: "dlob_ok E D \<Longrightarrow> book_market_ok E (market_at E t i (dl_exchange D))"
  by (auto simp: market_at_def market_new_ok dlob_ok_def split: option.split dest!: map_of_SomeD)
     (metis imageI snd_conv)

lemma market_at_closed: "dlob_closed E D \<Longrightarrow> market_closed E (market_at E t i (dl_exchange D))"
  by (auto simp: market_at_def market_new_closed dlob_closed_def split: option.split dest!: map_of_SomeD)
     (metis imageI snd_conv)

lemma market_nodes_at:
  "market_nodes E nt st (market_at E t i (dl_exchange D)) = book_nodes E D t i nt st"
  by (simp add: market_at_def book_nodes_def market_nodes_new split: option.split)

text \<open>Pushing a node under a signature the list does not have.\<close>

lemma known_nodes_push:
  assumes "map_of (h_iter E h) (node_sig E n) = None" and "side_ok E d h"
  shows "known_nodes E (sigs(node_sig E n \<mapsto> x))
      (h_push E (node_sig E n) (directional_node_new (OrderNode n) d) h) =
    add_mset (OrderNode n) (known_nodes E sigs h)"
    and "known_nodes E (sigs(node_sig E n \<mapsto> x)) h = known_nodes E sigs h"
proof -
  have "known_nodes E (sigs(node_sig E n := None)) h = known_nodes E sigs h" for sigs
    using known_nodes_remove [OF assms(2,1)] .
  from this [of sigs] this [of "sigs(node_sig E n \<mapsto> x)"]
  show k: "known_nodes E (sigs(node_sig E n \<mapsto> x)) h = known_nodes E sigs h" by simp
  have "nodes E (h_push E (node_sig E n) (directional_node_new (OrderNode n) d) h) =
      add_mset (OrderNode n) (nodes E h)"
    using heap.push_items [OF assms(1)] by (simp add: nodes_items directional_node_new_def)
  with k show "known_nodes E (sigs(node_sig E n \<mapsto> x))
      (h_push E (node_sig E n) (directional_node_new (OrderNode n) d) h) =
    add_mset (OrderNode n) (known_nodes E sigs h)"
    by (simp add: known_nodes_def is_known_def)
qed

lemma fst_iter: "k \<in> fst ` set (h_iter E h) \<longleftrightarrow> map_of (h_iter E h) k \<noteq> None"
  by (simp add: map_of_eq_None_iff)

lemma closed_fresh:
  assumes "orderlist_closed E ol" and "ol_order_sigs ol k = None"
  shows "map_of (h_iter E (ol_bids ol)) k = None" and "map_of (h_iter E (ol_asks ol)) k = None"
  using assms unfolding orderlist_closed_def map_of_eq_None_iff by blast+

lemma nodes_push_all:
  assumes "\<forall>node\<in>#nodes E h. P node" and "P (dn_node dn)"
  shows "\<forall>node\<in>#nodes E (h_push E k dn h). P node"
proof -
  have "set (h_iter E (h_push E k dn h)) \<subseteq> insert (k, dn) (set (h_iter E h))"
    by (auto simp: heap.iter_mem heap.map_push split: if_splits)
  with assms show ?thesis by (fastforce simp: nodes_def)
qed

text \<open>What inserting an order node does to a list, for both sides at once.\<close>

lemma insert_node_eq:
  assumes "if st = sub_type.Bid then insert_bid E (OrderNode n) ol = Inr ol'
    else insert_ask E (OrderNode n) ol = Inr ol'"
  shows "ol' = (let ol = ol\<lparr>ol_order_sigs := (ol_order_sigs ol)(node_sig E n \<mapsto> OrderNode n)\<rparr> in
    if st = sub_type.Bid
    then ol\<lparr>ol_bids := h_push E (node_sig E n)
        (directional_node_new (OrderNode n) (ol_bid_sort_direction ol)) (ol_bids ol)\<rparr>
    else ol\<lparr>ol_asks := h_push E (node_sig E n)
        (directional_node_new (OrderNode n) (ol_ask_sort_direction ol)) (ol_asks ol)\<rparr>)"
  using assms by (simp add: insert_bid_OrderNode insert_ask_OrderNode split: if_splits)

lemma insert_node_ok:
  assumes ins: "if st = sub_type.Bid then insert_bid E (OrderNode n) ol = Inr ol'
      else insert_ask E (OrderNode n) ol = Inr ol'"
  shows "orderlist_ok E ol \<Longrightarrow> orderlist_ok E ol'"
    and "ol_bid_sort_direction ol' = ol_bid_sort_direction ol"
    and "ol_ask_sort_direction ol' = ol_ask_sort_direction ol"
    and "list_types_ok E t ol \<Longrightarrow> on_node_type n \<in> allowed_types t \<Longrightarrow> list_types_ok E t ol'"
proof -
  show "orderlist_ok E ol'" if "orderlist_ok E ol"
    using ins insert_bid_ok [OF that] insert_ask_ok [OF that] by (meson)
  show "ol_bid_sort_direction ol' = ol_bid_sort_direction ol"
    "ol_ask_sort_direction ol' = ol_ask_sort_direction ol"
    unfolding insert_node_eq [OF ins] by (simp_all add: Let_def)
  show "list_types_ok E t ol'" if "list_types_ok E t ol" "on_node_type n \<in> allowed_types t"
  proof -
    have n: "get_node_type (dn_node (directional_node_new (OrderNode n) d)) \<in> allowed_types t" for d
      using that(2) by (simp add: directional_node_new_def)
    have o: "\<forall>node\<in>#nodes E (ol_bids ol). get_node_type node \<in> allowed_types t"
      "\<forall>node\<in>#nodes E (ol_asks ol). get_node_type node \<in> allowed_types t"
      using that(1) by (simp_all add: list_types_ok_def)
    note push = nodes_push_all [OF o(1) n] nodes_push_all [OF o(2) n]
    show ?thesis
    proof (cases "st = sub_type.Bid")
      case True
      then show ?thesis using o(2) push(1)
        unfolding insert_node_eq [OF ins] list_types_ok_def
        by (simp add: Let_def ball_Un del: Set.ball_simps)
    next
      case False
      then show ?thesis using o(1) push(2)
        unfolding insert_node_eq [OF ins] list_types_ok_def
        by (simp add: Let_def ball_Un del: Set.ball_simps)
    qed
  qed
qed

lemma insert_node_closed:
  assumes ins: "if st = sub_type.Bid then insert_bid E (OrderNode n) ol = Inr ol'
      else insert_ask E (OrderNode n) ol = Inr ol'"
    and closed: "orderlist_closed E ol"
  shows "orderlist_closed E ol'"
proof -
  have "fst ` set (h_iter E (h_push E k dn h)) = insert k (fst ` set (h_iter E h))" for k dn h
    using dom_map_of_conv_image_fst [of "h_iter E h"]
      dom_map_of_conv_image_fst [of "h_iter E (h_push E k dn h)"] by (simp add: heap.map_push)
  with closed show ?thesis
    unfolding insert_node_eq [OF ins] orderlist_closed_def
    by (cases "st = sub_type.Bid") (simp_all add: Let_def, blast+)
qed

lemma insert_node_side:
  assumes ins: "if st = sub_type.Bid then insert_bid E (OrderNode n) ol = Inr ol'
      else insert_ask E (OrderNode n) ol = Inr ol'"
    and ok: "orderlist_ok E ol" and closed: "orderlist_closed E ol"
    and fresh: "ol_order_sigs ol (node_sig E n) = None"
    and st: "st = sub_type.Bid \<or> st = sub_type.Ask"
  shows "side_nodes E st' ol' =
    (if st' = st then add_mset (OrderNode n) (side_nodes E st' ol) else side_nodes E st' ol)"
proof -
  note none = closed_fresh [OF closed fresh]
  from ok have s: "side_ok E (ol_bid_sort_direction ol) (ol_bids ol)"
    "side_ok E (ol_ask_sort_direction ol) (ol_asks ol)" by (simp_all add: orderlist_ok_def)
  show ?thesis
    unfolding insert_node_eq [OF ins]
    using st by (elim disjE; cases st')
      (simp_all add: side_nodes_def Let_def known_nodes_push [OF none(1) s(1)]
        known_nodes_push [OF none(2) s(2)])
qed

lemma insert_order_invariants:
  assumes ok: "dlob_ok E D" and ins: "insert_order E order user slot D = Inr D'"
  shows "dlob_ok E D'" and "dlob_closed E D \<Longrightarrow> dlob_closed E D'"
proof -
  from insert_order_Inr [OF ins] obtain st nt where
    "get_node_subtype_and_type E order slot = Inr (st, nt)" by blast
  from insert_order_eq [OF this, of user D] ins obtain n ol put ol' where
    n: "on_node_type n = nt" and
    list: "get_order_list_for_node_insert nt
      (market_at E (o_market_type order) (o_market_index order) (dl_exchange D)) = Inr (ol, put)" and
    ol': "if st = sub_type.Bid then insert_bid E (OrderNode n) ol = Inr ol'
      else insert_ask E (OrderNode n) ol = Inr ol'" and
    D': "D' = D\<lparr>dl_exchange := set_markets (o_market_type order) (AList.update (o_market_index order)
      (put ol') (markets_of (o_market_type order) (dl_exchange D))) (dl_exchange D)\<rparr>" by auto
  note m_ok = market_at_ok [OF ok, of "o_market_type order" "o_market_index order"]
  have ol: "get_order_list_for_node_type nt
      (market_at E (o_market_type order) (o_market_index order) (dl_exchange D)) = Inr ol"
    using list by (auto simp: get_order_list_Inr)
  with m_ok have o: "orderlist_ok E ol" "list_types_ok E nt ol" unfolding book_market_ok_def by blast+
  have "on_node_type n \<in> allowed_types nt" using n by (simp add: allowed_types_def)
  from insert_node_ok(4) [OF ol' o(2) this] book_market_ok_put [OF m_ok list] insert_node_ok(1-3) [OF ol'] o
  show "dlob_ok E D'" unfolding D' by (intro dlob_ok_write [OF ok]) simp
  assume closed: "dlob_closed E D"
  note m_closed = market_at_closed [OF closed, of "o_market_type order" "o_market_index order"]
  with ol have "orderlist_closed E ol" unfolding market_closed_def by blast
  from market_closed_put [OF m_closed list insert_node_closed [OF ol' this]]
  show "dlob_closed E D'" unfolding D' by (rule dlob_closed_write [OF closed])
qed

lemma insert_order_book:
  assumes ok: "dlob_ok E D" and closed: "dlob_closed E D"
    and fresh: "dlob_get_order E (o_order_id order) user D = None"
    and c: "get_node_subtype_and_type E order slot = Inr (st, nt)"
    and ins: "insert_order E order user slot D = Inr D'"
  shows "book_nodes E D' t i nt' st' =
    (if (t, i, nt', st') = (o_market_type order, o_market_index order, nt, st)
     then add_mset (create_node nt order user) (book_nodes E D t i nt' st')
     else book_nodes E D t i nt' st')"
proof -
  from insert_order_eq [OF c, of user D] ins obtain n ol put ol' where
    n: "create_node nt order user = OrderNode n" "on_order n = order" "on_user_account n = user" and
    list: "get_order_list_for_node_insert nt
      (market_at E (o_market_type order) (o_market_index order) (dl_exchange D)) = Inr (ol, put)" and
    ol': "if st = sub_type.Bid then insert_bid E (OrderNode n) ol = Inr ol'
      else insert_ask E (OrderNode n) ol = Inr ol'" and
    D': "D' = D\<lparr>dl_exchange := set_markets (o_market_type order) (AList.update (o_market_index order)
      (put ol') (markets_of (o_market_type order) (dl_exchange D))) (dl_exchange D)\<rparr>" by auto
  let ?m = "market_at E (o_market_type order) (o_market_index order) (dl_exchange D)"
  have ol: "get_order_list_for_node_type nt ?m = Inr ol"
    using list by (auto simp: get_order_list_Inr)
  have o: "orderlist_ok E ol" "orderlist_closed E ol"
    using ol market_at_ok [OF ok] market_at_closed [OF closed]
    unfolding book_market_ok_def market_closed_def by blast+
  have "list_lookup (node_sig E n) ?m nt = None"
    using get_order_None_lookup [OF fresh] subtype_and_type_place(2) [OF c]
    by (simp add: market_find_kinds find_map_None list_kinds_iff node_sig_def n)
  then have "ol_order_sigs ol (node_sig E n) = None"
    by (simp add: list_lookup_at [OF list] get_node_def)
  note side = insert_node_side [OF ol' o this subtype_and_type_place(1) [OF c]]
  have "side_nodes E st' ol = market_nodes E nt st' ?m"
    by (simp add: market_nodes_def ol)
  with side [of st'] show ?thesis unfolding D' book_nodes_write market_nodes_put [OF list] market_nodes_at
    by (auto simp: n)
qed

lemma dlob_new_ok: "dlob_ok E dlob_new" "dlob_closed E dlob_new"
  by (simp_all add: dlob_ok_def dlob_closed_def dlob_new_def exchange_new_def markets_of_def
      split: market_type.split)

lemma dlob_clear_ok: "dlob_ok E (dlob_clear D)" "dlob_closed E (dlob_clear D)"
  by (simp_all add: dlob_ok_def dlob_closed_def dlob_clear_def exchange_clear_def markets_of_def
      split: market_type.split)

text \<open>Building the book from a user map keeps the invariants, whatever the book was before.\<close>

lemma build_invariants:
  assumes "build_from_usermap E from_str usermap slot D = Inr D'"
  shows "dlob_ok E D' \<and> dlob_closed E D'"
proof -
  let ?P = "\<lambda>D. dlob_ok E D \<and> dlob_closed E D"
  have user: "?P D''" if "?P D" and
    "foldE (\<lambda>D order. if o_status order = order_status.Init then Inr D
          else insert_order E order key slot D) D orders = Inr D''" for D D'' key orders
    using that by (elim foldE_inv [where P = ?P])
      (auto split: if_splits dest: insert_order_invariants)
  from assms obtain D1 where D1: "foldE (\<lambda>D (user_key, user).
        bindE (of_opt (Panic ''Valid pubkey'') (from_str user_key)) (\<lambda>user_pubkey.
        foldE (\<lambda>D order.
          if o_status order = order_status.Init then Inr D
          else insert_order E order user_pubkey slot D) D (u_orders user)))
       (dlob_clear D) usermap = Inr D1" "D' = D1\<lparr>dl_initialized := True\<rparr>"
    by (auto simp: build_from_usermap_def returns)
  have "?P D1"
    by (rule foldE_inv [OF D1(1)]) (auto simp: dlob_clear_ok returns dest: user [rotated])
  then show ?thesis by (simp add: D1(2) dlob_ok_def dlob_closed_def)
qed

end

text \<open>
  C1. Inserting a new order refines adding its node to the abstract book: the node appears at the
  market, list and side of its classification, and every other place of the book is unchanged.
\<close>

theorem insert_order_refines:
  assumes "dlob_env E" and "dlob_ok E D" and "dlob_closed E D"
    and "dlob_get_order E (o_order_id order) user D = None"
    and "get_node_subtype_and_type E order slot = Inr (st, nt)"
    and "insert_order E order user slot D = Inr D'"
  shows "book_nodes E D' t i nt' st' =
    (if (t, i, nt', st') = (o_market_type order, o_market_index order, nt, st)
     then add_mset (create_node nt order user) (book_nodes E D t i nt' st')
     else book_nodes E D t i nt' st')"
  using assms by (rule dlob_env.insert_order_book)

text \<open>
  A book built from a user map is well formed, every node is under its own signature in a heap of
  its kind and known to the map of its list, whatever was in the book before.
\<close>

theorem build_from_usermap_ok:
  assumes "dlob_env E" and "build_from_usermap E from_str usermap slot D = Inr D'"
  shows "dlob_ok E D' \<and> dlob_closed E D'"
  using assms by (rule dlob_env.build_invariants)

text \<open>A book with the sample order, used by the worked examples.\<close>

lemma sample_classified:
  "get_node_subtype_and_type list_env sample_order 100 = Inr (sub_type.Bid, node_type.TakingLimit)"
proof -
  have "is_auction_complete sample_order 100 = Inr False"
    by (simp add: is_auction_complete_Inr sample_order_def)
  then have "is_resting_limit_order list_env sample_order 100 = Inr False"
    by (simp add: is_resting_limit_order_def) (simp add: sample_order_def)
  moreover have "o_order_type sample_order = order_type.Limit" "o_direction sample_order = Long"
    "o_oracle_price_offset sample_order = 0" by (simp_all add: sample_order_def)
  ultimately show ?thesis by (simp add: get_node_subtype_and_type_def Let_def)
qed

lemma fresh_new: "dlob_get_order E i u dlob_new = None"
  by (simp add: dlob_get_order_markets dlob_new_def exchange_new_def markets_of_def)

theorem insert_order_refines_witness:
  "\<exists>D'. insert_order list_env sample_order 7 100 dlob_new = Inr D' \<and>
     book_nodes list_env D' market_type.Perp 0 node_type.TakingLimit sub_type.Bid =
       {#create_node node_type.TakingLimit sample_order 7#}"
proof -
  obtain D' where D': "insert_order list_env sample_order 7 100 dlob_new = Inr D'"
    using insert_order_defined [of sample_order list_env 7 100 dlob_new]
    by (auto simp: sample_order_def)
  have "book_nodes list_env D' market_type.Perp 0 node_type.TakingLimit sub_type.Bid =
       {#create_node node_type.TakingLimit sample_order 7#}"
    using insert_order_refines [OF list_book.dlob_env_axioms list_book.dlob_new_ok fresh_new
        sample_classified D', of market_type.Perp 0 node_type.TakingLimit sub_type.Bid]
    by (simp add: sample_order_def book_nodes_def dlob_new_def exchange_new_def markets_of_def)
  with D' show ?thesis by blast
qed

theorem build_from_usermap_ok_witness:
  "\<exists>D'. build_from_usermap list_env (\<lambda>_. Some 7) [(''k'', sample_user\<lparr>u_orders := [sample_order]\<rparr>)] 100 dlob_new =
      Inr D' \<and> dlob_ok list_env D' \<and> dlob_closed list_env D'"
proof -
  obtain D' where D': "insert_order list_env sample_order 7 100 (dlob_clear dlob_new) = Inr D'"
    using insert_order_defined [of sample_order list_env 7 100 "dlob_clear dlob_new"]
    by (auto simp: sample_order_def)
  then have "build_from_usermap list_env (\<lambda>_. Some 7) [(''k'', sample_user\<lparr>u_orders := [sample_order]\<rparr>)] 100
      dlob_new = Inr (D'\<lparr>dl_initialized := True\<rparr>)"
    by (simp add: build_from_usermap_def sample_order_def)
  with build_from_usermap_ok [OF list_book.dlob_env_axioms this] show ?thesis by blast
qed

end
