(* ===== verification/Dlob_Samples.thy ===== *)
theory Dlob_Samples
  imports Dlob_Inserting
begin

text \<open>
  Two concrete books for the worked examples: one perp market with the sample order in its taking
  list, which is what inserting the order into the empty book gives, and the same book with a second,
  empty market.
\<close>

definition sample_sig :: string where
  "sample_sig = get_order_signature list_env 1 7"

definition sample_node :: node where
  "sample_node = create_node node_type.TakingLimit sample_order 7"

definition sample_list :: "list_heap order_list" where
  "sample_list = \<lparr>ol_bids = [(sample_sig, directional_node_new sample_node Ascending)], ol_asks = [],
     ol_order_sigs = [sample_sig \<mapsto> sample_node],
     ol_bid_sort_direction = Ascending, ol_ask_sort_direction = Ascending\<rparr>"

definition sample_market :: "list_heap market" where
  "sample_market = (market_new list_env)\<lparr>mk_taking_limit_orders := sample_list\<rparr>"

definition sample_book :: "list_heap dlob" where
  "sample_book = dlob_new\<lparr>dl_exchange := \<lparr>ex_perp = [(0, sample_market)], ex_spot = []\<rparr>\<rparr>"

definition two_markets :: "list_heap dlob" where
  "two_markets = dlob_new\<lparr>dl_exchange :=
     \<lparr>ex_perp = [(0, sample_market), (1, market_new list_env)], ex_spot = []\<rparr>\<rparr>"

lemma list_env_heap [simp]:
  "h_new list_env = []" "h_push list_env = list_heap_push" "h_pop list_env = list_heap_pop dn_cmp"
  "h_get list_env = map_of" "h_put list_env = list_heap_push" "h_iter list_env = AList.clearjunk"
  "h_len list_env h = length (AList.clearjunk h)"
  by (simp_all add: list_env_def)

lemma sample_node_simps [simp]:
  "sample_node = OrderNode (order_node_new node_type.TakingLimit sample_order 7)"
  "get_order sample_node = sample_order"
  by (simp_all add: sample_node_def create_node_def order_node_new_def)

lemma sample_fields [simp]:
  "o_order_id sample_order = 1" "o_market_type sample_order = market_type.Perp"
  "o_market_index sample_order = 0" "o_slot sample_order = 100" "o_auction_duration sample_order = 10"
  "o_order_type sample_order = order_type.Limit" "o_post_only sample_order = False"
  by (simp_all add: sample_order_def)

lemma sample_is_limit [simp]: "env_is_limit_order list_env sample_order"
  by simp

lemma sample_inserted: "insert_order list_env sample_order 7 100 dlob_new = Inr sample_book"
  by (simp add: insert_order_def Let_def sample_classified add_market_indempotent_def
      contains_market_def dlob_new_def exchange_new_def insert_market_def markets_of_def set_markets_def
      get_order_list_for_node_insert_def insert_bid_def market_new_def orderlist_new_def
      sample_book_def sample_market_def sample_list_def create_node_def order_node_new_def
      sample_sig_def list_heap_push_def)

lemma sample_rests:
  "is_resting_limit_order list_env sample_order slot = Inr (110 < slot)"
  by (simp add: is_resting_limit_order_def is_auction_complete_def uadd_def)

lemma sample_markets [simp]:
  "markets_of market_type.Perp (dl_exchange sample_book) = [(0, sample_market)]"
  "markets_of market_type.Spot (dl_exchange sample_book) = []"
  by (simp_all add: sample_book_def markets_of_def)

lemma sample_lists [simp]:
  "mk_taking_limit_orders sample_market = sample_list"
  "mk_resting_limit_orders sample_market = orderlist_new list_env Descending Ascending"
  "ol_bids sample_list = [(sample_sig, directional_node_new sample_node Ascending)]"
  "ol_asks sample_list = []"
  by (simp_all add: sample_market_def sample_list_def market_new_def)

lemma sample_book_ok: "dlob_ok list_env sample_book" "dlob_closed list_env sample_book"
  using list_book.insert_order_invariants [OF list_book.dlob_new_ok(1) sample_inserted]
    list_book.dlob_new_ok(2) by blast+

lemma sample_single: "\<forall>t. length (markets_of t (dl_exchange sample_book)) \<le> 1"
proof
  fix t show "length (markets_of t (dl_exchange sample_book)) \<le> 1" by (cases t) simp_all
qed

lemma order_node_fields [simp]:
  "on_order (order_node_new t order u) = order" "on_user_account (order_node_new t order u) = u"
  "on_node_type (order_node_new t order u) = t"
  by (simp_all add: order_node_new_def)

lemma sample_updated: "\<exists>D'. update_resting_limit_orders list_env slot sample_book = Inr D'"
proof -
  have "\<exists>s. update_market_step list_env slot ([(0, sample_market)], [], []) (0, sample_market) = Inr s"
    by (cases "110 < slot") (simp_all add: update_market_step_def taking_bid_step_def
        directional_node_new_def sample_rests insert_bid_def Let_def)
  then show ?thesis
    by (auto simp: update_resting_limit_orders_def update_resting_limit_orders_for_market_type_def
        Let_def)
qed

lemma sample_taking: "book_nodes list_env sample_book market_type.Perp 0 node_type.TakingLimit sub_type.Bid =
  {#sample_node#}"
  using list_book.insert_order_book [OF list_book.dlob_new_ok fresh_new sample_classified sample_inserted, of market_type.Perp 0 node_type.TakingLimit sub_type.Bid]
  by (simp add: book_nodes_def dlob_new_def exchange_new_def markets_of_def create_node_def)

lemma two_markets_simps [simp]:
  "markets_of market_type.Perp (dl_exchange two_markets) =
     [(0, sample_market), (1, market_new list_env)]"
  "markets_of market_type.Spot (dl_exchange two_markets) = []"
  by (simp_all add: two_markets_def markets_of_def)

lemma two_markets_ok: "dlob_ok list_env two_markets"
proof -
  have "book_market_ok list_env sample_market"
    using sample_book_ok(1) unfolding dlob_ok_def
    by (metis image_eqI list.set_intros(1) sample_markets(1) snd_conv)
  moreover have "markets_of t (dl_exchange two_markets) = (case t of
      market_type.Perp \<Rightarrow> [(0, sample_market), (1, market_new list_env)] | market_type.Spot \<Rightarrow> [])" for t
    by (cases t) simp_all
  ultimately show ?thesis
    using list_book.market_new_ok by (auto simp: dlob_ok_def split: market_type.splits)
qed

lemma two_markets_updated:
  "\<exists>D'. update_resting_limit_orders_for_market_type list_env 105 market_type.Perp two_markets = Inr D'"
  by (simp add: update_resting_limit_orders_for_market_type_def update_market_step_def
      taking_bid_step_def directional_node_new_def sample_rests market_new_def orderlist_new_def
      list_heap_push_def Let_def)

text \<open>An environment of markets in which nothing is paused, and a state in which fills are.\<close>

definition pausing_env :: market_env where
  "pausing_env = \<lparr>es_active = 0, es_amm_paused = 8, es_fill_paused = 16,
     perp_is_operation_paused = (\<lambda>_ _. False), perp_has_too_much_drawdown = (\<lambda>_. None),
     spot_is_operation_paused = (\<lambda>_ _. False)\<rparr>"

definition paused_state :: program_state where
  "paused_state = \<lparr>st_exchange_status = 20, st_min_perp_auction_duration = 10,
     st_perp_fee_tier_0 = \<lparr>ft_maker_rebate_numerator = 2, ft_maker_rebate_denominator = 100\<rparr>,
     st_spot_fee_tier_0 = \<lparr>ft_maker_rebate_numerator = 2, ft_maker_rebate_denominator = 100\<rparr>\<rparr>"

end
