(* ===== verification/Dlob_Resting.thy ===== *)
theory Dlob_Resting
  imports Dlob_Inserting Dlob_Samples
begin

text \<open>
  Moving orders from the taking lists to the resting lists: the loop over one side as an equation
  between maps, over one market and over all markets, and what follows for the abstract book.
\<close>

section \<open>One side\<close>

definition rests :: "'h dlob_env \<Rightarrow> u64 \<Rightarrow> node \<Rightarrow> bool" where
  "rests E slot node \<longleftrightarrow> is_resting_limit_order E (get_order node) slot = Inr True"

definition keys_ok :: "'h dlob_env \<Rightarrow> (string \<times> directional_node) list \<Rightarrow> bool" where
  "keys_ok E es \<longleftrightarrow> distinct (map fst es) \<and>
     (\<forall>(k, dn) \<in> set es. \<exists>n. dn_node dn = OrderNode n \<and> k = node_sig E n)"

definition staying :: "'h dlob_env \<Rightarrow> u64 \<Rightarrow> (string \<times> directional_node) list \<Rightarrow>
    (string \<times> directional_node) list" where
  "staying E slot es = filter (\<lambda>e. \<not> rests E slot (dn_node (snd e))) es"

definition moving :: "'h dlob_env \<Rightarrow> u64 \<Rightarrow> (string \<times> directional_node) list \<Rightarrow>
    (string \<times> directional_node) list" where
  "moving E slot es = filter (\<lambda>e. rests E slot (dn_node (snd e))) es"

definition turned :: "sort_direction \<Rightarrow> (string \<times> directional_node) list \<Rightarrow>
    (string \<times> directional_node) list" where
  "turned d es = map (\<lambda>(k, dn). (k, directional_node_new (dn_node dn) d)) es"

text \<open>The two sides of a list, exchanged: what holds for bids holds for asks.\<close>

definition flip_sides :: "'h order_list \<Rightarrow> 'h order_list" where
  "flip_sides ol = ol\<lparr>ol_bids := ol_asks ol, ol_asks := ol_bids ol,
     ol_bid_sort_direction := ol_ask_sort_direction ol,
     ol_ask_sort_direction := ol_bid_sort_direction ol\<rparr>"

lemma flip_sides_simps [simp]:
  "ol_bids (flip_sides ol) = ol_asks ol" "ol_asks (flip_sides ol) = ol_bids ol"
  "ol_bid_sort_direction (flip_sides ol) = ol_ask_sort_direction ol"
  "ol_ask_sort_direction (flip_sides ol) = ol_bid_sort_direction ol"
  "ol_order_sigs (flip_sides ol) = ol_order_sigs ol" "flip_sides (flip_sides ol) = ol"
  by (simp_all add: flip_sides_def)

lemma flip_sides_update:
  "flip_sides ((flip_sides ol)\<lparr>ol_order_sigs := s, ol_bids := h\<rparr>) = ol\<lparr>ol_order_sigs := s, ol_asks := h\<rparr>"
  by (cases ol) (simp add: flip_sides_def)

lemma insert_ask_flip:
  "insert_ask E node ol = bindE (insert_bid E node (flip_sides ol)) (\<lambda>ol. Inr (flip_sides ol))"
  by (cases "get_user_account node")
     (simp_all add: insert_ask_def insert_bid_def Let_def flip_sides_update)

lemma taking_ask_fold_flip:
  assumes "foldE (taking_ask_step E slot) (r, h) es = Inr (r', h')"
  shows "foldE (taking_bid_step E slot) (flip_sides r, h) es = Inr (flip_sides r', h')"
  using assms
proof (induction es arbitrary: r h)
  case (Cons e es)
  obtain k dn where e: "e = (k, dn)" by (cases e)
  from Cons.prems obtain r1 h1 where s: "taking_ask_step E slot (r, h) e = Inr (r1, h1)"
      "foldE (taking_ask_step E slot) (r1, h1) es = Inr (r', h')"
    using that by (cases "taking_ask_step E slot (r, h) e") auto
  from s(1) have "taking_bid_step E slot (flip_sides r, h) e = Inr (flip_sides r1, h1)"
    by (cases "is_resting_limit_order E (get_order (dn_node dn)) slot";
        cases "insert_bid E (dn_node dn) (flip_sides r)")
       (auto simp: e taking_ask_step_def taking_bid_step_def insert_ask_flip split: if_splits)
  with Cons.IH [OF s(2)] show ?case by simp
qed simp

text \<open>
  No signature is both in a taking heap and in the resting heap of the same side: an order is
  inserted once.
\<close>

definition sides_disjoint :: "'h dlob_env \<Rightarrow> 'h market \<Rightarrow> bool" where
  "sides_disjoint E m \<longleftrightarrow>
     fst ` set (h_iter E (ol_bids (mk_resting_limit_orders m))) \<inter>
       fst ` set (h_iter E (ol_bids (mk_taking_limit_orders m))) = {} \<and>
     fst ` set (h_iter E (ol_asks (mk_resting_limit_orders m))) \<inter>
       fst ` set (h_iter E (ol_asks (mk_taking_limit_orders m))) = {}"

context dlob_env
begin

lemma keys_ok_iter: "side_ok E d h \<Longrightarrow> keys_ok E (h_iter E h)"
  using heap.iter_mem [of _ _ h] unfolding keys_ok_def side_ok_def
  by (intro conjI heap.distinct_iter) blast

lemma bid_fold:
  assumes "foldE (taking_bid_step E slot) (r, h) es = Inr (r', h')" and "keys_ok E es"
  shows "map_of (h_iter E h') = map_of (h_iter E h) ++ map_of (staying E slot es) \<and>
    map_of (h_iter E (ol_bids r')) = map_of (h_iter E (ol_bids r)) ++
      map_of (turned (ol_bid_sort_direction r) (moving E slot es)) \<and>
    ol_order_sigs r' = ol_order_sigs r ++ (map_option dn_node \<circ> map_of (moving E slot es)) \<and>
    ol_asks r' = ol_asks r \<and> ol_bid_sort_direction r' = ol_bid_sort_direction r \<and>
    ol_ask_sort_direction r' = ol_ask_sort_direction r"
  using assms
proof (induction es arbitrary: r h)
  case Nil
  then show ?case by (auto simp: staying_def moving_def turned_def)
next
  case (Cons e es)
  obtain k dn where e: "e = (k, dn)" by (cases e)
  from Cons.prems(2) obtain n where n: "dn_node dn = OrderNode n" "k = node_sig E n"
      and es: "keys_ok E es" and k: "k \<notin> fst ` set es"
    unfolding e keys_ok_def by auto
  from Cons.prems(1) obtain r1 h1 where s: "taking_bid_step E slot (r, h) e = Inr (r1, h1)"
      "foldE (taking_bid_step E slot) (r1, h1) es = Inr (r', h')"
    by (auto simp: returns)
  have k': "map_of (staying E slot es) k = None" "map_of (moving E slot es) k = None"
    "map_of (turned d (moving E slot es)) k = None" for d
    using k unfolding map_of_eq_None_iff by (force simp: staying_def moving_def turned_def)+
  note IH = Cons.IH [OF s(2) es]
  show ?case
  proof (cases "rests E slot (dn_node dn)")
    case True
    with s(1) n have "h1 = h" "r1 = r\<lparr>ol_order_sigs := (ol_order_sigs r)(k \<mapsto> OrderNode n),
        ol_bids := h_push E k (directional_node_new (OrderNode n) (ol_bid_sort_direction r)) (ol_bids r)\<rparr>"
      by (auto simp: e taking_bid_step_def rests_def insert_bid_OrderNode)
    moreover have "staying E slot (e # es) = staying E slot es"
      "moving E slot (e # es) = e # moving E slot es"
      using True by (simp_all add: e staying_def moving_def)
    moreover have "turned d (e # moving E slot es) =
        (k, directional_node_new (OrderNode n) d) # turned d (moving E slot es)" for d
      using n by (simp add: turned_def e)
    ultimately show ?thesis
      using IH n k' by (simp add: e heap.map_push)
        (auto simp: fun_eq_iff map_add_def split: option.splits)
  next
    case False
    with s(1) have "r1 = r" "h1 = h_push E k dn h"
      by (auto simp: e taking_bid_step_def rests_def returns split: if_splits)
    moreover have "staying E slot (e # es) = e # staying E slot es"
      "moving E slot (e # es) = moving E slot es"
      using False by (simp_all add: e staying_def moving_def)
    ultimately show ?thesis
      using IH k' by (simp add: e heap.map_push)
        (auto simp: fun_eq_iff map_add_def split: option.splits)
  qed
qed

lemma ask_fold:
  assumes "foldE (taking_ask_step E slot) (r, h) es = Inr (r', h')" and "keys_ok E es"
  shows "map_of (h_iter E h') = map_of (h_iter E h) ++ map_of (staying E slot es) \<and>
    map_of (h_iter E (ol_asks r')) = map_of (h_iter E (ol_asks r)) ++
      map_of (turned (ol_ask_sort_direction r) (moving E slot es)) \<and>
    ol_order_sigs r' = ol_order_sigs r ++ (map_option dn_node \<circ> map_of (moving E slot es)) \<and>
    ol_bids r' = ol_bids r \<and> ol_bid_sort_direction r' = ol_bid_sort_direction r \<and>
    ol_ask_sort_direction r' = ol_ask_sort_direction r"
  using bid_fold [OF taking_ask_fold_flip [OF assms(1)] assms(2)] by simp

section \<open>One market\<close>

text \<open>
  The resting list after one round of the loop over the markets, and the round itself, given the
  two heaps carried into it.
\<close>

definition resting_after :: "u64 \<Rightarrow> 'h market \<Rightarrow> 'h order_list \<Rightarrow> bool" where
  "resting_after slot m r \<longleftrightarrow>
     map_of (h_iter E (ol_bids r)) = map_of (h_iter E (ol_bids (mk_resting_limit_orders m))) ++
       map_of (turned (ol_bid_sort_direction (mk_resting_limit_orders m))
         (moving E slot (h_iter E (ol_bids (mk_taking_limit_orders m))))) \<and>
     map_of (h_iter E (ol_asks r)) = map_of (h_iter E (ol_asks (mk_resting_limit_orders m))) ++
       map_of (turned (ol_ask_sort_direction (mk_resting_limit_orders m))
         (moving E slot (h_iter E (ol_asks (mk_taking_limit_orders m))))) \<and>
     ol_order_sigs r = ol_order_sigs (mk_resting_limit_orders m) ++
       (map_option dn_node \<circ> map_of (moving E slot (h_iter E (ol_bids (mk_taking_limit_orders m))))) ++
       (map_option dn_node \<circ> map_of (moving E slot (h_iter E (ol_asks (mk_taking_limit_orders m))))) \<and>
     ol_bid_sort_direction r = ol_bid_sort_direction (mk_resting_limit_orders m) \<and>
     ol_ask_sort_direction r = ol_ask_sort_direction (mk_resting_limit_orders m)"

definition stepped :: "'h market \<Rightarrow> 'h order_list \<Rightarrow> 'h \<Rightarrow> 'h \<Rightarrow> 'h market" where
  "stepped m r nb na = m\<lparr>mk_resting_limit_orders := r,
     mk_taking_limit_orders := (mk_taking_limit_orders m)\<lparr>ol_bids := nb, ol_asks := na\<rparr>\<rparr>"

lemma market_step:
  assumes "update_market_step E slot (ms, na, nb) (i, m) = Inr (ms', na', nb')"
    and "side_ok E db (ol_bids (mk_taking_limit_orders m))"
    and "side_ok E da (ol_asks (mk_taking_limit_orders m))"
  obtains r where "ms' = AList.update i (stepped m r nb' na') ms" and "resting_after slot m r"
    and "map_of (h_iter E nb') = map_of (h_iter E nb) ++
      map_of (staying E slot (h_iter E (ol_bids (mk_taking_limit_orders m))))"
    and "map_of (h_iter E na') = map_of (h_iter E na) ++
      map_of (staying E slot (h_iter E (ol_asks (mk_taking_limit_orders m))))"
proof -
  from assms(1) obtain r1 r where
    b: "foldE (taking_bid_step E slot) (mk_resting_limit_orders m, nb)
       (h_iter E (ol_bids (mk_taking_limit_orders m))) = Inr (r1, nb')" and
    a: "foldE (taking_ask_step E slot) (r1, na)
       (h_iter E (ol_asks (mk_taking_limit_orders m))) = Inr (r, na')" and
    ms': "ms' = AList.update i (stepped m r nb' na') ms"
    by (auto simp: update_market_step_def Let_def returns stepped_def)
  from bid_fold [OF b keys_ok_iter [OF assms(2)]] ask_fold [OF a keys_ok_iter [OF assms(3)]]
  show ?thesis by (intro that [OF ms']) (simp_all add: resting_after_def)
qed

section \<open>The invariant\<close>

text \<open>A property of every entry of a heap; well-formedness and the node types are such properties.\<close>

definition all_entries :: "(string \<Rightarrow> directional_node \<Rightarrow> bool) \<Rightarrow> 'h \<Rightarrow> bool" where
  "all_entries Q h \<longleftrightarrow> (\<forall>k dn. map_of (h_iter E h) k = Some dn \<longrightarrow> Q k dn)"

definition entry_ok :: "sort_direction \<Rightarrow> node_type set \<Rightarrow> string \<Rightarrow> directional_node \<Rightarrow> bool" where
  "entry_ok d T k dn \<longleftrightarrow> dn_sort_direction dn = d \<and>
     (\<exists>n. dn_node dn = OrderNode n \<and> k = node_sig E n \<and> on_node_type n \<in> T)"

lemma all_entries_add:
  assumes "map_of (h_iter E h') = map_of (h_iter E h) ++ map_of es" and "all_entries Q h"
    and "\<And>k dn. (k, dn) \<in> set es \<Longrightarrow> Q k dn"
  shows "all_entries Q h'"
  using assms unfolding all_entries_def
  by (auto simp: map_add_Some_iff dest: map_of_SomeD)

lemma all_entries_set: "all_entries Q h \<Longrightarrow> (k, dn) \<in> set (h_iter E h) \<Longrightarrow> Q k dn"
  by (simp add: all_entries_def heap.iter_mem)

lemma nodes_all_iff: "(\<forall>node\<in>#nodes E h. P node) \<longleftrightarrow> all_entries (\<lambda>_ dn. P (dn_node dn)) h"
  unfolding all_entries_def heap.iter_mem [symmetric] by (auto simp: nodes_def)

lemma list_ok_entries:
  "(orderlist_ok E ol \<and> list_types_ok E t ol \<and>
     (ol_bid_sort_direction ol, ol_ask_sort_direction ol) = (db, da)) \<longleftrightarrow>
   (all_entries (entry_ok db (allowed_types t)) (ol_bids ol) \<and>
    all_entries (entry_ok da (allowed_types t)) (ol_asks ol) \<and>
    (\<forall>k node. ol_order_sigs ol k = Some node \<longrightarrow> (\<exists>n. node = OrderNode n \<and> k = node_sig E n)) \<and>
    ol_bid_sort_direction ol = db \<and> ol_ask_sort_direction ol = da)"
proof -
  have *: "side_ok E d h \<and> (\<forall>node\<in>#nodes E h. get_node_type node \<in> T) \<longleftrightarrow> all_entries (entry_ok d T) h"
    for d h T
    unfolding nodes_all_iff side_ok_def all_entries_def entry_ok_def by fastforce
  show ?thesis
    unfolding * [symmetric] orderlist_ok_def list_types_ok_def by (auto simp: ball_Un)
qed

lemma market_ok_lists:
  assumes "book_market_ok E m"
  shows "all_entries (entry_ok Ascending {node_type.TakingLimit}) (ol_bids (mk_taking_limit_orders m))"
    and "all_entries (entry_ok Ascending {node_type.TakingLimit}) (ol_asks (mk_taking_limit_orders m))"
    and "side_ok E Ascending (ol_bids (mk_taking_limit_orders m))"
    and "side_ok E Ascending (ol_asks (mk_taking_limit_orders m))"
proof -
  have "get_order_list_for_node_type node_type.TakingLimit m = Inr (mk_taking_limit_orders m)"
    by (simp add: get_order_list_for_node_type_def)
  with assms have o: "orderlist_ok E (mk_taking_limit_orders m) \<and>
      list_types_ok E node_type.TakingLimit (mk_taking_limit_orders m) \<and>
      (ol_bid_sort_direction (mk_taking_limit_orders m),
       ol_ask_sort_direction (mk_taking_limit_orders m)) = (Ascending, Ascending)"
    unfolding book_market_ok_def by (fastforce simp: list_directions_def)
  then show "side_ok E Ascending (ol_bids (mk_taking_limit_orders m))"
    "side_ok E Ascending (ol_asks (mk_taking_limit_orders m))" by (auto simp: orderlist_ok_def)
  from o show "all_entries (entry_ok Ascending {node_type.TakingLimit}) (ol_bids (mk_taking_limit_orders m))"
    "all_entries (entry_ok Ascending {node_type.TakingLimit}) (ol_asks (mk_taking_limit_orders m))"
    unfolding list_ok_entries by (simp_all add: allowed_types_def)
qed

lemma market_ok_list:
  assumes "book_market_ok E m" and "get_order_list_for_node_type t m = Inr ol"
    and "list_directions t = (db, da)"
  shows "orderlist_ok E ol \<and> list_types_ok E t ol \<and>
    (ol_bid_sort_direction ol, ol_ask_sort_direction ol) = (db, da)"
  using assms unfolding book_market_ok_def by fastforce

lemma resting_after_ok:
  assumes m: "book_market_ok E m" and r: "resting_after slot m r"
  shows "orderlist_ok E r \<and> list_types_ok E node_type.RestingLimit r \<and>
    (ol_bid_sort_direction r, ol_ask_sort_direction r) = (Descending, Ascending)"
proof -
  note taking = market_ok_lists [OF m]
  let ?R = "mk_resting_limit_orders m"
  have "get_order_list_for_node_type node_type.RestingLimit m = Inr ?R"
    "list_directions node_type.RestingLimit = (Descending, Ascending)"
    by (simp_all add: get_order_list_for_node_type_def list_directions_def)
  note rest = market_ok_list [OF m this, unfolded list_ok_entries]
  from rest have dirs: "ol_bid_sort_direction ?R = Descending" "ol_ask_sort_direction ?R = Ascending"
    by blast+
  note r' = r [unfolded resting_after_def dirs]
  have turn: "entry_ok d (allowed_types node_type.RestingLimit) k (directional_node_new (dn_node dn) d)"
    if "entry_ok Ascending {node_type.TakingLimit} k dn" for d k dn
    using that by (auto simp: entry_ok_def directional_node_new_def allowed_types_def)
  have turned: "entry_ok d (allowed_types node_type.RestingLimit) k dn"
    if "(k, dn) \<in> set (turned d (moving E slot (h_iter E h)))"
      "all_entries (entry_ok Ascending {node_type.TakingLimit}) h" for d k dn h
    using that all_entries_set [OF that(2)] by (auto simp: turned_def moving_def intro!: turn)
  have moved: "\<exists>n. node = OrderNode n \<and> k = node_sig E n"
    if "map_option dn_node (map_of (moving E slot (h_iter E h)) k) = Some node"
      "all_entries (entry_ok Ascending {node_type.TakingLimit}) h" for h k node
    using that(1) all_entries_set [OF that(2)]
    by (fastforce simp: moving_def entry_ok_def dest: map_of_SomeD)
  have "all_entries (entry_ok Descending (allowed_types node_type.RestingLimit)) (ol_bids r)"
    using rest r' turned [OF _ taking(1)] by (elim conjE) (rule all_entries_add)
  moreover have "all_entries (entry_ok Ascending (allowed_types node_type.RestingLimit)) (ol_asks r)"
    using rest r' turned [OF _ taking(2)] by (elim conjE) (rule all_entries_add)
  moreover have "\<exists>n. node = OrderNode n \<and> k = node_sig E n" if "ol_order_sigs r k = Some node" for k node
    using that rest r' moved [OF _ taking(1)] moved [OF _ taking(2)]
    by (elim conjE) (simp only: map_add_Some_iff comp_apply, metis)
  ultimately show ?thesis
    unfolding list_ok_entries using r' by simp
qed

lemma stepped_ok:
  assumes m: "book_market_ok E m" and r: "resting_after slot m r"
    and nb: "all_entries (entry_ok Ascending {node_type.TakingLimit}) nb"
    and na: "all_entries (entry_ok Ascending {node_type.TakingLimit}) na"
  shows "book_market_ok E (stepped m r nb na)"
  unfolding book_market_ok_def
proof (intro allI impI)
  fix t ol assume g: "get_order_list_for_node_type t (stepped m r nb na) = Inr ol"
  have taking: "orderlist_ok E ol' \<and> list_types_ok E node_type.TakingLimit ol' \<and>
      (ol_bid_sort_direction ol', ol_ask_sort_direction ol') = (Ascending, Ascending)"
    if "ol' = (mk_taking_limit_orders m)\<lparr>ol_bids := nb, ol_asks := na\<rparr>" for ol'
    using market_ok_list [OF m, of node_type.TakingLimit "mk_taking_limit_orders m" Ascending Ascending]
      nb na unfolding list_ok_entries that
    by (simp add: get_order_list_for_node_type_def list_directions_def allowed_types_def)
  show "orderlist_ok E ol \<and> list_types_ok E t ol \<and>
      (ol_bid_sort_direction ol, ol_ask_sort_direction ol) = list_directions t"
  proof (cases "t = node_type.RestingLimit \<or> t = node_type.TakingLimit")
    case True
    with g resting_after_ok [OF m r] taking show ?thesis
      by (auto simp: get_order_list_for_node_type_def list_directions_def stepped_def)
  next
    case False
    with g have "get_order_list_for_node_type t m = Inr ol"
      by (cases t) (simp_all add: get_order_list_for_node_type_def stepped_def)
    with m show ?thesis unfolding book_market_ok_def by blast
  qed
qed

text \<open>The heaps carried from market to market and the markets written back stay well formed.\<close>

definition carried_ok :: "'h markets \<times> 'h \<times> 'h \<Rightarrow> bool" where
  "carried_ok = (\<lambda>(ms, na, nb). distinct (map fst ms) \<and> (\<forall>m\<in>snd ` set ms. book_market_ok E m) \<and>
     all_entries (entry_ok Ascending {node_type.TakingLimit}) na \<and>
     all_entries (entry_ok Ascending {node_type.TakingLimit}) nb)"

lemma step_carried_ok:
  assumes "update_market_step E slot s e = Inr s'" and "carried_ok s" and "book_market_ok E (snd e)"
  shows "carried_ok s'"
proof -
  obtain ms na nb i m ms' na' nb' where e: "s = (ms, na, nb)" "e = (i, m)" "s' = (ms', na', nb')"
    by (metis prod_cases3 surj_pair)
  have m: "book_market_ok E m" using assms(3) e by simp
  note taking = market_ok_lists [OF m]
  from market_step [OF assms(1) [unfolded e] taking(3,4)] obtain r where
    ms': "ms' = AList.update i (stepped m r nb' na') ms" and r: "resting_after slot m r" and
    nb': "map_of (h_iter E nb') = map_of (h_iter E nb) ++
      map_of (staying E slot (h_iter E (ol_bids (mk_taking_limit_orders m))))" and
    na': "map_of (h_iter E na') = map_of (h_iter E na) ++
      map_of (staying E slot (h_iter E (ol_asks (mk_taking_limit_orders m))))" by blast
  have "all_entries (entry_ok Ascending {node_type.TakingLimit}) nb'"
    using assms(2) all_entries_set [OF taking(1)]
    by (intro all_entries_add [OF nb']) (auto simp: e carried_ok_def staying_def)
  moreover have "all_entries (entry_ok Ascending {node_type.TakingLimit}) na'"
    using assms(2) all_entries_set [OF taking(2)]
    by (intro all_entries_add [OF na']) (auto simp: e carried_ok_def staying_def)
  moreover have ms: "\<forall>m\<in>snd ` set ms. book_market_ok E m" "distinct (map fst ms)"
    using assms(2) unfolding e carried_ok_def by blast+
  moreover have "\<forall>m\<in>snd ` set ms'. book_market_ok E m"
    unfolding ms' by (rule all_update [OF ms(1) stepped_ok [OF m r]]) fact+
  moreover have "distinct (map fst ms')"
    unfolding ms' using ms(2) by (simp add: distinct_update)
  ultimately show ?thesis
    unfolding e carried_ok_def by blast
qed

lemma all_entries_new: "all_entries Q (h_new E)"
  by (simp add: all_entries_def heap.iter_new)

lemma update_typeE:
  assumes "update_resting_limit_orders_for_market_type E slot t D = Inr D'"
  obtains ms na nb where "foldE (update_market_step E slot)
      (markets_of t (dl_exchange D), h_new E, h_new E) (markets_of t (dl_exchange D)) = Inr (ms, na, nb)"
    and "D' = D\<lparr>dl_exchange := set_markets t ms (dl_exchange D)\<rparr>"
  using assms unfolding update_resting_limit_orders_for_market_type_def Let_def bindE_Inr_iff
  by (auto simp del: dlob.simps)

lemma update_type_ok:
  assumes "dlob_ok E D" and "update_resting_limit_orders_for_market_type E slot t D = Inr D'"
  shows "dlob_ok E D'"
proof -
  let ?ms = "markets_of t (dl_exchange D)"
  from assms(2) obtain ms na nb where f: "foldE (update_market_step E slot) (?ms, h_new E, h_new E) ?ms =
      Inr (ms, na, nb)" and D': "D' = D\<lparr>dl_exchange := set_markets t ms (dl_exchange D)\<rparr>"
    by (rule update_typeE)
  have ok: "distinct (map fst ?ms)" "\<forall>m\<in>snd ` set ?ms. book_market_ok E m"
    using assms(1) unfolding dlob_ok_def by blast+
  have "carried_ok (?ms, h_new E, h_new E)"
    unfolding carried_ok_def prod.case using ok all_entries_new by blast
  have "carried_ok (ms, na, nb)"
    by (rule foldE_inv [where P = carried_ok, OF f \<open>carried_ok (?ms, h_new E, h_new E)\<close>])
       (use step_carried_ok ok(2) in blast)
  with assms(1) show ?thesis by (simp add: dlob_ok_def carried_ok_def D')
qed

lemma update_ok:
  assumes "dlob_ok E D" and "update_resting_limit_orders E slot D = Inr D'"
  shows "dlob_ok E D'"
proof -
  have "dlob_ok E (D\<lparr>dl_max_slot_for_resting_limit_orders := slot\<rparr>)"
    using assms(1) by (simp add: dlob_ok_def)
  with assms show ?thesis
    by (auto simp: update_resting_limit_orders_def Let_def returns split: if_splits dest: update_type_ok)
qed

section \<open>A single market of a kind\<close>

lemma known_all:
  assumes "side_ok E d h" and "fst ` set (h_iter E h) \<subseteq> dom sigs"
  shows "known_nodes E sigs h = nodes E h"
proof -
  have "is_known E sigs node" if "node \<in># nodes E h" for node
  proof -
    from that obtain dn where "dn \<in># heap.items h" "node = dn_node dn" by (auto simp: nodes_items)
    with side_ok_mem(2) [OF assms(1)] obtain n where n: "node = OrderNode n"
        "map_of (h_iter E h) (node_sig E n) = Some dn" by metis
    then have "node_sig E n \<in> fst ` set (h_iter E h)" by (simp add: fst_iter)
    with n(1) assms(2) show ?thesis by (auto simp: is_known_def)
  qed
  then show ?thesis by (simp add: known_nodes_def filter_mset_eq_conv)
qed

lemma nodes_of_list:
  assumes "map_of (h_iter E h) = map_of es" and "distinct (map fst es)"
  shows "nodes E h = image_mset (\<lambda>e. dn_node (snd e)) (mset es)"
  using mset_of_map [OF heap.distinct_iter assms(2,1)]
  by (simp add: nodes_def multiset.map_comp comp_def)

lemma nodes_list: "nodes E h = mset (map (\<lambda>e. dn_node (snd e)) (h_iter E h))"
  by (simp add: nodes_def multiset.map_comp comp_def)

lemma distinct_filter_keys: "distinct (map fst es) \<Longrightarrow> distinct (map fst (filter P es))"
  by (simp add: distinct_map inj_on_def)

lemma nodes_staying:
  assumes "map_of (h_iter E h') = map_of (staying E slot (h_iter E h))"
  shows "nodes E h' = filter_mset (\<lambda>n. \<not> rests E slot n) (nodes E h)"
  using nodes_of_list [OF assms] heap.distinct_iter [of h] unfolding nodes_list [of h]
  by (simp add: staying_def distinct_filter_keys filter_map comp_def flip: mset_filter mset_map)

lemma nodes_moving:
  assumes "map_of (h_iter E h') = map_of (h_iter E h) ++ map_of (turned d (moving E slot (h_iter E g)))"
    and "fst ` set (h_iter E h) \<inter> fst ` set (h_iter E g) = {}"
  shows "nodes E h' = nodes E h + filter_mset (rests E slot) (nodes E g)"
proof -
  let ?es = "turned d (moving E slot (h_iter E g)) @ h_iter E h"
  have "distinct (map fst (turned d (moving E slot (h_iter E g))))"
    using heap.distinct_iter [of g] distinct_filter_keys
    by (simp add: turned_def moving_def comp_def case_prod_unfold)
  moreover have "fst ` set (turned d (moving E slot (h_iter E g))) \<subseteq> fst ` set (h_iter E g)"
    by (force simp: turned_def moving_def)
  ultimately have "distinct (map fst ?es)"
    using assms(2) heap.distinct_iter [of h] by auto
  with nodes_of_list [of h' ?es] assms(1) have "nodes E h' = image_mset (\<lambda>e. dn_node (snd e)) (mset ?es)"
    by simp
  then show ?thesis
    unfolding nodes_list [of h] nodes_list [of g]
    by (simp add: turned_def moving_def filter_map comp_def case_prod_unfold
        directional_node_new_def flip: mset_filter mset_map)
qed

lemma market_nodes_closed:
  assumes "book_market_ok E m" and "market_closed E m" and "get_order_list_for_node_type t m = Inr ol"
  shows "market_nodes E t st m =
    (case st of sub_type.Bid \<Rightarrow> nodes E (ol_bids ol) | sub_type.Ask \<Rightarrow> nodes E (ol_asks ol) | _ \<Rightarrow> {#})"
proof -
  have "orderlist_ok E ol" using assms(1,3) unfolding book_market_ok_def by blast
  moreover have "orderlist_closed E ol" using assms(2,3) unfolding market_closed_def by blast
  ultimately show ?thesis
    using known_all unfolding orderlist_ok_def orderlist_closed_def
    by (auto simp: market_nodes_def side_nodes_def assms(3) split: sub_type.split)
qed

lemma stepped_closed:
  assumes m: "book_market_ok E m" "market_closed E m" and r: "resting_after slot m r"
    and nb: "fst ` set (h_iter E nb) \<subseteq> fst ` set (h_iter E (ol_bids (mk_taking_limit_orders m)))"
    and na: "fst ` set (h_iter E na) \<subseteq> fst ` set (h_iter E (ol_asks (mk_taking_limit_orders m)))"
  shows "market_closed E (stepped m r nb na)"
proof -
  have lists: "get_order_list_for_node_type node_type.RestingLimit m = Inr (mk_resting_limit_orders m)"
    "get_order_list_for_node_type node_type.TakingLimit m = Inr (mk_taking_limit_orders m)"
    by (simp_all add: get_order_list_for_node_type_def)
  then have closed: "orderlist_closed E (mk_resting_limit_orders m)"
    "orderlist_closed E (mk_taking_limit_orders m)"
    using m(2) unfolding market_closed_def by blast+
  have keys: "fst ` set (turned d es) = fst ` set es" for d es
    by (force simp: turned_def)
  have bids: "fst ` set (h_iter E (ol_bids r)) = fst ` set (h_iter E (ol_bids (mk_resting_limit_orders m))) \<union>
      fst ` set (moving E slot (h_iter E (ol_bids (mk_taking_limit_orders m))))"
    using r unfolding resting_after_def
    by (metis dom_map_add dom_map_of_conv_image_fst keys sup_commute)
  have asks: "fst ` set (h_iter E (ol_asks r)) = fst ` set (h_iter E (ol_asks (mk_resting_limit_orders m))) \<union>
      fst ` set (moving E slot (h_iter E (ol_asks (mk_taking_limit_orders m))))"
    using r unfolding resting_after_def
    by (metis dom_map_add dom_map_of_conv_image_fst keys sup_commute)
  have "orderlist_closed E r"
    using closed(1) r unfolding resting_after_def orderlist_closed_def bids asks
    by (elim conjE) (simp only: dom_map_add dom_map_option_comp dom_map_of_conv_image_fst, blast)
  moreover have "orderlist_closed E ((mk_taking_limit_orders m)\<lparr>ol_bids := nb, ol_asks := na\<rparr>)"
    using closed(2) order_trans [OF nb] order_trans [OF na] by (simp add: orderlist_closed_def)
  moreover have "get_order_list_for_node_type t (stepped m r nb na) = get_order_list_for_node_type t m"
    if "t \<noteq> node_type.RestingLimit" "t \<noteq> node_type.TakingLimit" for t
    using that by (cases t) (simp_all add: get_order_list_for_node_type_def stepped_def)
  moreover have "get_order_list_for_node_type node_type.RestingLimit (stepped m r nb na) = Inr r"
    "get_order_list_for_node_type node_type.TakingLimit (stepped m r nb na) =
      Inr ((mk_taking_limit_orders m)\<lparr>ol_bids := nb, ol_asks := na\<rparr>)"
    by (simp_all add: get_order_list_for_node_type_def stepped_def)
  ultimately show ?thesis
    using m(2) unfolding market_closed_def by (metis sum.inject(2))
qed

lemma stepped_nodes:
  assumes m: "book_market_ok E m" "market_closed E m" "sides_disjoint E m" and r: "resting_after slot m r"
    and nb: "map_of (h_iter E nb) = map_of (staying E slot (h_iter E (ol_bids (mk_taking_limit_orders m))))"
    and na: "map_of (h_iter E na) = map_of (staying E slot (h_iter E (ol_asks (mk_taking_limit_orders m))))"
    and ok: "book_market_ok E (stepped m r nb na)" "market_closed E (stepped m r nb na)"
  shows "market_nodes E nt st (stepped m r nb na) =
    (case nt of
       node_type.TakingLimit \<Rightarrow>
         filter_mset (\<lambda>n. \<not> rests E slot n) (market_nodes E node_type.TakingLimit st m)
     | node_type.RestingLimit \<Rightarrow> market_nodes E node_type.RestingLimit st m +
         filter_mset (rests E slot) (market_nodes E node_type.TakingLimit st m)
     | _ \<Rightarrow> market_nodes E nt st m)"
proof -
  have lists: "get_order_list_for_node_type node_type.RestingLimit m = Inr (mk_resting_limit_orders m)"
    "get_order_list_for_node_type node_type.TakingLimit m = Inr (mk_taking_limit_orders m)"
    "get_order_list_for_node_type node_type.RestingLimit (stepped m r nb na) = Inr r"
    "get_order_list_for_node_type node_type.TakingLimit (stepped m r nb na) =
      Inr ((mk_taking_limit_orders m)\<lparr>ol_bids := nb, ol_asks := na\<rparr>)"
    by (simp_all add: get_order_list_for_node_type_def stepped_def)
  note old = market_nodes_closed [OF m(1,2) lists(1)] market_nodes_closed [OF m(1,2) lists(2)]
  note new = market_nodes_closed [OF ok lists(3)] market_nodes_closed [OF ok lists(4)]
  from r m(3) have rb: "nodes E (ol_bids r) = nodes E (ol_bids (mk_resting_limit_orders m)) +
      filter_mset (rests E slot) (nodes E (ol_bids (mk_taking_limit_orders m)))"
    unfolding resting_after_def sides_disjoint_def by (elim conjE) (rule nodes_moving)
  from r m(3) have ra: "nodes E (ol_asks r) = nodes E (ol_asks (mk_resting_limit_orders m)) +
      filter_mset (rests E slot) (nodes E (ol_asks (mk_taking_limit_orders m)))"
    unfolding resting_after_def sides_disjoint_def by (elim conjE) (rule nodes_moving)
  have other: "market_nodes E nt st (stepped m r nb na) = market_nodes E nt st m"
    if "nt \<noteq> node_type.RestingLimit" "nt \<noteq> node_type.TakingLimit"
    using that by (cases nt) (simp_all add: market_nodes_def get_order_list_for_node_type_def stepped_def)
  show ?thesis
    using other by (cases nt; cases st)
      (simp_all add: old new rb ra nodes_staying [OF nb] nodes_staying [OF na])
qed

lemma update_single_market:
  assumes m: "book_market_ok E m" "market_closed E m" "sides_disjoint E m"
    and step: "update_market_step E slot ([(j, m)], h_new E, h_new E) (j, m) = Inr (ms, na, nb)"
  shows "\<exists>m'. ms = [(j, m')] \<and> market_closed E m' \<and> (\<forall>nt st. market_nodes E nt st m' =
    (case nt of
       node_type.TakingLimit \<Rightarrow>
         filter_mset (\<lambda>n. \<not> rests E slot n) (market_nodes E node_type.TakingLimit st m)
     | node_type.RestingLimit \<Rightarrow> market_nodes E node_type.RestingLimit st m +
         filter_mset (rests E slot) (market_nodes E node_type.TakingLimit st m)
     | _ \<Rightarrow> market_nodes E nt st m))"
proof -
  note taking = market_ok_lists [OF m(1)]
  from market_step [OF step taking(3,4)] obtain r where
    ms: "ms = AList.update j (stepped m r nb na) [(j, m)]" and r: "resting_after slot m r" and
    nb: "map_of (h_iter E nb) = map_of (h_iter E (h_new E)) ++
      map_of (staying E slot (h_iter E (ol_bids (mk_taking_limit_orders m))))" and
    na: "map_of (h_iter E na) = map_of (h_iter E (h_new E)) ++
      map_of (staying E slot (h_iter E (ol_asks (mk_taking_limit_orders m))))" by blast
  note nb = nb [simplified heap.iter_new map_of.simps map_add_empty empty_map_add]
  note na = na [simplified heap.iter_new map_of.simps map_add_empty empty_map_add]
  have "all_entries (entry_ok Ascending {node_type.TakingLimit}) nb"
    using nb all_entries_set [OF taking(1)]
    by (intro all_entries_add [of nb "h_new E"]) (auto simp: heap.iter_new all_entries_new staying_def)
  moreover have "all_entries (entry_ok Ascending {node_type.TakingLimit}) na"
    using na all_entries_set [OF taking(2)]
    by (intro all_entries_add [of na "h_new E"]) (auto simp: heap.iter_new all_entries_new staying_def)
  ultimately have ok: "book_market_ok E (stepped m r nb na)" by (rule stepped_ok [OF m(1) r])
  have "fst ` set (h_iter E nb) = fst ` set (staying E slot (h_iter E (ol_bids (mk_taking_limit_orders m))))"
    "fst ` set (h_iter E na) = fst ` set (staying E slot (h_iter E (ol_asks (mk_taking_limit_orders m))))"
    using nb na by (metis dom_map_of_conv_image_fst)+
  then have "market_closed E (stepped m r nb na)"
    by (intro stepped_closed [OF m(1,2) r]) (auto simp: staying_def)
  with stepped_nodes [OF m r nb na ok this] ms show ?thesis by auto
qed

end

text \<open>What the update does to the abstract book, for the markets of one kind.\<close>

definition resting_moved :: "(node \<Rightarrow> bool) \<Rightarrow> market_type \<Rightarrow>
    (market_type \<Rightarrow> u16 \<Rightarrow> node_type \<Rightarrow> sub_type \<Rightarrow> node multiset) \<Rightarrow>
    market_type \<Rightarrow> u16 \<Rightarrow> node_type \<Rightarrow> sub_type \<Rightarrow> node multiset" where
  "resting_moved P t B t' i nt st =
     (if t' \<noteq> t then B t' i nt st
      else case nt of
        node_type.TakingLimit \<Rightarrow> filter_mset (\<lambda>n. \<not> P n) (B t i node_type.TakingLimit st)
      | node_type.RestingLimit \<Rightarrow> B t i node_type.RestingLimit st +
          filter_mset P (B t i node_type.TakingLimit st)
      | _ \<Rightarrow> B t i nt st)"

context dlob_env
begin

lemma update_single:
  assumes ok: "dlob_ok E D" "dlob_closed E D"
    and one: "length (markets_of t (dl_exchange D)) \<le> 1"
    and disjoint: "\<forall>m\<in>snd ` set (markets_of t (dl_exchange D)). sides_disjoint E m"
    and upd: "update_resting_limit_orders_for_market_type E slot t D = Inr D'"
  shows "book_nodes E D' = resting_moved (rests E slot) t (book_nodes E D)"
    and "dlob_closed E D'"
    and "t' \<noteq> t \<Longrightarrow> markets_of t' (dl_exchange D') = markets_of t' (dl_exchange D)"
proof -
  from upd obtain ms na nb where f: "foldE (update_market_step E slot)
      (markets_of t (dl_exchange D), h_new E, h_new E) (markets_of t (dl_exchange D)) = Inr (ms, na, nb)"
    and D': "D' = D\<lparr>dl_exchange := set_markets t ms (dl_exchange D)\<rparr>" by (rule update_typeE)
  show "t' \<noteq> t \<Longrightarrow> markets_of t' (dl_exchange D') = markets_of t' (dl_exchange D)"
    by (simp add: D')
  have other: "book_nodes E D' t' i nt st = book_nodes E D t' i nt st" if "t' \<noteq> t" for t' i nt st
    using that by (simp add: book_nodes_def D')
  consider (none) "markets_of t (dl_exchange D) = []"
    | (single) j m where "markets_of t (dl_exchange D) = [(j, m)]"
    using one by (cases "markets_of t (dl_exchange D)") auto
  then have "(\<forall>i nt st. book_nodes E D' t i nt st = resting_moved (rests E slot) t (book_nodes E D) t i nt st) \<and>
      dlob_closed E D'"
  proof cases
    case none
    with f ok(2) show ?thesis
      by (auto simp: D' book_nodes_def dlob_closed_def resting_moved_def split: node_type.split)
  next
    case single
    have m: "book_market_ok E m" "market_closed E m" "sides_disjoint E m"
      using ok disjoint single unfolding dlob_ok_def dlob_closed_def
      by (metis image_eqI list.set_intros(1) snd_conv)+
    from f have "update_market_step E slot ([(j, m)], h_new E, h_new E) (j, m) = Inr (ms, na, nb)"
      by (simp add: single bindE_def split: sum.splits)
    from update_single_market [OF m this] obtain m' where m': "ms = [(j, m')]" "market_closed E m'"
      "\<And>nt st. market_nodes E nt st m' = (case nt of
         node_type.TakingLimit \<Rightarrow>
           filter_mset (\<lambda>n. \<not> rests E slot n) (market_nodes E node_type.TakingLimit st m)
       | node_type.RestingLimit \<Rightarrow> market_nodes E node_type.RestingLimit st m +
           filter_mset (rests E slot) (market_nodes E node_type.TakingLimit st m)
       | _ \<Rightarrow> market_nodes E nt st m)" by blast
    have "book_nodes E D' t i nt st = resting_moved (rests E slot) t (book_nodes E D) t i nt st" for i nt st
      by (cases nt) (simp_all add: book_nodes_def D' m' single resting_moved_def)
    moreover have "dlob_closed E D'"
      using ok(2) m'(2) by (simp add: dlob_closed_def D' m'(1))
    ultimately show ?thesis by blast
  qed
  with other show "book_nodes E D' = resting_moved (rests E slot) t (book_nodes E D)" "dlob_closed E D'"
    by (auto simp: fun_eq_iff resting_moved_def)
qed

lemma update_both:
  assumes ok: "dlob_ok E D" "dlob_closed E D"
    and one: "\<forall>t. length (markets_of t (dl_exchange D)) \<le> 1"
    and disjoint: "\<forall>t. \<forall>m\<in>snd ` set (markets_of t (dl_exchange D)). sides_disjoint E m"
    and slot: "dl_max_slot_for_resting_limit_orders D < slot"
    and upd: "update_resting_limit_orders E slot D = Inr D'"
  shows "book_nodes E D' = resting_moved (rests E slot) market_type.Spot
    (resting_moved (rests E slot) market_type.Perp (book_nodes E D))"
proof -
  let ?D = "D\<lparr>dl_max_slot_for_resting_limit_orders := slot\<rparr>"
  from upd slot obtain D1 where
    D1: "update_resting_limit_orders_for_market_type E slot market_type.Perp ?D = Inr D1" and
    D': "update_resting_limit_orders_for_market_type E slot market_type.Spot D1 = Inr D'"
    using slot [folded not_le] by (auto simp: update_resting_limit_orders_def Let_def returns)
  have ok': "dlob_ok E ?D" "dlob_closed E ?D" "book_nodes E ?D = book_nodes E D"
    using ok by (simp_all add: dlob_ok_def dlob_closed_def book_nodes_def fun_eq_iff)
  have h: "length (markets_of t (dl_exchange ?D)) \<le> 1"
    "\<forall>m\<in>snd ` set (markets_of t (dl_exchange ?D)). sides_disjoint E m" for t
    using one disjoint by auto
  note perp = update_single [OF ok'(1,2) h D1]
  have spot: "markets_of market_type.Spot (dl_exchange D1) = markets_of market_type.Spot (dl_exchange ?D)"
    by (rule perp(3)) simp
  have "book_nodes E D' = resting_moved (rests E slot) market_type.Spot (book_nodes E D1)"
    using h [of market_type.Spot]
    by (intro update_single(1) [OF update_type_ok [OF ok'(1) D1] perp(2) _ _ D']) (simp_all only: spot)
  with perp(1) ok'(3) show ?thesis by simp
qed

section \<open>Several markets of a kind\<close>

lemma step_others:
  assumes "update_market_step E slot s (i, m) = Inr s'" and "j \<noteq> i"
  shows "map_of (fst s') j = map_of (fst s) j"
  using assms by (cases s) (auto simp: update_market_step_def Let_def returns update_conv')

lemma fold_others:
  assumes "foldE (update_market_step E slot) s es = Inr s'" and "j \<notin> fst ` set es"
  shows "map_of (fst s') j = map_of (fst s) j"
  using assms
proof (induction es arbitrary: s)
  case (Cons e es)
  then obtain s1 where s1: "update_market_step E slot s e = Inr s1"
      "foldE (update_market_step E slot) s1 es = Inr s'"
    by (cases "update_market_step E slot s e") auto
  with Cons.IH [OF s1(2)] Cons.prems(2) step_others [of slot s "fst e" "snd e" s1 j] show ?case by auto
qed simp

lemma update_second_market:
  assumes ok: "dlob_ok E D"
    and ms: "markets_of t (dl_exchange D) = (i, m) # (j, m') # rest"
    and upd: "update_resting_limit_orders_for_market_type E slot t D = Inr D'"
  shows "\<exists>m''. map_of (markets_of t (dl_exchange D')) j = Some m'' \<and>
    map_of (h_iter E (ol_bids (mk_taking_limit_orders m''))) =
      map_of (staying E slot (h_iter E (ol_bids (mk_taking_limit_orders m)))) ++
      map_of (staying E slot (h_iter E (ol_bids (mk_taking_limit_orders m'))))"
proof -
  have oks: "book_market_ok E m" "book_market_ok E m'" and dist: "j \<notin> fst ` set rest"
  proof -
    from ok have "distinct (map fst (markets_of t (dl_exchange D))) \<and>
        (\<forall>m\<in>snd ` set (markets_of t (dl_exchange D)). book_market_ok E m)"
      unfolding dlob_ok_def by blast
    then show "book_market_ok E m" "book_market_ok E m'" "j \<notin> fst ` set rest"
      unfolding ms by auto
  qed
  from upd obtain ms' na nb where f: "foldE (update_market_step E slot)
      (markets_of t (dl_exchange D), h_new E, h_new E) ((i, m) # (j, m') # rest) = Inr (ms', na, nb)"
    and D': "D' = D\<lparr>dl_exchange := set_markets t ms' (dl_exchange D)\<rparr>"
    using ms by (metis update_typeE)
  from f obtain ms1 na1 nb1 ms2 na2 nb2 where
    s1: "update_market_step E slot (markets_of t (dl_exchange D), h_new E, h_new E) (i, m) = Inr (ms1, na1, nb1)" and
    s2: "update_market_step E slot (ms1, na1, nb1) (j, m') = Inr (ms2, na2, nb2)" and
    s3: "foldE (update_market_step E slot) (ms2, na2, nb2) rest = Inr (ms', na, nb)"
    by (auto simp: bindE_Inr_iff)
  from market_step [OF s1 market_ok_lists(3,4) [OF oks(1)]] have
    nb1: "map_of (h_iter E nb1) = map_of (h_iter E (h_new E)) ++
      map_of (staying E slot (h_iter E (ol_bids (mk_taking_limit_orders m))))" by blast
  from market_step [OF s2 market_ok_lists(3,4) [OF oks(2)]] obtain r where
    ms2: "ms2 = AList.update j (stepped m' r nb2 na2) ms1" and
    nb2: "map_of (h_iter E nb2) = map_of (h_iter E nb1) ++
      map_of (staying E slot (h_iter E (ol_bids (mk_taking_limit_orders m'))))" by blast
  have "map_of ms' j = Some (stepped m' r nb2 na2)"
    using fold_others [OF s3 dist] by (simp add: ms2 update_conv')
  then show ?thesis
    by (simp add: D' nb2 nb1 heap.iter_new stepped_def)
qed

end

section \<open>Properties\<close>

text \<open>
  C2. Where there is at most one market of each kind, the update refines moving the orders that rest
  from the taking lists to the resting lists: in the abstract book exactly the orders that rest at
  the slot change place, they keep their side, and everything else stays where it is.
\<close>

theorem update_resting_refines:
  assumes "dlob_env E" and "dlob_ok E D" and "dlob_closed E D"
    and "\<forall>t. length (markets_of t (dl_exchange D)) \<le> 1"
    and "\<forall>t. \<forall>m\<in>snd ` set (markets_of t (dl_exchange D)). sides_disjoint E m"
    and "dl_max_slot_for_resting_limit_orders D < slot"
    and "update_resting_limit_orders E slot D = Inr D'"
  shows "book_nodes E D' = resting_moved (rests E slot) market_type.Spot
    (resting_moved (rests E slot) market_type.Perp (book_nodes E D))"
  using assms by (rule dlob_env.update_both)

text \<open>
  The update keeps the book well formed, whatever markets it has.
\<close>

theorem update_resting_keeps_ok:
  assumes "dlob_env E" and "dlob_ok E D" and "update_resting_limit_orders E slot D = Inr D'"
  shows "dlob_ok E D'"
  using assms by (rule dlob_env.update_ok)

text \<open>
  C32. With a second market of the same kind the update goes wrong: the bids of the first market that
  do not rest are among the taking bids of the second market afterwards, because the heaps that
  collect them are not emptied between markets.
\<close>

theorem update_resting_leaks:
  assumes "dlob_env E" and "dlob_ok E D"
    and "markets_of t (dl_exchange D) = (i, m) # (j, m') # rest"
    and "map_of (h_iter E (ol_bids (mk_taking_limit_orders m))) sig = Some dn"
    and "\<not> rests E slot (dn_node dn)"
    and "update_resting_limit_orders_for_market_type E slot t D = Inr D'"
  shows "\<exists>m''. map_of (markets_of t (dl_exchange D')) j = Some m'' \<and>
    map_of (h_iter E (ol_bids (mk_taking_limit_orders m''))) sig \<noteq> None"
proof -
  have "(sig, dn) \<in> set (staying E slot (h_iter E (ol_bids (mk_taking_limit_orders m))))"
    using assms(4,5) by (auto simp: staying_def dest: map_of_SomeD)
  then have "map_of (staying E slot (h_iter E (ol_bids (mk_taking_limit_orders m)))) sig \<noteq> None"
    using weak_map_of_SomeI by fastforce
  with dlob_env.update_second_market [OF assms(1-3,6)] show ?thesis
    by (auto simp: map_add_def split: option.splits)
qed

text \<open>
  Updating twice for one slot, or for an earlier slot afterwards, changes nothing more.
\<close>

theorem update_resting_idempotent:
  assumes "update_resting_limit_orders E slot D = Inr D'" and "slot' \<le> slot"
  shows "update_resting_limit_orders E slot' D' = Inr D'"
proof -
  have "slot \<le> dl_max_slot_for_resting_limit_orders D'"
    using assms(1)
    by (auto simp: update_resting_limit_orders_def update_resting_limit_orders_for_market_type_def
        Let_def returns split: if_splits)
  from order_trans [OF assms(2) this] show ?thesis by (simp add: update_resting_limit_orders_def)
qed

lemma sample_disjoint: "\<forall>t. \<forall>m\<in>snd ` set (markets_of t (dl_exchange sample_book)). sides_disjoint list_env m"
proof
  fix t show "\<forall>m\<in>snd ` set (markets_of t (dl_exchange sample_book)). sides_disjoint list_env m"
    by (cases t) (simp_all add: sides_disjoint_def orderlist_new_def)
qed

theorem update_resting_refines_witness:
  "\<exists>D'. update_resting_limit_orders list_env 200 sample_book = Inr D' \<and>
     book_nodes list_env D' market_type.Perp 0 node_type.TakingLimit sub_type.Bid = {#} \<and>
     sample_node \<in># book_nodes list_env D' market_type.Perp 0 node_type.RestingLimit sub_type.Bid"
proof -
  obtain D' where D': "update_resting_limit_orders list_env 200 sample_book = Inr D'"
    using sample_updated by blast
  have "dl_max_slot_for_resting_limit_orders sample_book < 200"
    by (simp add: sample_book_def dlob_new_def)
  from update_resting_refines [OF list_book.dlob_env_axioms sample_book_ok sample_single sample_disjoint
      this D'] D' sample_taking
  show ?thesis by (simp add: resting_moved_def rests_def sample_rests)
qed

theorem update_resting_keeps_ok_witness:
  "\<exists>D'. update_resting_limit_orders list_env 200 sample_book = Inr D' \<and> dlob_ok list_env D'"
  using sample_updated [of 200]
    update_resting_keeps_ok [OF list_book.dlob_env_axioms sample_book_ok(1)] by blast

theorem update_resting_leaks_witness:
  "\<exists>D' m''. update_resting_limit_orders_for_market_type list_env 105 market_type.Perp two_markets = Inr D' \<and>
     map_of (markets_of market_type.Perp (dl_exchange D')) 1 = Some m'' \<and>
     map_of (h_iter list_env (ol_bids (mk_taking_limit_orders m''))) sample_sig \<noteq> None"
proof -
  obtain D' where D': "update_resting_limit_orders_for_market_type list_env 105 market_type.Perp
      two_markets = Inr D'" using two_markets_updated by blast
  have "map_of (h_iter list_env (ol_bids (mk_taking_limit_orders sample_market))) sample_sig =
      Some (directional_node_new sample_node Ascending)" by simp
  moreover have "\<not> rests list_env 105 (dn_node (directional_node_new sample_node Ascending))"
    by (simp add: rests_def directional_node_new_def sample_rests)
  ultimately show ?thesis
    using update_resting_leaks [OF list_book.dlob_env_axioms two_markets_ok two_markets_simps(1) _ _ D'] D'
    by blast
qed

theorem update_resting_idempotent_witness:
  "\<exists>D'. update_resting_limit_orders list_env 200 sample_book = Inr D' \<and>
     update_resting_limit_orders list_env 150 D' = Inr D'"
  using sample_updated [of 200] update_resting_idempotent [of list_env 200 sample_book _ 150] by auto

end
