(* ===== verification/Dlob_Listing.thy ===== *)
theory Dlob_Listing
  imports Dlob_Resting
begin

text \<open>
  The lists the book gives out: the nodes of a place in the order of its heap, the resting orders by
  price, the taking orders by slot, and the orders to trigger.
\<close>

section \<open>The nodes of one place\<close>

definition side_direction :: "sub_type \<Rightarrow> node_type \<Rightarrow> sort_direction" where
  "side_direction st nt = (if st = sub_type.Bid then fst else snd) (list_directions nt)"

context dlob_env
begin

lemma drain_list:
  assumes "orderlist_ok E ol"
  shows "\<exists>xs. drain (h_len E (ol_bids ol)) (bids_empty E) (get_best_bid E) ol = Inr xs \<and>
      mset xs = side_nodes E sub_type.Bid ol \<and> sorted_wrt (node_before (ol_bid_sort_direction ol)) xs"
    and "\<exists>xs. drain (h_len E (ol_asks ol)) (asks_empty E) (get_best_ask E) ol = Inr xs \<and>
      mset xs = side_nodes E sub_type.Ask ol \<and> sorted_wrt (node_before (ol_ask_sort_direction ol)) xs"
  using assms bid_queue.drain_sorted [of "ol_bid_sort_direction ol" ol]
    ask_queue.drain_sorted [of "ol_ask_sort_direction ol" ol]
  by (simp_all add: orderlist_ok_def side_nodes_def)

lemma best_orders:
  assumes "dlob_ok E D" and "st = sub_type.Bid \<or> st = sub_type.Ask" and "nt \<noteq> node_type.VAMM"
  shows "\<exists>xs. get_best_orders E t st nt i D = Inr xs \<and> mset xs = book_nodes E D t i nt st \<and>
    sorted_wrt (node_before (side_direction st nt)) xs"
proof (cases "map_of (markets_of t (dl_exchange D)) i")
  case None
  then show ?thesis by (simp add: get_best_orders_def book_nodes_def)
next
  case (Some m)
  then have m: "book_market_ok E m"
    using assms(1) unfolding dlob_ok_def by (metis image_eqI map_of_SomeD snd_conv)
  obtain ol where ol: "get_order_list_for_node_type nt m = Inr ol"
    using assms(3) by (cases nt) (auto simp: get_order_list_for_node_type_def)
  with m have ok: "orderlist_ok E ol"
    "(ol_bid_sort_direction ol, ol_ask_sort_direction ol) = list_directions nt"
    unfolding book_market_ok_def by blast+
  from ok(2) have d: "fst (list_directions nt) = ol_bid_sort_direction ol"
    "snd (list_directions nt) = ol_ask_sort_direction ol" by (metis fst_conv snd_conv)+
  show ?thesis
    using drain_list [OF ok(1)] assms(2)
    by (auto simp: get_best_orders_def Some ol book_nodes_def market_nodes_def side_direction_def d)
qed

end

section \<open>Sorting by price\<close>

text \<open>
  When every node has a price the two comparators agree with the price, read upwards for asks and
  downwards for bids.
\<close>

definition has_prices :: "oracle_price_data \<Rightarrow> u64 \<Rightarrow> (node \<Rightarrow> u64) \<Rightarrow> node set \<Rightarrow> bool" where
  "has_prices oracle slot price A \<longleftrightarrow> (\<forall>n\<in>A. get_price n oracle slot = Inr (price n))"

lemma asks_comparator_agrees:
  assumes "has_prices oracle slot price A"
  shows "cmp_agrees price A (asks_comparator oracle slot)"
  using assms by (auto simp: cmp_agrees_def has_prices_def asks_comparator_def)

lemma bids_comparator_agrees:
  assumes "has_prices oracle slot price A"
  shows "cmp_agrees (\<lambda>n. - uint (price n)) A (bids_comparator oracle slot)"
  using assms by (auto simp: cmp_agrees_def has_prices_def bids_comparator_def word_less_def)

lemma taking_comparator_agrees:
  "cmp_agrees (\<lambda>n. - uint (o_slot (get_order n))) A taking_comparator"
  by (auto simp: cmp_agrees_def taking_comparator_def word_less_def)

context dlob_env
begin

lemma resting_asks:
  assumes ok: "dlob_ok E D" and upd: "update_resting_limit_orders E slot D = Inr D'"
    and prices: "has_prices oracle slot price (set_mset
      (book_nodes E D' t i node_type.RestingLimit sub_type.Ask +
       book_nodes E D' t i node_type.FloatingLimit sub_type.Ask))"
  shows "\<exists>xs. get_resting_limit_asks E slot t i oracle D = Inr (xs, D') \<and>
    mset xs = book_nodes E D' t i node_type.RestingLimit sub_type.Ask +
      book_nodes E D' t i node_type.FloatingLimit sub_type.Ask \<and>
    sorted (map price xs)"
proof -
  note ok' = update_ok [OF ok upd]
  from best_orders [OF ok', of sub_type.Ask node_type.RestingLimit t i] obtain rs where
    rs: "get_best_orders E t sub_type.Ask node_type.RestingLimit i D' = Inr rs"
      "mset rs = book_nodes E D' t i node_type.RestingLimit sub_type.Ask" by auto
  from best_orders [OF ok', of sub_type.Ask node_type.FloatingLimit t i] obtain fs where
    fs: "get_best_orders E t sub_type.Ask node_type.FloatingLimit i D' = Inr fs"
      "mset fs = book_nodes E D' t i node_type.FloatingLimit sub_type.Ask" by auto
  have "set (rs @ fs) = set_mset (mset (rs @ fs))" by simp
  then have "has_prices oracle slot price (set (rs @ fs))"
    using prices unfolding mset_append rs(2) fs(2) by simp
  from sort_byE_sorted [OF asks_comparator_agrees [OF this]] rs fs upd
  show ?thesis by (auto simp: get_resting_limit_asks_def)
qed

lemma resting_bids:
  assumes ok: "dlob_ok E D" and upd: "update_resting_limit_orders E slot D = Inr D'"
    and prices: "has_prices oracle slot price (set_mset
      (book_nodes E D' t i node_type.RestingLimit sub_type.Bid +
       book_nodes E D' t i node_type.FloatingLimit sub_type.Bid))"
  shows "\<exists>xs. get_resting_limit_bids E slot t i oracle D = Inr (xs, D') \<and>
    mset xs = book_nodes E D' t i node_type.RestingLimit sub_type.Bid +
      book_nodes E D' t i node_type.FloatingLimit sub_type.Bid \<and>
    sorted (map (\<lambda>n. - uint (price n)) xs)"
proof -
  note ok' = update_ok [OF ok upd]
  from best_orders [OF ok', of sub_type.Bid node_type.RestingLimit t i] obtain rs where
    rs: "get_best_orders E t sub_type.Bid node_type.RestingLimit i D' = Inr rs"
      "mset rs = book_nodes E D' t i node_type.RestingLimit sub_type.Bid" by auto
  from best_orders [OF ok', of sub_type.Bid node_type.FloatingLimit t i] obtain fs where
    fs: "get_best_orders E t sub_type.Bid node_type.FloatingLimit i D' = Inr fs"
      "mset fs = book_nodes E D' t i node_type.FloatingLimit sub_type.Bid" by auto
  have "set (rs @ fs) = set_mset (mset (rs @ fs))" by simp
  then have "has_prices oracle slot price (set (rs @ fs))"
    using prices unfolding mset_append rs(2) fs(2) by simp
  from sort_byE_sorted [OF bids_comparator_agrees [OF this]] rs fs upd
  show ?thesis by (auto simp: get_resting_limit_bids_def)
qed

lemma taking_orders:
  assumes ok: "dlob_ok E D" and upd: "update_resting_limit_orders E slot D = Inr D'"
    and st: "st = sub_type.Bid \<or> st = sub_type.Ask"
  shows "\<exists>xs. get_taking_orders E slot t i st D = Inr (xs, D') \<and>
    mset xs = book_nodes E D' t i node_type.TakingLimit st +
      book_nodes E D' t i node_type.Market st \<and>
    sorted (map (\<lambda>n. - uint (o_slot (get_order n))) xs)"
proof -
  note ok' = update_ok [OF ok upd]
  from best_orders [OF ok' st, of node_type.TakingLimit t i] obtain rs where
    rs: "get_best_orders E t st node_type.TakingLimit i D' = Inr rs"
      "mset rs = book_nodes E D' t i node_type.TakingLimit st" by auto
  from best_orders [OF ok' st, of node_type.Market t i] obtain fs where
    fs: "get_best_orders E t st node_type.Market i D' = Inr fs"
      "mset fs = book_nodes E D' t i node_type.Market st" by auto
  from sort_byE_sorted [OF taking_comparator_agrees, of "rs @ fs"] rs fs upd
  show ?thesis by (auto simp: get_taking_orders_def)
qed

end

section \<open>Orders to trigger\<close>

context dlob_env
begin

text \<open>
  Popping while a test holds takes exactly the nodes that satisfy it when the test is closed towards
  the nodes that come first.
\<close>

lemma pop_while_filter:
  assumes "side_ok E d h" and "h_len E h \<le> fuel"
    and "\<And>a b. a \<in># nodes E h \<Longrightarrow> b \<in># nodes E h \<Longrightarrow> node_before d a b \<Longrightarrow> P b \<Longrightarrow> P a"
  shows "\<exists>xs. pop_while E fuel P h = Inr xs \<and> mset xs = filter_mset P (nodes E h) \<and>
    sorted_wrt (node_before d) xs"
  using assms
proof (induction fuel arbitrary: h)
  case 0
  then show ?case using size_nodes [of h] by (simp add: pop_while.simps)
next
  case (Suc fuel)
  show ?case
  proof (cases "h_len E h = 0")
    case True
    then show ?thesis using size_nodes [of h] by (simp add: pop_while.simps)
  next
    case False
    then obtain dn h' where pop: "h_pop E h = Some (dn, h')" using nonempty_pop by blast
    from side_pop [OF Suc.prems(1) pop] obtain n where n: "dn_node dn = OrderNode n" "side_ok E d h'"
        "nodes E h = add_mset (OrderNode n) (nodes E h')"
        "\<forall>y\<in>#nodes E h'. node_before d (OrderNode n) y" by blast
    have len: "h_len E h' \<le> fuel" using n(3) Suc.prems(2) size_nodes [of h] size_nodes [of h'] by simp
    from Suc.IH [OF n(2) len] Suc.prems(3) n(3) obtain xs where
      xs: "pop_while E fuel P h' = Inr xs" "mset xs = filter_mset P (nodes E h')"
        "sorted_wrt (node_before d) xs" by auto
    show ?thesis
    proof (cases "P (OrderNode n)")
      case True
      have "\<forall>y\<in>set xs. node_before d (OrderNode n) y"
        using n(4) xs(2) by (metis filter_mset_eq_conv mset_subset_eqD multiset_filter_subset set_mset_mset)
      with True False pop n xs show ?thesis by (simp add: pop_while.simps)
    next
      case P: False
      then have "\<not> P y" if "y \<in># nodes E h'" for y
        using Suc.prems(3) [of "OrderNode n" y] n(3,4) that by auto
      then have "filter_mset P (nodes E h') = {#}" by (metis filter_mset_False filter_mset_cong)
      with P False pop n show ?thesis by (simp add: pop_while.simps)
    qed
  qed
qed

lemma trigger_key:
  assumes "get_node_type n = node_type.Trigger"
  shows "fst (node_key n) = Some (uint (o_trigger_price (get_order n)))"
  using assms by (cases n) (auto simp: node_key_def node_sort_value_def)

lemma trigger_before:
  assumes "get_node_type a = node_type.Trigger" and "get_node_type b = node_type.Trigger"
    and "node_before d a b"
  shows "if d = Ascending then o_trigger_price (get_order a) \<le> o_trigger_price (get_order b)
    else o_trigger_price (get_order b) \<le> o_trigger_price (get_order a)"
  using assms trigger_key [of a] trigger_key [of b]
  by (cases "node_key a"; cases "node_key b")
     (auto simp: node_before_def word_le_def less_eq_prod_def split: if_splits)

lemma nodes_to_trigger:
  assumes ok: "dlob_ok E D" and active: "st_exchange_status state = es_active M"
    and m: "map_of (markets_of t (dl_exchange D)) i = Some m"
  shows "\<exists>xs. find_nodes_to_trigger E M i t oracle_price state D = Inr (Some xs) \<and>
    image_mset ntt_node (mset xs) =
      filter_mset (\<lambda>n. o_trigger_price (get_order n) < oracle_price)
        (nodes E (ol_bids (mk_trigger_orders m))) +
      filter_mset (\<lambda>n. oracle_price < o_trigger_price (get_order n))
        (nodes E (ol_asks (mk_trigger_orders m)))"
proof -
  let ?T = "mk_trigger_orders m"
  have "book_market_ok E m"
    using ok m unfolding dlob_ok_def by (metis image_eqI map_of_SomeD snd_conv)
  then have "orderlist_ok E ?T \<and> list_types_ok E node_type.Trigger ?T \<and>
      (ol_bid_sort_direction ?T, ol_ask_sort_direction ?T) = (Ascending, Descending)"
    by (rule market_ok_list) (simp_all add: get_order_list_for_node_type_def list_directions_def)
  then have s: "side_ok E Ascending (ol_bids ?T)" "side_ok E Descending (ol_asks ?T)"
    and ty: "\<And>n. n \<in># nodes E (ol_bids ?T) \<or> n \<in># nodes E (ol_asks ?T) \<Longrightarrow>
      get_node_type n = node_type.Trigger"
    by (auto simp: orderlist_ok_def list_types_ok_def allowed_types_def)
  have P1: "o_trigger_price (get_order a) < oracle_price" if "a \<in># nodes E (ol_bids ?T)"
    "b \<in># nodes E (ol_bids ?T)" "node_before Ascending a b" "o_trigger_price (get_order b) < oracle_price" for a b
    using trigger_before [of a b Ascending] that ty by fastforce
  have P2: "oracle_price < o_trigger_price (get_order a)" if "a \<in># nodes E (ol_asks ?T)"
    "b \<in># nodes E (ol_asks ?T)" "node_before Descending a b" "oracle_price < o_trigger_price (get_order b)" for a b
    using trigger_before [of a b Descending] that ty by fastforce
  from pop_while_filter [OF s(1) order_refl, of "\<lambda>n. o_trigger_price (get_order n) < oracle_price"] P1
  obtain xs where
    xs: "pop_while E (h_len E (ol_bids ?T)) (\<lambda>n. o_trigger_price (get_order n) < oracle_price) (ol_bids ?T) = Inr xs"
      "mset xs = filter_mset (\<lambda>n. o_trigger_price (get_order n) < oracle_price) (nodes E (ol_bids ?T))" by blast
  from pop_while_filter [OF s(2) order_refl, of "\<lambda>n. oracle_price < o_trigger_price (get_order n)"] P2
  obtain ys where
    ys: "pop_while E (h_len E (ol_asks ?T)) (\<lambda>n. oracle_price < o_trigger_price (get_order n)) (ol_asks ?T) = Inr ys"
      "mset ys = filter_mset (\<lambda>n. oracle_price < o_trigger_price (get_order n)) (nodes E (ol_asks ?T))" by blast
  show ?thesis
    using active xs ys
    by (simp add: find_nodes_to_trigger_def m Let_def multiset.map_comp comp_def)
qed

end

section \<open>Properties\<close>

text \<open>
  C25. The best orders of a place are all the nodes the book holds there, in the order of the queue:
  the loop that collects them ends, nothing is lost or repeated, and every node comes before those
  that follow it by sort value and then slot.
\<close>

theorem best_orders_sorted:
  assumes "dlob_env E" and "dlob_ok E D" and "st = sub_type.Bid \<or> st = sub_type.Ask"
    and "nt \<noteq> node_type.VAMM"
  shows "\<exists>xs. get_best_orders E t st nt i D = Inr xs \<and> mset xs = book_nodes E D t i nt st \<and>
    sorted_wrt (node_before (side_direction st nt)) xs"
  using assms by (rule dlob_env.best_orders)

text \<open>
  C26. The resting asks are the resting and floating asks of the updated book, cheapest first, provided
  each of them has a limit price.
\<close>

theorem resting_asks_by_price:
  assumes "dlob_env E" and "dlob_ok E D" and "update_resting_limit_orders E slot D = Inr D'"
    and "has_prices oracle slot price (set_mset
      (book_nodes E D' t i node_type.RestingLimit sub_type.Ask +
       book_nodes E D' t i node_type.FloatingLimit sub_type.Ask))"
  shows "\<exists>xs. get_resting_limit_asks E slot t i oracle D = Inr (xs, D') \<and>
    mset xs = book_nodes E D' t i node_type.RestingLimit sub_type.Ask +
      book_nodes E D' t i node_type.FloatingLimit sub_type.Ask \<and>
    sorted (map price xs)"
  using assms by (rule dlob_env.resting_asks)

text \<open>
  The resting bids are the resting and floating bids of the updated book, dearest first, provided
  each of them has a limit price.
\<close>

theorem resting_bids_by_price:
  assumes "dlob_env E" and "dlob_ok E D" and "update_resting_limit_orders E slot D = Inr D'"
    and "has_prices oracle slot price (set_mset
      (book_nodes E D' t i node_type.RestingLimit sub_type.Bid +
       book_nodes E D' t i node_type.FloatingLimit sub_type.Bid))"
  shows "\<exists>xs. get_resting_limit_bids E slot t i oracle D = Inr (xs, D') \<and>
    mset xs = book_nodes E D' t i node_type.RestingLimit sub_type.Bid +
      book_nodes E D' t i node_type.FloatingLimit sub_type.Bid \<and>
    sorted (map (\<lambda>n. - uint (price n)) xs)"
  using assms by (rule dlob_env.resting_bids)

text \<open>
  The taking orders are the taking and market orders of the updated book with the newest slot
  first: the comparison used for sorting answers greater for the older of two orders.
\<close>

theorem taking_orders_newest_first:
  assumes "dlob_env E" and "dlob_ok E D" and "update_resting_limit_orders E slot D = Inr D'"
    and "st = sub_type.Bid \<or> st = sub_type.Ask"
  shows "\<exists>xs. get_taking_orders E slot t i st D = Inr (xs, D') \<and>
    mset xs = book_nodes E D' t i node_type.TakingLimit st + book_nodes E D' t i node_type.Market st \<and>
    sorted (map (\<lambda>n. - uint (o_slot (get_order n))) xs)"
  using assms by (rule dlob_env.taking_orders)

text \<open>
  C29. While the exchange is active the orders to trigger are exactly the trigger orders above whose
  price the oracle has risen and those below whose price it has fallen, although the loops stop at
  the first node of the queue that does not qualify.
\<close>

theorem nodes_to_trigger_exact:
  assumes "dlob_env E" and "dlob_ok E D" and "st_exchange_status state = es_active M"
    and "map_of (markets_of t (dl_exchange D)) i = Some m"
  shows "\<exists>xs. find_nodes_to_trigger E M i t oracle_price state D = Inr (Some xs) \<and>
    image_mset ntt_node (mset xs) =
      filter_mset (\<lambda>n. o_trigger_price (get_order n) < oracle_price)
        (nodes E (ol_bids (mk_trigger_orders m))) +
      filter_mset (\<lambda>n. oracle_price < o_trigger_price (get_order n))
        (nodes E (ol_asks (mk_trigger_orders m)))"
  using assms by (rule dlob_env.nodes_to_trigger)

theorem best_orders_sorted_witness:
  "get_best_orders list_env market_type.Perp sub_type.Bid node_type.TakingLimit 0 sample_book =
     Inr [sample_node]"
proof -
  obtain xs where xs: "get_best_orders list_env market_type.Perp sub_type.Bid node_type.TakingLimit 0
      sample_book = Inr xs" "mset xs = {#sample_node#}"
    using best_orders_sorted [OF list_book.dlob_env_axioms sample_book_ok(1), of sub_type.Bid
        node_type.TakingLimit market_type.Perp 0] unfolding sample_taking by auto
  from xs(2) have "xs = [sample_node]" by (metis mset_single_iff)
  with xs(1) show ?thesis by simp
qed

text \<open>
  A book with three asks: one whose auction is over at slot 200, one priced by its offset from the oracle
  price, and one that may only be posted. In the order of their insertion they cost 13, 11 and 12.
\<close>

definition sample_asks :: "order list" where
  "sample_asks = (let ask = sample_order\<lparr>o_direction := Short\<rparr> in
     [ask\<lparr>o_order_id := 1, o_price := 13\<rparr>, ask\<lparr>o_order_id := 2, o_price := 0, o_oracle_price_offset := 6\<rparr>,
      ask\<lparr>o_order_id := 3, o_price := 12, o_post_only := True, o_auction_duration := 0\<rparr>])"

definition sample_oracle :: oracle_price_data where
  "sample_oracle = \<lparr>opd_price = 5, opd_confidence = 0, opd_delay = 0, opd_has_sufficient_number_of_data_points = True\<rparr>"

definition asks_inserted :: "list_heap dlob res" where
  "asks_inserted = foldE (\<lambda>D order. insert_order list_env order 7 (o_slot order) D) dlob_new sample_asks"

definition asks_updated :: "list_heap dlob res" where
  "asks_updated = bindE asks_inserted (update_resting_limit_orders list_env 200)"

definition asks_in :: "(list_heap market \<Rightarrow> list_heap order_list) \<Rightarrow> list_heap dlob res \<Rightarrow> node list" where
  "asks_in side r = (case r of Inl _ \<Rightarrow> [] | Inr D \<Rightarrow>
     (case map_of (markets_of market_type.Perp (dl_exchange D)) 0 of None \<Rightarrow> []
      | Some m \<Rightarrow> filter (is_known list_env (ol_order_sigs (side m)))
          (map (\<lambda>(_, d). dn_node d) (AList.clearjunk (ol_asks (side m))))))"

definition price_in :: "node \<Rightarrow> u64" where
  "price_in n = (case get_price n sample_oracle 200 of Inl _ \<Rightarrow> 0 | Inr p \<Rightarrow> p)"

lemma inserts_ok:
  "foldE (\<lambda>D order. insert_order list_env order user (o_slot order) D) D orders = Inr D' \<Longrightarrow>
    dlob_ok list_env D \<Longrightarrow> dlob_ok list_env D'"
  by (induction orders arbitrary: D) (auto simp: returns dest: list_book.insert_order_invariants)

lemma asks_in_book:
  "book_nodes list_env D market_type.Perp 0 node_type.RestingLimit sub_type.Ask =
    mset (asks_in mk_resting_limit_orders (Inr D))"
  "book_nodes list_env D market_type.Perp 0 node_type.FloatingLimit sub_type.Ask =
    mset (asks_in mk_floating_limit_orders (Inr D))"
  by (auto simp: book_nodes_def market_nodes_def side_nodes_def get_order_list_for_node_type_def asks_in_def known_nodes_def nodes_def multiset.map_comp comp_def
      case_prod_unfold split: option.split)

lemma asks_evaluated:
  "\<not> isl asks_updated"
  "map (\<lambda>n. get_price n sample_oracle 200) (asks_in mk_resting_limit_orders asks_updated) = [Inr 13, Inr 12]"
  "map (\<lambda>n. get_price n sample_oracle 200) (asks_in mk_floating_limit_orders asks_updated) = [Inr 11]"
  by code_simp+

theorem resting_asks_by_price_witness:
  "\<exists>D xs D'. asks_inserted = Inr D \<and>
     get_resting_limit_asks list_env 200 market_type.Perp 0 sample_oracle D = Inr (xs, D') \<and>
     map (\<lambda>n. get_price n sample_oracle 200) xs = [Inr 11, Inr 12, Inr 13]"
proof -
  obtain D' where D': "asks_updated = Inr D'" using sum.collapse(2) [OF asks_evaluated(1)] by metis
  then obtain D where D: "asks_inserted = Inr D" "update_resting_limit_orders list_env 200 D = Inr D'"
    unfolding asks_updated_def bindE_Inr_iff by blast
  have ok: "dlob_ok list_env D"
    using D(1) list_book.dlob_new_ok(1) unfolding asks_inserted_def by (rule inserts_ok)
  let ?rest = "asks_in mk_resting_limit_orders (Inr D')" and ?float = "asks_in mk_floating_limit_orders (Inr D')"
  note prices = asks_evaluated(2,3) [unfolded D']
  have p: "map price_in ?rest = [13, 12]" "map price_in ?float = [11]"
    using arg_cong [OF prices(1), of "map (\<lambda>r. case r of Inl _ \<Rightarrow> 0 | Inr p \<Rightarrow> p)"]
      arg_cong [OF prices(2), of "map (\<lambda>r. case r of Inl _ \<Rightarrow> 0 | Inr p \<Rightarrow> p)"]
    by (simp_all add: price_in_def [abs_def] comp_def)
  have "get_price n sample_oracle 200 \<in> {Inr 13, Inr 12, Inr 11}" if "n \<in> set ?rest \<union> set ?float" for n
    using that arg_cong [OF prices(1), of set] arg_cong [OF prices(2), of set] by fastforce
  then have all: "get_price n sample_oracle 200 = Inr (price_in n)" if "n \<in> set ?rest \<union> set ?float" for n
    using that by (fastforce simp: price_in_def)
  then have "has_prices sample_oracle 200 price_in (set_mset
      (book_nodes list_env D' market_type.Perp 0 node_type.RestingLimit sub_type.Ask +
       book_nodes list_env D' market_type.Perp 0 node_type.FloatingLimit sub_type.Ask))"
    by (simp add: has_prices_def asks_in_book)
  from resting_asks_by_price [OF list_book.dlob_env_axioms ok D(2) this]
  obtain xs where xs: "get_resting_limit_asks list_env 200 market_type.Perp 0 sample_oracle D = Inr (xs, D')"
    "mset xs = mset (?rest @ ?float)" "sorted (map price_in xs)" by (auto simp: asks_in_book)
  have "mset (map price_in xs) = mset [11, 12, 13]" unfolding mset_map xs(2) using p by (simp flip: mset_map)
  from properties_for_sort [OF this xs(3)] have "map price_in xs = sort [11, 12, 13]" by (rule sym)
  then have "map price_in xs = [11, 12, 13]" by simp
  moreover have "set xs = set ?rest \<union> set ?float" using arg_cong [OF xs(2), of set_mset] by simp
  with all have "map (\<lambda>n. get_price n sample_oracle 200) xs = map Inr (map price_in xs)" by simp
  ultimately have "map (\<lambda>n. get_price n sample_oracle 200) xs = [Inr 11, Inr 12, Inr 13]" by simp
  with D(1) xs(1) show ?thesis by (intro exI conjI)
qed

lemma sample_bids:
  assumes "update_resting_limit_orders list_env 200 sample_book = Inr D'"
  shows "book_nodes list_env D' market_type.Perp 0 node_type.RestingLimit sub_type.Bid = {#sample_node#}"
    and "book_nodes list_env D' market_type.Perp 0 node_type.FloatingLimit sub_type.Bid = {#}"
    and "book_nodes list_env D' market_type.Perp 0 node_type.TakingLimit sub_type.Bid = {#}"
    and "book_nodes list_env D' market_type.Perp 0 node_type.Market sub_type.Bid = {#}"
proof -
  have "dl_max_slot_for_resting_limit_orders sample_book < 200"
    by (simp add: sample_book_def dlob_new_def)
  note upd = list_book.update_both [OF sample_book_ok sample_single sample_disjoint this assms]
  have rest: "book_nodes list_env sample_book market_type.Perp 0 nt sub_type.Bid = {#}"
    if "nt \<noteq> node_type.TakingLimit" for nt
    using list_book.insert_order_book [OF list_book.dlob_new_ok fresh_new sample_classified
        sample_inserted, of market_type.Perp 0 nt sub_type.Bid] that
    by (simp add: book_nodes_def dlob_new_def exchange_new_def markets_of_def)
  show "book_nodes list_env D' market_type.Perp 0 node_type.RestingLimit sub_type.Bid = {#sample_node#}"
    "book_nodes list_env D' market_type.Perp 0 node_type.FloatingLimit sub_type.Bid = {#}"
    "book_nodes list_env D' market_type.Perp 0 node_type.TakingLimit sub_type.Bid = {#}"
    "book_nodes list_env D' market_type.Perp 0 node_type.Market sub_type.Bid = {#}"
    using upd sample_taking rest by (simp_all add: resting_moved_def rests_def sample_rests)
qed

theorem resting_bids_by_price_witness:
  "\<exists>D'. get_resting_limit_bids list_env 200 market_type.Perp 0
     \<lparr>opd_price = 5, opd_confidence = 0, opd_delay = 0, opd_has_sufficient_number_of_data_points = True\<rparr>
     sample_book = Inr ([sample_node], D')"
proof -
  let ?data = "\<lparr>opd_price = 5, opd_confidence = 0, opd_delay = 0,
    opd_has_sufficient_number_of_data_points = True\<rparr>"
  obtain D' where D': "update_resting_limit_orders list_env 200 sample_book = Inr D'"
    using sample_updated by blast
  have "is_auction_complete sample_order 200 = Inr True"
    by (simp add: is_auction_complete_def uadd_def)
  then have "get_limit_price sample_order ?data 200 None = Inr 1000"
    by (simp add: get_limit_price_def has_auction_price_def) (simp add: sample_order_def)
  then have "has_prices ?data 200 (\<lambda>_. 1000) {sample_node}"
    by (simp add: has_prices_def order_node_get_price_def)
  then show ?thesis
    using resting_bids_by_price [OF list_book.dlob_env_axioms sample_book_ok(1) D', of ?data
        "\<lambda>_. 1000" market_type.Perp 0] D'
    by (auto simp: sample_bids simp del: sample_node_simps)
qed

theorem taking_orders_newest_first_witness:
  "\<exists>D'. get_taking_orders list_env 200 market_type.Perp 0 sub_type.Bid sample_book = Inr ([], D')"
proof -
  obtain D' where D': "update_resting_limit_orders list_env 200 sample_book = Inr D'"
    using sample_updated by blast
  then show ?thesis
    using taking_orders_newest_first [OF list_book.dlob_env_axioms sample_book_ok(1) D', of sub_type.Bid
        market_type.Perp 0]
    by (auto simp: sample_bids)
qed

text \<open>A trigger order above the price 500 in the same book.\<close>

definition trigger_order :: order where
  "trigger_order = sample_order
     \<lparr>o_order_id := 2, o_order_type := order_type.TriggerLimit, o_trigger_price := 500\<rparr>"

lemma trigger_classified:
  "get_node_subtype_and_type list_env trigger_order 100 = Inr (sub_type.Bid, node_type.Trigger)"
  by (simp add: get_node_subtype_and_type_def Let_def) (simp add: trigger_order_def sample_order_def)

definition trigger_node :: node where
  "trigger_node = create_node node_type.Trigger trigger_order 7"

definition trigger_market :: "list_heap market" where
  "trigger_market = (market_new list_env)\<lparr>mk_trigger_orders :=
     \<lparr>ol_bids = [(get_order_signature list_env 2 7, directional_node_new trigger_node Ascending)],
      ol_asks = [], ol_order_sigs = [get_order_signature list_env 2 7 \<mapsto> trigger_node],
      ol_bid_sort_direction = Ascending, ol_ask_sort_direction = Descending\<rparr>\<rparr>"

definition trigger_book :: "list_heap dlob" where
  "trigger_book = dlob_new\<lparr>dl_exchange := \<lparr>ex_perp = [(0, trigger_market)], ex_spot = []\<rparr>\<rparr>"

lemma trigger_fields:
  "o_order_id trigger_order = 2" "o_market_type trigger_order = market_type.Perp"
  "o_market_index trigger_order = 0" "o_trigger_price trigger_order = 500"
  by (simp_all add: trigger_order_def sample_order_def)

lemma trigger_inserted: "insert_order list_env trigger_order 7 100 dlob_new = Inr trigger_book"
  by (simp add: insert_order_def Let_def trigger_classified add_market_indempotent_def trigger_fields
      contains_market_def dlob_new_def exchange_new_def insert_market_def markets_of_def set_markets_def
      get_order_list_for_node_insert_def insert_bid_def market_new_def orderlist_new_def
      trigger_book_def trigger_market_def trigger_node_def create_node_def list_heap_push_def)

theorem nodes_to_trigger_exact_witness:
  "\<exists>xs. find_nodes_to_trigger list_env pausing_env 0 market_type.Perp 501
       (paused_state\<lparr>st_exchange_status := 0\<rparr>) trigger_book = Inr (Some xs) \<and>
     image_mset ntt_node (mset xs) = {#trigger_node#}"
proof -
  have ok: "dlob_ok list_env trigger_book"
    using list_book.insert_order_invariants(1) [OF list_book.dlob_new_ok(1) trigger_inserted] .
  have m: "map_of (markets_of market_type.Perp (dl_exchange trigger_book)) 0 = Some trigger_market"
    by (simp add: trigger_book_def markets_of_def)
  have n: "get_order trigger_node = trigger_order"
    by (simp add: trigger_node_def create_node_def)
  show ?thesis
    using nodes_to_trigger_exact [OF list_book.dlob_env_axioms ok _ m, of
        "paused_state\<lparr>st_exchange_status := 0\<rparr>" pausing_env 501]
    by (auto simp: pausing_env_def trigger_market_def nodes_def directional_node_new_def n trigger_fields)
qed

end
