(* ===== verification/Dlob_Fill.thy ===== *)
theory Dlob_Fill
  imports Dlob_Listing
begin

text \<open>
  \<open>src/src/dlob/utils.rs\<close> and the search for orders to fill in \<open>src/src/dlob/dlob.rs\<close>.

  A function that lists resting or taking orders updates the book first, so the searches thread the
  book. The reference \<open>get_mut\<close> returns locks a shard of the map until the end of its block: the
  shards a block holds are passed to \<open>get_mut\<close>, which answers \<open>Deadlock\<close> for one of them.
\<close>

section \<open>Maker and taker\<close>

text \<open>The source says of the pair: first node maker, second node taker.\<close>

definition determine_maker_and_taker :: "node \<Rightarrow> node \<Rightarrow> (node \<times> node) option res" where
  "determine_maker_and_taker ask bid =
     (let ask_order = get_order ask; bid_order = get_order bid in
      bindE (uadd (o_slot ask_order) (ucast (o_auction_duration ask_order))) (\<lambda>ask_slot.
      bindE (uadd (o_slot bid_order) (ucast (o_auction_duration bid_order))) (\<lambda>bid_slot.
      Inr (if o_post_only bid_order \<and> o_post_only ask_order then None
           else if o_post_only bid_order then Some (ask, bid)
           else if o_post_only ask_order then Some (bid, ask)
           else if ask_slot \<le> bid_slot then Some (bid, ask)
           else Some (ask, bid)))))"

section \<open>Merging\<close>

text \<open>The hash map in the order of insertion; the iteration order of the library is unspecified.\<close>

definition merge_step :: "'a order_env_scheme \<Rightarrow> (string \<times> node_to_fill) list \<Rightarrow> node_to_fill \<Rightarrow>
    (string \<times> node_to_fill) list res" where
  "merge_step E merged_nodes_map node =
     bindE (get_user_account (ntf_node node)) (\<lambda>user_account.
     let sig = get_order_signature E (o_order_id (get_order (ntf_node node))) user_account;
         merged_nodes_map =
           (if map_of merged_nodes_map sig = None
            then AList.update sig \<lparr>ntf_node = ntf_node node, ntf_maker_nodes = []\<rparr> merged_nodes_map
            else merged_nodes_map) in
     if 0 < length (ntf_maker_nodes node) then
       bindE (of_opt (Panic ''called `Option::unwrap()` on a `None` value'')
         (map_of merged_nodes_map sig)) (\<lambda>merged_node.
       Inr (AList.update sig
         (merged_node\<lparr>ntf_maker_nodes := ntf_maker_nodes merged_node @ ntf_maker_nodes node\<rparr>)
         merged_nodes_map))
     else Inr merged_nodes_map)"

definition merge_and_deduplicate_nodes ::
  "'a order_env_scheme \<Rightarrow> node_to_fill list \<Rightarrow> node_to_fill list \<Rightarrow> node_to_fill list res" where
  "merge_and_deduplicate_nodes E nodes_a nodes_b =
     bindE (foldE (foldE (merge_step E)) [] [nodes_a, nodes_b]) (\<lambda>m. Inr (map snd m))"

section \<open>Expired orders\<close>

fun expired_loop :: "'h dlob_env \<Rightarrow> i64 \<Rightarrow> nat \<Rightarrow> 'h \<Rightarrow> node_to_fill list res" where
  "expired_loop E ts fuel h =
     (if h_len E h = 0 then Inr []
      else case fuel of
        0 \<Rightarrow> Inl OutOfFuel
      | Suc fuel \<Rightarrow>
          bindE (of_opt (Panic ''called `Option::unwrap()` on a `None` value'') (h_pop E h))
            (\<lambda>(dn, h').
          bindE (is_order_expired E (get_order (dn_node dn)) ts True) (\<lambda>expired.
          bindE (expired_loop E ts fuel h') (\<lambda>rest.
          Inr (if expired then \<lparr>ntf_node = dn_node dn, ntf_maker_nodes = []\<rparr> # rest else rest)))))"

declare expired_loop.simps [simp del]

definition find_expired_orders_to_fill ::
  "'h dlob_env \<Rightarrow> u16 \<Rightarrow> market_type \<Rightarrow> i64 \<Rightarrow> 'h dlob \<Rightarrow> node_to_fill list res" where
  "find_expired_orders_to_fill E market_index market_type ts D =
     (case map_of (markets_of market_type (dl_exchange D)) market_index of
        None \<Rightarrow> Inr []
      | Some m \<Rightarrow>
          let lists = [mk_taking_limit_orders m, mk_resting_limit_orders m,
                mk_floating_limit_orders m, mk_market_orders m];
              bids = map ol_bids lists; asks = map ol_asks lists in
          bindE (mapE (\<lambda>h. expired_loop E ts (h_len E h) h) bids) (\<lambda>expired_bids.
          bindE (mapE (\<lambda>h. expired_loop E ts (h_len E h) h) asks) (\<lambda>expired_asks.
          Inr (concat expired_bids @ concat expired_asks))))"

section \<open>Filling an order in the book\<close>

type_synonym held = "(market_type \<times> nat) list"

definition get_mut ::
  "'h dlob_env \<Rightarrow> held \<Rightarrow> market_type \<Rightarrow> u16 \<Rightarrow> 'h exchange \<Rightarrow> 'h market option res" where
  "get_mut E held t i ex =
     (if (t, map_shard E i) \<in> set held then Inl Deadlock else Inr (map_of (markets_of t ex) i))"

text \<open>
  The block that looks up the market of a changed order and updates the order's list; \<open>held\<close> are the
  shards the enclosing block has locked already.
\<close>

definition update_in_book ::
  "'h dlob_env \<Rightarrow> held \<Rightarrow> u64 \<Rightarrow> order \<Rightarrow> pubkey \<Rightarrow> 'h dlob \<Rightarrow> 'h dlob res" where
  "update_in_book E held slot order user D =
     bindE (get_node_subtype_and_type E order slot) (\<lambda>(subtype, node_type).
     bindE (get_mut E held (o_market_type order) (o_market_index order) (dl_exchange D)) (\<lambda>market.
     bindE (of_opt (Panic ''market'') market) (\<lambda>market.
     bindE (get_order_list_for_node_insert node_type market) (\<lambda>(order_list, put).
     bindE (orderlist_update E order user subtype order_list) (\<lambda>order_list.
     Inr (D\<lparr>dl_exchange := set_markets (o_market_type order)
       (AList.update (o_market_index order) (put order_list)
         (markets_of (o_market_type order) (dl_exchange D))) (dl_exchange D)\<rparr>))))))"

definition shard_of :: "'h dlob_env \<Rightarrow> order \<Rightarrow> market_type \<times> nat" where
  "shard_of E order = (o_market_type order, map_shard E (o_market_index order))"

definition base_remaining :: "order \<Rightarrow> u64 res" where
  "base_remaining order = usub (o_base_asset_amount order) (o_base_asset_amount_filled order)"

definition with_filled :: "u64 \<Rightarrow> order \<Rightarrow> order res" where
  "with_filled base_filled order =
     bindE (uadd (o_base_asset_amount_filled order) base_filled) (\<lambda>f.
     Inr (order\<lparr>o_base_asset_amount_filled := f\<rparr>))"

section \<open>Crossing resting orders\<close>

text \<open>The inner loop; the result says what was found and the book after it.\<close>

fun cross_bids :: "'h dlob_env \<Rightarrow> u64 \<Rightarrow> oracle_price_data \<Rightarrow> node \<Rightarrow> u64 \<Rightarrow> node list \<Rightarrow>
    node_to_fill list \<Rightarrow> 'h dlob \<Rightarrow> (node_to_fill list \<times> 'h dlob) res" where
  "cross_bids E slot oracle ask ask_price [] acc D = Inr (acc, D)"
| "cross_bids E slot oracle ask ask_price (bid # bids) acc D =
     bindE (get_price bid oracle slot) (\<lambda>bid_price.
     if bid_price < ask_price then Inr (acc, D)
     else
       bindE (get_user_account bid) (\<lambda>bid_user.
       bindE (get_user_account ask) (\<lambda>ask_user.
       if bid_user = ask_user then cross_bids E slot oracle ask ask_price bids acc D
       else
         bindE (determine_maker_and_taker ask bid) (\<lambda>pair.
         case pair of
           None \<Rightarrow> cross_bids E slot oracle ask ask_price bids acc D
         | Some (maker, taker) \<Rightarrow>
             bindE (base_remaining (get_order bid)) (\<lambda>bid_base_remaining.
             bindE (base_remaining (get_order ask)) (\<lambda>ask_base_remaining.
             let base_filled = min bid_base_remaining ask_base_remaining in
             bindE (with_filled base_filled (get_order bid)) (\<lambda>new_bid_order.
             bindE (update_in_book E [] slot new_bid_order bid_user D) (\<lambda>D.
             bindE (with_filled base_filled (get_order ask)) (\<lambda>new_ask_order.
             bindE (update_in_book E [shard_of E new_bid_order] slot new_ask_order ask_user D) (\<lambda>D.
             let acc = acc @ [\<lparr>ntf_node = taker, ntf_maker_nodes = [maker]\<rparr>] in
             if o_base_asset_amount new_ask_order = o_base_asset_amount_filled new_ask_order
             then Inr (acc, D)
             else cross_bids E slot oracle ask ask_price bids acc D))))))))))"

definition find_crossing_resting_limit_orders :: "'h dlob_env \<Rightarrow> market_ops \<Rightarrow> u64 \<Rightarrow>
    oracle_price_data \<Rightarrow> 'h dlob \<Rightarrow> (node_to_fill list \<times> 'h dlob) res" where
  "find_crossing_resting_limit_orders E market slot oracle D =
     bindE (get_resting_limit_asks E slot (mo_market_type market) (mo_market_index market) oracle D)
       (\<lambda>(resting_limit_asks, D).
     foldE (\<lambda>(nodes_to_fill, D) ask.
       bindE (get_price ask oracle slot) (\<lambda>ask_price.
       bindE (get_resting_limit_bids E slot (mo_market_type market) (mo_market_index market) oracle D)
         (\<lambda>(resting_limit_bids, D).
       cross_bids E slot oracle ask ask_price resting_limit_bids nodes_to_fill D)))
       ([], D) resting_limit_asks)"

section \<open>Crossing fallback liquidity\<close>

definition find_nodes_crossing_fallback_liquidity :: "market_type \<Rightarrow> u64 \<Rightarrow> oracle_price_data \<Rightarrow>
    node list \<Rightarrow> (u64 option \<Rightarrow> bool res) \<Rightarrow> u8 \<Rightarrow> node_to_fill list res" where
  "find_nodes_crossing_fallback_liquidity market_type slot oracle ns does_cross min_auction_duration =
     foldE (\<lambda>nodes_to_fill node.
       if market_type = market_type.Spot \<and> o_post_only (get_order node) then Inr nodes_to_fill
       else
         bindE (get_limit_price (get_order node) oracle slot None) (\<lambda>node_price.
         bindE (does_cross (Some node_price)) (\<lambda>crosses.
         bindE (if market_type = market_type.Spot then Inr True
                else is_fallback_available (get_order node) min_auction_duration slot)
           (\<lambda>fallback_available.
         Inr (if crosses \<and> fallback_available
              then nodes_to_fill @ [\<lparr>ntf_node = node, ntf_maker_nodes = []\<rparr>]
              else nodes_to_fill)))))
       [] ns"

section \<open>Taking orders that cross makers\<close>

fun cross_makers :: "'h dlob_env \<Rightarrow> market_type \<Rightarrow> u64 \<Rightarrow> oracle_price_data \<Rightarrow>
    (market_type \<Rightarrow> u64 option \<Rightarrow> u64 \<Rightarrow> bool) \<Rightarrow> node \<Rightarrow> node list \<Rightarrow> node_to_fill list \<Rightarrow>
    'h dlob \<Rightarrow> (node_to_fill list \<times> 'h dlob) res" where
  "cross_makers E t slot oracle does_cross taker [] acc D = Inr (acc, D)"
| "cross_makers E t slot oracle does_cross taker (maker # makers) acc D =
     bindE (get_user_account taker) (\<lambda>taker_user.
     bindE (get_user_account maker) (\<lambda>maker_user.
     if taker_user = maker_user then cross_makers E t slot oracle does_cross taker makers acc D
     else
       bindE (get_price taker oracle slot) (\<lambda>taker_price.
       bindE (get_price maker oracle slot) (\<lambda>maker_price.
       if \<not> does_cross t (Some taker_price) maker_price
       then cross_makers E t slot oracle does_cross taker makers acc D
       else
         let acc = acc @ [\<lparr>ntf_node = taker, ntf_maker_nodes = [maker]\<rparr>] in
         bindE (base_remaining (get_order maker)) (\<lambda>maker_base_remaining.
         bindE (base_remaining (get_order taker)) (\<lambda>taker_base_remaining.
         let base_filled = min maker_base_remaining taker_base_remaining in
         bindE (with_filled base_filled (get_order maker)) (\<lambda>new_maker_order.
         bindE (update_in_book E [] slot new_maker_order maker_user D) (\<lambda>D.
         bindE (with_filled base_filled (get_order taker)) (\<lambda>new_taker_order.
         bindE (update_in_book E [shard_of E new_maker_order] slot new_taker_order taker_user D) (\<lambda>D.
         if o_base_asset_amount new_taker_order = o_base_asset_amount_filled new_taker_order
         then Inr (acc, D)
         else cross_makers E t slot oracle does_cross taker makers acc D))))))))))"

definition find_taking_nodes_crossing_maker_nodes :: "'h dlob_env \<Rightarrow> market_ops \<Rightarrow> u64 \<Rightarrow>
    oracle_price_data \<Rightarrow> node list \<Rightarrow>
    (u64 \<Rightarrow> market_type \<Rightarrow> u16 \<Rightarrow> oracle_price_data \<Rightarrow> 'h dlob \<Rightarrow> (node list \<times> 'h dlob) res) \<Rightarrow>
    (market_type \<Rightarrow> u64 option \<Rightarrow> u64 \<Rightarrow> bool) \<Rightarrow> 'h dlob \<Rightarrow> (node_to_fill list \<times> 'h dlob) res" where
  "find_taking_nodes_crossing_maker_nodes E market slot oracle taker_nodes maker_node_function
      does_cross D =
     foldE (\<lambda>(nodes_to_fill, D) taker.
       bindE (maker_node_function slot (mo_market_type market) (mo_market_index market) oracle D)
         (\<lambda>(maker_nodes, D).
       cross_makers E (mo_market_type market) slot oracle does_cross taker maker_nodes nodes_to_fill D))
       ([], D) taker_nodes"

section \<open>The search\<close>

definition with_buffer_below :: "u64 \<Rightarrow> u64 \<Rightarrow> u64 \<Rightarrow> u64 res" where
  "with_buffer_below price numerator denominator =
     bindE (umul price numerator) (\<lambda>p. bindE (udiv p denominator) (\<lambda>q. usub price q))"

definition unwrap_price :: "u64 option \<Rightarrow> u64 res" where
  "unwrap_price = of_opt (Panic ''called `Option::unwrap()` on a `None` value'')"

definition find_resting_orders_to_fill :: "'h dlob_env \<Rightarrow> market_ops \<Rightarrow> u64 \<Rightarrow> oracle_price_data \<Rightarrow>
    bool \<Rightarrow> u8 \<Rightarrow> u64 \<Rightarrow> u64 \<Rightarrow> u64 option \<Rightarrow> u64 option \<Rightarrow> 'h dlob \<Rightarrow>
    (node_to_fill list \<times> 'h dlob) res" where
  "find_resting_orders_to_fill E market slot oracle is_amm_paused min_auction_duration
      maker_rebate_numerator maker_rebate_denominator fallback_bid fallback_ask D =
     bindE (find_crossing_resting_limit_orders E market slot oracle D) (\<lambda>(crossing_nodes, D).
     bindE
       (case fallback_bid of
          Some fallback_bid \<Rightarrow>
            if is_amm_paused then Inr ([], D)
            else
              bindE (get_resting_limit_asks E slot (mo_market_type market) (mo_market_index market)
                oracle D) (\<lambda>(resting_limit_asks, D).
              bindE (with_buffer_below fallback_bid maker_rebate_numerator maker_rebate_denominator)
                (\<lambda>fallback_bid_with_buffer.
              bindE (find_nodes_crossing_fallback_liquidity (mo_market_type market) slot oracle
                resting_limit_asks
                (\<lambda>price. bindE (unwrap_price price) (\<lambda>p. Inr (p < fallback_bid_with_buffer)))
                min_auction_duration) (\<lambda>asks_crossing.
              Inr (asks_crossing, D))))
        | None \<Rightarrow> Inr ([], D))
       (\<lambda>(asks_crossing, D).
     bindE
       (case fallback_ask of
          Some fallback_ask \<Rightarrow>
            if is_amm_paused then Inr ([], D)
            else
              bindE (get_resting_limit_bids E slot (mo_market_type market) (mo_market_index market)
                oracle D) (\<lambda>(resting_limit_bids, D).
              bindE (with_buffer_below fallback_ask maker_rebate_numerator maker_rebate_denominator)
                (\<lambda>fallback_ask_with_buffer.
              bindE (find_nodes_crossing_fallback_liquidity (mo_market_type market) slot oracle
                resting_limit_bids
                (\<lambda>price. bindE (unwrap_price price) (\<lambda>p. Inr (fallback_ask_with_buffer < p)))
                min_auction_duration) (\<lambda>bids_crossing.
              Inr (bids_crossing, D))))
        | None \<Rightarrow> Inr ([], D))
       (\<lambda>(bids_crossing, D).
     Inr (crossing_nodes @ asks_crossing @ bids_crossing, D))))"

definition asks_cross :: "u64 option \<Rightarrow> market_type \<Rightarrow> u64 option \<Rightarrow> u64 \<Rightarrow> bool" where
  "asks_cross fallback_bid market_type taker_price maker_price =
     (if market_type = market_type.Spot \<and> taker_price = None then False
      else if market_type = market_type.Spot \<and> fallback_bid \<noteq> None \<and> maker_price < the fallback_bid
      then False
      else taker_price = None \<or> the taker_price \<le> maker_price)"

definition bids_cross :: "u64 option \<Rightarrow> market_type \<Rightarrow> u64 option \<Rightarrow> u64 \<Rightarrow> bool" where
  "bids_cross fallback_ask market_type taker_price maker_price =
     (if market_type = market_type.Spot \<and> taker_price = None then False
      else if market_type = market_type.Spot \<and> fallback_ask \<noteq> None \<and> the fallback_ask < maker_price
      then False
      else taker_price = None \<or> maker_price \<le> the taker_price)"

definition find_taking_orders_to_fill :: "'h dlob_env \<Rightarrow> market_ops \<Rightarrow> u64 \<Rightarrow> oracle_price_data \<Rightarrow>
    bool \<Rightarrow> u8 \<Rightarrow> u64 option \<Rightarrow> u64 option \<Rightarrow> 'h dlob \<Rightarrow> (node_to_fill list \<times> 'h dlob) res" where
  "find_taking_orders_to_fill E market slot oracle is_amm_paused min_auction_duration
      fallback_bid fallback_ask D =
     (let t = mo_market_type market; i = mo_market_index market in
      bindE (get_taking_orders E slot t i sub_type.Ask D) (\<lambda>(taking_asks, D).
      bindE (find_taking_nodes_crossing_maker_nodes E market slot oracle taking_asks
        (\<lambda>slot t i oracle D. get_resting_limit_bids E slot t i oracle D)
        (asks_cross fallback_bid) D) (\<lambda>(taking_asks_crossing_bids, D).
      bindE (get_taking_orders E slot t i sub_type.Bid D) (\<lambda>(taking_bids, D).
      bindE (find_taking_nodes_crossing_maker_nodes E market slot oracle taking_bids
        (\<lambda>slot t i oracle D. get_resting_limit_asks E slot t i oracle D)
        (bids_cross fallback_ask) D) (\<lambda>(taking_bids_crossing_asks, D).
      bindE
        (if fallback_bid \<noteq> None \<and> \<not> is_amm_paused then
           bindE (get_taking_orders E slot t i sub_type.Ask D) (\<lambda>(taking_asks, D).
           bindE (find_nodes_crossing_fallback_liquidity t slot oracle taking_asks
             (\<lambda>taker_price. Inr (taker_price = None \<or> taker_price \<le> fallback_bid))
             min_auction_duration) (\<lambda>ns. Inr (ns, D)))
         else Inr ([], D)) (\<lambda>(taking_asks_crossing_fallback, D).
      bindE
        (if fallback_ask \<noteq> None \<and> \<not> is_amm_paused then
           bindE (get_taking_orders E slot t i sub_type.Bid D) (\<lambda>(taking_bids, D).
           bindE (find_nodes_crossing_fallback_liquidity t slot oracle taking_bids
             (\<lambda>taker_price. Inr (taker_price = None \<or> fallback_ask < taker_price))
             min_auction_duration) (\<lambda>ns. Inr (ns, D)))
         else Inr ([], D)) (\<lambda>(taking_bids_crossing_fallback, D).
      Inr (taking_asks_crossing_bids @ taking_bids_crossing_asks @ taking_asks_crossing_fallback @
           taking_bids_crossing_fallback, D))))))))"

definition find_nodes_to_fill :: "'h dlob_env \<Rightarrow> market_ops \<Rightarrow> u64 option \<Rightarrow> u64 option \<Rightarrow> u64 \<Rightarrow> i64 \<Rightarrow>
    oracle_price_data \<Rightarrow> program_state \<Rightarrow> 'h dlob \<Rightarrow> (node_to_fill list option \<times> 'h dlob) res" where
  "find_nodes_to_fill E market fallback_bid fallback_ask slot ts oracle state D =
     (if mo_is_fill_paused market state then Inr (None, D)
      else
        bindE (mo_is_amm_paused market state) (\<lambda>is_amm_paused.
        let min_auction_duration = (case mo_market_type market of
              market_type.Perp \<Rightarrow> st_min_perp_auction_duration state | market_type.Spot \<Rightarrow> 0) in
        bindE (mo_calculate_maker_rebate market state)
          (\<lambda>(maker_rebate_numerator, maker_rebate_denominator).
        bindE (find_expired_orders_to_fill E (mo_market_index market) (mo_market_type market) ts D)
          (\<lambda>expired_nodes_to_fill.
        bindE (find_resting_orders_to_fill E market slot oracle is_amm_paused min_auction_duration
          maker_rebate_numerator maker_rebate_denominator fallback_bid fallback_ask D)
          (\<lambda>(resting_orders_to_fill, D).
        bindE (find_taking_orders_to_fill E market slot oracle is_amm_paused min_auction_duration
          fallback_bid fallback_ask D) (\<lambda>(taking_orders_to_fill, D).
        bindE (merge_and_deduplicate_nodes E resting_orders_to_fill taking_orders_to_fill)
          (\<lambda>nodes_to_fill.
        Inr (Some (nodes_to_fill @ expired_nodes_to_fill), D))))))))"

end
