(* ===== verification/Dlob_Filling.thy ===== *)
theory Dlob_Filling
  imports Dlob_Fill
begin

text \<open>
  What the search for orders to fill finds: makers and takers, expired orders, orders that cross the
  fallback liquidity, and what happens to orders that cross each other.
\<close>

section \<open>Updating an order in the book\<close>

lemma base_remaining_le:
  assumes "base_remaining order = Inr r" and "x \<le> r"
  shows "\<exists>order'. with_filled x order = Inr order' \<and> o_market_type order' = o_market_type order \<and>
    o_market_index order' = o_market_index order \<and> o_slot order' = o_slot order \<and>
    o_auction_duration order' = o_auction_duration order"
proof -
  have f: "o_base_asset_amount_filled order \<le> o_base_asset_amount order"
    "r = o_base_asset_amount order - o_base_asset_amount_filled order"
    using assms(1) by (auto simp: base_remaining_def returns)
  then have "uint r = uint (o_base_asset_amount order) - uint (o_base_asset_amount_filled order)"
    by (simp add: uint_usub usub_def)
  moreover have "uint x \<le> uint r" using assms(2) by (simp add: word_le_def)
  ultimately have "uint (o_base_asset_amount_filled order) + uint x < 2 ^ 64"
    using u64_range(2) [of "o_base_asset_amount order"] by simp
  then show ?thesis by (simp add: with_filled_def uadd_def)
qed

context dlob_env
begin

lemma orderlist_update_defined:
  assumes "orderlist_ok E ol" and "st = sub_type.Bid \<or> st = sub_type.Ask"
  shows "\<exists>ol'. orderlist_update E order user st ol = Inr ol'"
proof -
  let ?sig = "get_order_signature E (o_order_id order) user"
  have sigs: "\<exists>n. node = OrderNode n" if "ol_order_sigs ol ?sig = Some node" for node
    using assms(1) that unfolding orderlist_ok_def by blast
  have bids: "\<exists>n. dn_node dn = OrderNode n" if "map_of (h_iter E (ol_bids ol)) ?sig = Some dn" for dn
    using assms(1) that unfolding orderlist_ok_def side_ok_def by blast
  have asks: "\<exists>n. dn_node dn = OrderNode n" if "map_of (h_iter E (ol_asks ol)) ?sig = Some dn" for dn
    using assms(1) that unfolding orderlist_ok_def side_ok_def by blast
  show ?thesis
    using assms(2) sigs bids asks
    by (fastforce simp: orderlist_update_def Let_def heap.get_map split: option.splits)
qed

lemma update_in_book_defined:
  assumes "dlob_ok E D" and "map_of (markets_of (o_market_type order) (dl_exchange D)) (o_market_index order) = Some m"
    and "uint (o_slot order) + uint (o_auction_duration order) < 2 ^ 64"
  shows "\<exists>D'. update_in_book E [] slot order user D = Inr D'"
proof -
  have "\<exists>st nt. get_node_subtype_and_type E order slot = Inr (st, nt)"
    using is_resting_defined [OF assms(3), of E slot]
    by (auto simp: get_node_subtype_and_type_def Let_def simp del: is_one_of_variant_iff env_methods)
  then obtain st nt where c: "get_node_subtype_and_type E order slot = Inr (st, nt)" by blast
  note place = subtype_and_type_place [OF c]
  obtain ol put where list: "get_order_list_for_node_insert nt m = Inr (ol, put)"
    using place(2) by (cases nt) (auto simp: get_order_list_for_node_insert_def)
  have "book_market_ok E m"
    using assms(1,2) unfolding dlob_ok_def by (metis image_eqI map_of_SomeD snd_conv)
  then have "orderlist_ok E ol"
    using list unfolding book_market_ok_def by (metis get_order_list_Inr)
  from orderlist_update_defined [OF this place(1), of order user] obtain ol' where
    "orderlist_update E order user st ol = Inr ol'" by blast
  then show ?thesis
    using assms(2) list c by (simp add: update_in_book_def get_mut_def)
qed

lemma update_in_book_deadlock:
  assumes "shard_of E order \<in> set held" and "uint (o_slot order) + uint (o_auction_duration order) < 2 ^ 64"
  shows "update_in_book E held slot order user D = Inl Deadlock"
proof -
  have "\<exists>st nt. get_node_subtype_and_type E order slot = Inr (st, nt)"
    using is_resting_defined [OF assms(2), of E slot]
    by (auto simp: get_node_subtype_and_type_def Let_def simp del: is_one_of_variant_iff env_methods)
  with assms(1) show ?thesis by (auto simp: update_in_book_def get_mut_def shard_of_def)
qed

end

text \<open>What the search needs of a node to get through without an overflow.\<close>

definition sound_node :: "node \<Rightarrow> bool" where
  "sound_node node \<longleftrightarrow> \<not> is_vamm_node node \<and>
     uint (o_slot (get_order node)) + uint (o_auction_duration (get_order node)) < 2 ^ 64 \<and>
     o_base_asset_amount_filled (get_order node) \<le> o_base_asset_amount (get_order node)"

definition at_home :: "market_type \<Rightarrow> u16 \<Rightarrow> node \<Rightarrow> bool" where
  "at_home t i node \<longleftrightarrow> o_market_type (get_order node) = t \<and> o_market_index (get_order node) = i"

text \<open>A resting ask and a resting bid that should be filled against each other.\<close>

definition owner :: "node \<Rightarrow> pubkey" where
  "owner node = (case node of OrderNode n \<Rightarrow> on_user_account n | VAMMNode _ \<Rightarrow> 0)"

definition orders_match :: "(node \<Rightarrow> u64) \<Rightarrow> node \<Rightarrow> node \<Rightarrow> bool" where
  "orders_match price ask bid \<longleftrightarrow> price ask \<le> price bid \<and> owner ask \<noteq> owner bid \<and>
     \<not> (o_post_only (get_order ask) \<and> o_post_only (get_order bid))"

definition taker_match :: "(node \<Rightarrow> u64) \<Rightarrow> (u64 option \<Rightarrow> u64 \<Rightarrow> bool) \<Rightarrow> node \<Rightarrow> node \<Rightarrow> bool" where
  "taker_match price cross taker maker \<longleftrightarrow>
     owner taker \<noteq> owner maker \<and> cross (Some (price taker)) (price maker)"

lemma sound_user: "sound_node node \<Longrightarrow> get_user_account node = Inr (owner node)"
  by (cases node) (simp_all add: sound_node_def owner_def)

lemma uint_widen_u8: "uint (ucast (d :: u8) :: u64) = uint d"
  by (simp add: uint_up_ucast is_up)

lemma maker_and_taker_eq:
  assumes "sound_node ask" and "sound_node bid"
  shows "\<exists>pair. determine_maker_and_taker ask bid = Inr pair \<and>
    (pair = None \<longleftrightarrow> o_post_only (get_order ask) \<and> o_post_only (get_order bid))"
  using assms
  by (auto simp: determine_maker_and_taker_def Let_def uadd_def uint_widen_u8 sound_node_def)

context dlob_env
begin

text \<open>Filling two orders of one market one after the other never gets past the second.\<close>

lemma fill_both_deadlock:
  assumes ok: "dlob_ok E D" and m: "map_of (markets_of t (dl_exchange D)) i \<noteq> None"
    and nodes: "sound_node a" "sound_node b" "at_home t i a" "at_home t i b"
  shows "bindE (base_remaining (get_order a)) (\<lambda>ra.
    bindE (base_remaining (get_order b)) (\<lambda>rb.
    let base_filled = min ra rb in
    bindE (with_filled base_filled (get_order a)) (\<lambda>new_a.
    bindE (update_in_book E [] slot new_a ua D) (\<lambda>D.
    bindE (with_filled base_filled (get_order b)) (\<lambda>new_b.
    bindE (update_in_book E [shard_of E new_a] slot new_b ub D) (k new_a new_b)))))) = Inl Deadlock"
proof -
  obtain ra rb where r: "base_remaining (get_order a) = Inr ra" "base_remaining (get_order b) = Inr rb"
    using nodes by (auto simp: base_remaining_def usub_def sound_node_def)
  from base_remaining_le [OF r(1), of "min ra rb"] obtain new_a where
    a: "with_filled (min ra rb) (get_order a) = Inr new_a" "o_market_type new_a = t"
      "o_market_index new_a = i" "uint (o_slot new_a) + uint (o_auction_duration new_a) < 2 ^ 64"
    using nodes by (auto simp: sound_node_def at_home_def)
  from base_remaining_le [OF r(2), of "min ra rb"] obtain new_b where
    b: "with_filled (min ra rb) (get_order b) = Inr new_b" "o_market_type new_b = t"
      "o_market_index new_b = i" "uint (o_slot new_b) + uint (o_auction_duration new_b) < 2 ^ 64"
    using nodes by (auto simp: sound_node_def at_home_def)
  obtain m' where "map_of (markets_of t (dl_exchange D)) i = Some m'" using m by blast
  then obtain D1 where D1: "update_in_book E [] slot new_a ua D = Inr D1"
    using update_in_book_defined [OF ok, of new_a m'] a by auto
  have "shard_of E new_b \<in> set [shard_of E new_a]" by (simp add: shard_of_def a b)
  from update_in_book_deadlock [OF this b(4)] show ?thesis
    by (simp add: r a(1) b(1) D1 Let_def)
qed

lemma cross_bids_outcome:
  assumes ok: "dlob_ok E D" and m: "map_of (markets_of t (dl_exchange D)) i \<noteq> None"
    and ask: "sound_node ask" "at_home t i ask"
    and bids: "\<forall>bid\<in>set bids. sound_node bid \<and> at_home t i bid"
    and prices: "has_prices oracle slot price (set bids)"
    and sorted: "sorted (map (\<lambda>n. - uint (price n)) bids)"
  shows "cross_bids E slot oracle ask (price ask) bids acc D =
    (if \<exists>bid\<in>set bids. orders_match price ask bid then Inl Deadlock else Inr (acc, D))"
  using bids prices sorted
proof (induction bids arbitrary: acc)
  case Nil
  then show ?case by simp
next
  case (Cons bid bids)
  have bid: "sound_node bid" "at_home t i bid" "get_price bid oracle slot = Inr (price bid)"
    using Cons.prems by (simp_all add: has_prices_def)
  have IH: "cross_bids E slot oracle ask (price ask) bids acc D =
      (if \<exists>bid\<in>set bids. orders_match price ask bid then Inl Deadlock else Inr (acc, D))"
    using Cons by (simp add: has_prices_def)
  show ?case
  proof (cases "price bid < price ask")
    case True
    have "\<not> orders_match price ask b" if "b \<in> set (bid # bids)" for b
    proof -
      have "price b \<le> price bid" using Cons.prems(3) that by (auto simp: word_le_def)
      with True show ?thesis by (auto simp: orders_match_def)
    qed
    with True bid show ?thesis by auto
  next
    case False
    from maker_and_taker_eq [OF ask(1) bid(1)] obtain pair where pair:
      "determine_maker_and_taker ask bid = Inr pair"
      "pair = None \<longleftrightarrow> o_post_only (get_order ask) \<and> o_post_only (get_order bid)" by blast
    show ?thesis
    proof (cases "orders_match price ask bid")
      case True
      then obtain maker taker where "pair = Some (maker, taker)" "owner bid \<noteq> owner ask"
        using pair(2) by (cases pair) (auto simp: orders_match_def)
      with True False bid pair(1) fill_both_deadlock [OF ok m bid(1) ask(1) bid(2) ask(2)] sound_user [OF ask(1)]
        sound_user [OF bid(1)] show ?thesis by (simp cong: if_cong)
    next
      case no: False
      then have "owner bid = owner ask \<or> pair = None"
        using False pair(2) by (auto simp: orders_match_def)
      with no False bid pair(1) IH sound_user [OF ask(1)] sound_user [OF bid(1)] show ?thesis by auto
    qed
  qed
qed

text \<open>Listing the resting bids of an updated book again: the same book and the same nodes.\<close>

lemma update_again:
  assumes "update_resting_limit_orders E slot D = Inr D'"
  shows "update_resting_limit_orders E slot D' = Inr D'"
proof -
  have "slot \<le> dl_max_slot_for_resting_limit_orders D'"
    using assms
    by (auto simp: update_resting_limit_orders_def update_resting_limit_orders_for_market_type_def
        Let_def returns split: if_splits)
  then show ?thesis by (simp add: update_resting_limit_orders_def)
qed

lemma book_nodes_market:
  "node \<in># book_nodes E D t i nt st \<Longrightarrow> map_of (markets_of t (dl_exchange D)) i \<noteq> None"
  by (auto simp: book_nodes_def split: option.splits)

lemma foldE_deadlock:
  assumes "\<And>x. x \<in> set xs \<Longrightarrow> f s x = (if P x then Inl Deadlock else Inr s)"
  shows "foldE f s xs = (if \<exists>x\<in>set xs. P x then Inl Deadlock else Inr s)"
  using assms by (induction xs) auto

lemma crossing_outcome:
  assumes ok: "dlob_ok E D" and upd: "update_resting_limit_orders E slot D = Inr D'"
    and market: "mo_market_type market = t" "mo_market_index market = i"
    and asks: "asks = book_nodes E D' t i node_type.RestingLimit sub_type.Ask +
       book_nodes E D' t i node_type.FloatingLimit sub_type.Ask"
    and bids: "bids = book_nodes E D' t i node_type.RestingLimit sub_type.Bid +
       book_nodes E D' t i node_type.FloatingLimit sub_type.Bid"
    and nodes: "\<forall>node\<in>#asks + bids. sound_node node \<and> at_home t i node \<and>
       get_price node oracle slot = Inr (price node)"
  shows "find_crossing_resting_limit_orders E market slot oracle D =
    (if \<exists>ask\<in>#asks. \<exists>bid\<in>#bids. orders_match price ask bid then Inl Deadlock else Inr ([], D'))"
proof -
  note ok' = update_ok [OF ok upd]
  have "has_prices oracle slot price (set_mset asks)" "has_prices oracle slot price (set_mset bids)"
    using nodes by (simp_all add: has_prices_def)
  note prices = this [unfolded asks bids]
  from resting_asks [OF ok upd prices(1)] obtain as where
    as: "get_resting_limit_asks E slot t i oracle D = Inr (as, D')" "mset as = asks"
    unfolding asks by blast
  from resting_bids [OF ok' update_again [OF upd] prices(2)] obtain bs where
    bs: "get_resting_limit_bids E slot t i oracle D' = Inr (bs, D')" "mset bs = bids"
      "sorted (map (\<lambda>n. - uint (price n)) bs)"
    unfolding bids by blast
  have set: "set as = set_mset asks" "set bs = set_mset bids"
    by (simp_all flip: as(2) bs(2))
  have "find_crossing_resting_limit_orders E market slot oracle D =
      foldE (\<lambda>(nodes_to_fill, D) ask.
       bindE (get_price ask oracle slot) (\<lambda>ask_price.
       bindE (get_resting_limit_bids E slot t i oracle D) (\<lambda>(resting_limit_bids, D).
       cross_bids E slot oracle ask ask_price resting_limit_bids nodes_to_fill D))) ([], D') as"
    by (simp add: find_crossing_resting_limit_orders_def market as(1))
  also have "\<dots> = (if \<exists>ask\<in>set as. \<exists>bid\<in>set bs. orders_match price ask bid
      then Inl Deadlock else Inr ([], D'))"
  proof (rule foldE_deadlock)
    fix ask assume ask: "ask \<in> set as"
    then have a: "sound_node ask" "at_home t i ask" "get_price ask oracle slot = Inr (price ask)"
      using nodes by (simp_all add: set)
    have "map_of (markets_of t (dl_exchange D')) i \<noteq> None"
      using ask by (auto simp: set asks dest: book_nodes_market)
    moreover have "\<forall>bid\<in>set bs. sound_node bid \<and> at_home t i bid" "has_prices oracle slot price (set bs)"
      using nodes by (simp_all add: set has_prices_def)
    ultimately have "cross_bids E slot oracle ask (price ask) bs [] D' =
      (if \<exists>bid\<in>set bs. orders_match price ask bid then Inl Deadlock else Inr ([], D'))"
      using cross_bids_outcome [OF ok' _ a(1,2) _ _ bs(3)] by blast
    with a(3) bs(1) show "(\<lambda>(nodes_to_fill, D) ask.
       bindE (get_price ask oracle slot) (\<lambda>ask_price.
       bindE (get_resting_limit_bids E slot t i oracle D) (\<lambda>(resting_limit_bids, D).
       cross_bids E slot oracle ask ask_price resting_limit_bids nodes_to_fill D))) ([], D') ask =
      (if \<exists>bid\<in>set bs. orders_match price ask bid then Inl Deadlock else Inr ([], D'))" by simp
  qed
  finally show ?thesis by (simp add: set)
qed

text \<open>The same for a taking order against a list of makers; the outer loop is a fold of it.\<close>

lemma cross_makers_outcome:
  assumes ok: "dlob_ok E D" and m: "map_of (markets_of t (dl_exchange D)) i \<noteq> None"
    and taker: "sound_node taker" "at_home t i taker" "get_price taker oracle slot = Inr (price taker)"
    and makers: "\<forall>maker\<in>set makers. sound_node maker \<and> at_home t i maker \<and>
      get_price maker oracle slot = Inr (price maker)"
  shows "cross_makers E t slot oracle cross taker makers acc D =
    (if \<exists>maker\<in>set makers. taker_match price (cross t) taker maker then Inl Deadlock else Inr (acc, D))"
  using makers
proof (induction makers arbitrary: acc)
  case Nil
  then show ?case by simp
next
  case (Cons maker makers)
  then have maker: "sound_node maker" "at_home t i maker" "get_price maker oracle slot = Inr (price maker)"
    and IH: "cross_makers E t slot oracle cross taker makers acc D =
      (if \<exists>maker\<in>set makers. taker_match price (cross t) taker maker then Inl Deadlock else Inr (acc, D))"
    by simp_all
  show ?case
  proof (cases "taker_match price (cross t) taker maker")
    case True
    with fill_both_deadlock [OF ok m maker(1) taker(1) maker(2) taker(2)] sound_user [OF taker(1)]
      sound_user [OF maker(1)] taker(3) maker(3) show ?thesis
      by (simp add: taker_match_def Let_def cong: if_cong)
  next
    case False
    with IH sound_user [OF taker(1)] sound_user [OF maker(1)] taker(3) maker(3) show ?thesis
      by (auto simp: taker_match_def)
  qed
qed

section \<open>Expired orders\<close>

lemma expired_loop_filter:
  assumes "side_ok E d h" and "h_len E h \<le> fuel"
    and "\<forall>n\<in>#nodes E h. is_order_expired E (get_order n) ts True = Inr (P n)"
  shows "\<exists>xs. expired_loop E ts fuel h = Inr xs \<and>
    image_mset ntf_node (mset xs) = filter_mset P (nodes E h) \<and> (\<forall>x\<in>set xs. ntf_maker_nodes x = [])"
  using assms
proof (induction fuel arbitrary: h)
  case 0
  then show ?case using size_nodes [of h] by (simp add: expired_loop.simps)
next
  case (Suc fuel)
  show ?case
  proof (cases "h_len E h = 0")
    case True
    then show ?thesis using size_nodes [of h] by (simp add: expired_loop.simps)
  next
    case False
    then obtain dn h' where pop: "h_pop E h = Some (dn, h')" using nonempty_pop by blast
    from side_pop [OF Suc.prems(1) pop] obtain n where n: "dn_node dn = OrderNode n" "side_ok E d h'"
        "nodes E h = add_mset (OrderNode n) (nodes E h')" by blast
    have len: "h_len E h' \<le> fuel" using n(3) Suc.prems(2) size_nodes [of h] size_nodes [of h'] by simp
    from Suc.IH [OF n(2) len] Suc.prems(3) n(3) obtain xs where
      xs: "expired_loop E ts fuel h' = Inr xs" "image_mset ntf_node (mset xs) = filter_mset P (nodes E h')"
        "\<forall>x\<in>set xs. ntf_maker_nodes x = []" by auto
    moreover have "is_order_expired E (on_order n) ts True = Inr (P (OrderNode n))"
      using Suc.prems(3) n(3) by simp
    ultimately show ?thesis
      using False pop n by (simp add: expired_loop.simps)
  qed
qed

lemma expired_lists:
  assumes "\<forall>h\<in>set hs. \<exists>d. side_ok E d h"
    and "\<forall>h\<in>set hs. \<forall>n\<in>#nodes E h. is_order_expired E (get_order n) ts True = Inr (P n)"
  shows "\<exists>xss. mapE (\<lambda>h. expired_loop E ts (h_len E h) h) hs = Inr xss \<and>
    image_mset ntf_node (mset (concat xss)) = filter_mset P (\<Sum>\<^sub># (image_mset (nodes E) (mset hs))) \<and>
    (\<forall>x\<in>set (concat xss). ntf_maker_nodes x = [])"
  using assms
proof (induction hs)
  case (Cons h hs)
  then obtain xss where "mapE (\<lambda>h. expired_loop E ts (h_len E h) h) hs = Inr xss"
    "image_mset ntf_node (mset (concat xss)) = filter_mset P (\<Sum>\<^sub># (image_mset (nodes E) (mset hs)))"
    "\<forall>x\<in>set (concat xss). ntf_maker_nodes x = []" by auto
  moreover from Cons.prems obtain d where "side_ok E d h" by auto
  from expired_loop_filter [OF this order_refl, of ts P] Cons.prems(2) obtain xs where
    "expired_loop E ts (h_len E h) h = Inr xs"
    "image_mset ntf_node (mset xs) = filter_mset P (nodes E h)" "\<forall>x\<in>set xs. ntf_maker_nodes x = []" by auto
  ultimately show ?case by auto
qed simp

lemma expired_orders:
  assumes ok: "dlob_ok E D" and m: "map_of (markets_of t (dl_exchange D)) i = Some m"
    and ns: "ns = \<Sum>\<^sub># (image_mset (\<lambda>ol. nodes E (ol_bids ol) + nodes E (ol_asks ol))
      {#mk_taking_limit_orders m, mk_resting_limit_orders m, mk_floating_limit_orders m,
        mk_market_orders m#})"
    and ts: "\<forall>n\<in>#ns. sint (o_max_ts (get_order n)) + 15 < 2 ^ 63"
  shows "\<exists>xs. find_expired_orders_to_fill E i t ts D = Inr xs \<and>
    image_mset ntf_node (mset xs) = filter_mset (\<lambda>n. expired_at ts True (get_order n)) ns \<and>
    (\<forall>x\<in>set xs. ntf_maker_nodes x = [])"
proof -
  let ?lists = "[mk_taking_limit_orders m, mk_resting_limit_orders m, mk_floating_limit_orders m,
    mk_market_orders m]"
  have m_ok: "book_market_ok E m"
    using ok m unfolding dlob_ok_def by (metis image_eqI map_of_SomeD snd_conv)
  have "\<forall>ol\<in>set ?lists. \<exists>nt. get_order_list_for_node_type nt m = Inr ol"
    by (auto intro: exI [of _ node_type.TakingLimit] exI [of _ node_type.RestingLimit]
        exI [of _ node_type.FloatingLimit] exI [of _ node_type.Market]
        simp: get_order_list_for_node_type_def)
  then have "\<forall>ol\<in>set ?lists. orderlist_ok E ol" using m_ok unfolding book_market_ok_def by blast
  then have sides: "\<forall>h\<in>set (map ol_bids ?lists). \<exists>d. side_ok E d h"
    "\<forall>h\<in>set (map ol_asks ?lists). \<exists>d. side_ok E d h"
    by (auto simp: orderlist_ok_def)
  let ?P = "\<lambda>n. expired_at ts True (get_order n)"
  have exp: "is_order_expired E (get_order n) ts True = Inr (?P n)" if "n \<in># ns" for n
    using is_order_expired_eq [OF env_ok] ts that by blast
  have b: "\<forall>h\<in>set (map ol_bids ?lists). \<forall>n\<in>#nodes E h. is_order_expired E (get_order n) ts True = Inr (?P n)"
    and a: "\<forall>h\<in>set (map ol_asks ?lists). \<forall>n\<in>#nodes E h. is_order_expired E (get_order n) ts True = Inr (?P n)"
    using exp by (auto simp: ns)
  from expired_lists [OF sides(1) b] expired_lists [OF sides(2) a] show ?thesis
    by (auto simp: find_expired_orders_to_fill_def m Let_def ns simp del: mapE.simps)
qed

lemma taking_search:
  assumes ok: "dlob_ok E D" and market: "mo_market_type market = t" "mo_market_index market = i"
    and m: "map_of (markets_of t (dl_exchange D)) i \<noteq> None"
    and makers: "maker_nodes slot t i oracle D = Inr (makers, D)"
    and nodes: "\<forall>node\<in>set takers \<union> set makers. sound_node node \<and> at_home t i node \<and>
       get_price node oracle slot = Inr (price node)"
  shows "find_taking_nodes_crossing_maker_nodes E market slot oracle takers maker_nodes cross D =
    (if \<exists>taker\<in>set takers. \<exists>maker\<in>set makers. taker_match price (cross t) taker maker
     then Inl Deadlock else Inr ([], D))"
  unfolding find_taking_nodes_crossing_maker_nodes_def
proof (rule foldE_deadlock)
  fix taker assume "taker \<in> set takers"
  with nodes have taker: "sound_node taker" "at_home t i taker"
    "get_price taker oracle slot = Inr (price taker)" by simp_all
  have "cross_makers E t slot oracle cross taker makers [] D =
      (if \<exists>maker\<in>set makers. taker_match price (cross t) taker maker then Inl Deadlock else Inr ([], D))"
    by (rule cross_makers_outcome [OF ok m]) (use nodes taker in auto)
  with makers show "(\<lambda>(nodes_to_fill, D) taker.
       bindE (maker_nodes slot (mo_market_type market) (mo_market_index market) oracle D)
         (\<lambda>(maker_nodes, D).
       cross_makers E (mo_market_type market) slot oracle cross taker maker_nodes nodes_to_fill D))
       ([], D) taker =
    (if \<exists>maker\<in>set makers. taker_match price (cross t) taker maker then Inl Deadlock else Inr ([], D))"
    by (simp add: market)
qed

end

section \<open>Fallback liquidity\<close>

lemma is_fallback_available_eq:
  assumes "uint (o_slot order) + uint min_duration < 2 ^ 64"
  shows "is_fallback_available order min_duration slot =
    Inr (min_duration = 0 \<or> uint (o_slot order) + uint min_duration < uint slot)"
  using assms
  by (auto simp: is_fallback_available_def uadd_def uint_widen_u8 word_less_def uint_word_ariths)

definition takes_fallback :: "market_type \<Rightarrow> u64 \<Rightarrow> u8 \<Rightarrow> (node \<Rightarrow> bool) \<Rightarrow> node \<Rightarrow> bool" where
  "takes_fallback t slot min_duration crosses node \<longleftrightarrow> crosses node \<and>
     (if t = market_type.Spot then \<not> o_post_only (get_order node)
      else min_duration = 0 \<or> uint (o_slot (get_order node)) + uint min_duration < uint slot)"

lemma fallback_search:
  assumes "\<forall>node\<in>set ns. get_limit_price (get_order node) oracle slot None = Inr (price node) \<and>
      does_cross (Some (price node)) = Inr (crosses node) \<and>
      uint (o_slot (get_order node)) + uint min_duration < 2 ^ 64"
  shows "find_nodes_crossing_fallback_liquidity t slot oracle ns does_cross min_duration =
    Inr (map (\<lambda>node. \<lparr>ntf_node = node, ntf_maker_nodes = []\<rparr>)
      (filter (takes_fallback t slot min_duration crosses) ns))"
proof -
  have "foldE (\<lambda>nodes_to_fill node.
       if t = market_type.Spot \<and> o_post_only (get_order node) then Inr nodes_to_fill
       else
         bindE (get_limit_price (get_order node) oracle slot None) (\<lambda>node_price.
         bindE (does_cross (Some node_price)) (\<lambda>crosses.
         bindE (if t = market_type.Spot then Inr True
                else is_fallback_available (get_order node) min_duration slot)
           (\<lambda>fallback_available.
         Inr (if crosses \<and> fallback_available
              then nodes_to_fill @ [\<lparr>ntf_node = node, ntf_maker_nodes = []\<rparr>]
              else nodes_to_fill))))) acc ns =
    Inr (acc @ map (\<lambda>node. \<lparr>ntf_node = node, ntf_maker_nodes = []\<rparr>)
      (filter (takes_fallback t slot min_duration crosses) ns))" for acc
    using assms
    by (induction ns arbitrary: acc) (auto simp: is_fallback_available_eq takes_fallback_def)
  then show ?thesis by (simp add: find_nodes_crossing_fallback_liquidity_def)
qed

section \<open>Merging\<close>

definition fill_sig :: "'a order_env_scheme \<Rightarrow> node_to_fill \<Rightarrow> string" where
  "fill_sig E x = get_order_signature E (o_order_id (get_order (ntf_node x))) (owner (ntf_node x))"

definition merged_entry :: "'a order_env_scheme \<Rightarrow> node_to_fill list \<Rightarrow> string \<Rightarrow> node_to_fill" where
  "merged_entry E ns s = (let ys = filter (\<lambda>y. fill_sig E y = s) ns in
     \<lparr>ntf_node = ntf_node (hd ys), ntf_maker_nodes = concat (map ntf_maker_nodes ys)\<rparr>)"

definition merged_map :: "'a order_env_scheme \<Rightarrow> node_to_fill list \<Rightarrow> string \<rightharpoonup> node_to_fill" where
  "merged_map E ns s = (if s \<in> fill_sig E ` set ns then Some (merged_entry E ns s) else None)"

lemma merge_step_eq:
  assumes "map_of m = merged_map E ns" and "distinct (map fst m)" and "\<not> is_vamm_node (ntf_node x)"
  shows "\<exists>m'. merge_step E m x = Inr m' \<and> map_of m' = merged_map E (ns @ [x]) \<and> distinct (map fst m')"
proof -
  obtain n where n: "ntf_node x = OrderNode n" using assms(3) by (cases "ntf_node x") auto
  define s where "s = fill_sig E x"
  have s: "get_order_signature E (o_order_id (on_order n)) (on_user_account n) = s"
    by (simp add: s_def fill_sig_def n owner_def)
  have other: "merged_map E (ns @ [x]) s' = merged_map E ns s'" if "s' \<noteq> s" for s'
    using that by (auto simp: merged_map_def merged_entry_def s_def)
  have here: "merged_map E (ns @ [x]) s = Some (case merged_map E ns s of
      None \<Rightarrow> \<lparr>ntf_node = ntf_node x, ntf_maker_nodes = ntf_maker_nodes x\<rparr>
    | Some y \<Rightarrow> y\<lparr>ntf_maker_nodes := ntf_maker_nodes y @ ntf_maker_nodes x\<rparr>)"
  proof (cases "s \<in> fill_sig E ` set ns")
    case True
    then have "filter (\<lambda>y. fill_sig E y = s) ns \<noteq> []" by (auto simp: filter_empty_conv)
    with True show ?thesis by (simp add: merged_map_def merged_entry_def Let_def s_def)
  next
    case False
    then have "filter (\<lambda>y. fill_sig E y = s) ns = []" by (auto simp: filter_empty_conv)
    with False show ?thesis by (simp add: merged_map_def merged_entry_def Let_def s_def)
  qed
  have new: "merged_map E (ns @ [x]) = (merged_map E ns)(s \<mapsto> (case merged_map E ns s of
      None \<Rightarrow> \<lparr>ntf_node = ntf_node x, ntf_maker_nodes = ntf_maker_nodes x\<rparr>
    | Some y \<Rightarrow> y\<lparr>ntf_maker_nodes := ntf_maker_nodes y @ ntf_maker_nodes x\<rparr>))"
    using other here by (simp add: fun_eq_iff)
  show ?thesis
    unfolding new using assms(1,2)
    by (cases "merged_map E ns s"; cases "ntf_maker_nodes x = []")
       (auto simp: merge_step_def n s Let_def update_conv' distinct_update fun_eq_iff
         split: option.split)
qed

lemma merge_fold:
  assumes "map_of m = merged_map E ns" and "distinct (map fst m)"
    and "\<forall>x\<in>set xs. \<not> is_vamm_node (ntf_node x)"
  shows "\<exists>m'. foldE (merge_step E) m xs = Inr m' \<and> map_of m' = merged_map E (ns @ xs) \<and>
    distinct (map fst m')"
  using assms
proof (induction xs arbitrary: m ns)
  case (Cons x xs)
  then obtain m1 where m1: "merge_step E m x = Inr m1" "map_of m1 = merged_map E (ns @ [x])"
    "distinct (map fst m1)" using merge_step_eq [of m E ns x] by auto
  from Cons.IH [OF m1(2,3)] Cons.prems(3) m1(1) show ?case by auto
qed auto

lemma merged_sig: "s \<in> fill_sig E ` set ns \<Longrightarrow> fill_sig E (merged_entry E ns s) = s"
proof -
  assume "s \<in> fill_sig E ` set ns"
  then have "filter (\<lambda>y. fill_sig E y = s) ns \<noteq> []" by (auto simp: filter_empty_conv)
  then have "hd (filter (\<lambda>y. fill_sig E y = s) ns) \<in> set (filter (\<lambda>y. fill_sig E y = s) ns)"
    by (rule hd_in_set)
  then show ?thesis by (simp add: merged_entry_def Let_def fill_sig_def)
qed

lemma merge_eq:
  assumes "\<forall>x\<in>set (nodes_a @ nodes_b). \<not> is_vamm_node (ntf_node x)"
  shows "\<exists>xs. merge_and_deduplicate_nodes E nodes_a nodes_b = Inr xs \<and>
    distinct (map (fill_sig E) xs) \<and>
    set xs = merged_entry E (nodes_a @ nodes_b) ` fill_sig E ` set (nodes_a @ nodes_b)"
proof -
  have "map_of [] = merged_map E []" by (simp add: merged_map_def fun_eq_iff)
  from merge_fold [OF this, of "nodes_a @ nodes_b"] assms obtain m where
    m: "foldE (merge_step E) [] (nodes_a @ nodes_b) = Inr m"
      "map_of m = merged_map E (nodes_a @ nodes_b)" "distinct (map fst m)" by auto
  have mem: "(s, x) \<in> set m \<longleftrightarrow> s \<in> fill_sig E ` set (nodes_a @ nodes_b) \<and>
      x = merged_entry E (nodes_a @ nodes_b) s" for s x
    using map_of_eq_Some_iff [OF m(3), of s x] m(2)
    by (auto simp: merged_map_def split: if_splits)
  have "merge_and_deduplicate_nodes E nodes_a nodes_b = Inr (map snd m)"
    using m(1) by (auto simp: merge_and_deduplicate_nodes_def foldE_append bindE_def split: sum.splits)
  moreover have "map (fill_sig E) (map snd m) = map fst m"
    using mem merged_sig [of _ E "nodes_a @ nodes_b"] by (auto simp del: set_append)
  moreover have "set (map snd m) = merged_entry E (nodes_a @ nodes_b) ` fill_sig E ` set (nodes_a @ nodes_b)"
    using mem by (force simp del: set_append)
  ultimately show ?thesis using m(3) by metis
qed

section \<open>Properties\<close>


text \<open>
  The same holds for the search of makers for the taking orders: it returns nothing if no taker
  matches a maker of another owner, and blocks for ever otherwise.
\<close>

theorem crossing_takers_deadlock:
  assumes "dlob_env E" and "dlob_ok E D" and "mo_market_type market = t" and "mo_market_index market = i"
    and "map_of (markets_of t (dl_exchange D)) i \<noteq> None"
    and "maker_nodes slot t i oracle D = Inr (makers, D)"
    and "\<forall>node\<in>set takers \<union> set makers. sound_node node \<and> at_home t i node \<and>
       get_price node oracle slot = Inr (price node)"
  shows "find_taking_nodes_crossing_maker_nodes E market slot oracle takers maker_nodes cross D =
    (if \<exists>taker\<in>set takers. \<exists>maker\<in>set makers. taker_match price (cross t) taker maker
     then Inl Deadlock else Inr ([], D))"
  using assms by (rule dlob_env.taking_search)

text \<open>
  C28. The expired orders to fill are exactly the expired orders of the taking, resting, floating and
  market lists of the market, each once for every entry and without makers.
\<close>

theorem expired_orders_exact:
  assumes "dlob_env E" and "dlob_ok E D"
    and "map_of (markets_of t (dl_exchange D)) i = Some m"
    and "ns = \<Sum>\<^sub># (image_mset (\<lambda>ol. nodes E (ol_bids ol) + nodes E (ol_asks ol))
      {#mk_taking_limit_orders m, mk_resting_limit_orders m, mk_floating_limit_orders m,
        mk_market_orders m#})"
    and "\<forall>n\<in>#ns. sint (o_max_ts (get_order n)) + 15 < 2 ^ 63"
  shows "\<exists>xs. find_expired_orders_to_fill E i t ts D = Inr xs \<and>
    image_mset ntf_node (mset xs) = filter_mset (\<lambda>n. expired_at ts True (get_order n)) ns \<and>
    (\<forall>x\<in>set xs. ntf_maker_nodes x = [])"
  using assms by (rule dlob_env.expired_orders)

text \<open>
  C27. Against fallback liquidity the search returns, in their order and without makers, exactly the
  nodes that cross the fallback price and may be filled by it: on a spot market those that are not
  post only, on a perp market those whose minimum auction is over.
\<close>

theorem fallback_orders_exact:
  assumes "\<forall>node\<in>set ns. get_limit_price (get_order node) oracle slot None = Inr (price node) \<and>
      does_cross (Some (price node)) = Inr (crosses node) \<and>
      uint (o_slot (get_order node)) + uint min_duration < 2 ^ 64"
  shows "find_nodes_crossing_fallback_liquidity t slot oracle ns does_cross min_duration =
    Inr (map (\<lambda>node. \<lparr>ntf_node = node, ntf_maker_nodes = []\<rparr>)
      (filter (takes_fallback t slot min_duration crosses) ns))"
  using assms by (rule fallback_search)

text \<open>
  Of two orders at most one is given as the maker, and it is the second component, not the first:
  the first is never post only, and the second is post only or its auction ends no later than that
  of the first. There is no pair exactly when both are post only.
\<close>

theorem maker_is_second:
  assumes "determine_maker_and_taker ask bid = Inr pair"
  shows "(pair = None \<longleftrightarrow> o_post_only (get_order ask) \<and> o_post_only (get_order bid)) \<and>
    (\<forall>first second. pair = Some (first, second) \<longrightarrow>
       {first, second} = {ask, bid} \<and> \<not> o_post_only (get_order first) \<and>
       (o_post_only (get_order second) \<or>
        uint (o_slot (get_order second)) + uint (o_auction_duration (get_order second)) \<le>
        uint (o_slot (get_order first)) + uint (o_auction_duration (get_order first))))"
  using assms
  by (auto simp: determine_maker_and_taker_def Let_def returns uint_widen_u8 word_le_def
      uint_word_ariths split: if_splits)

text \<open>
  C30. Merging gives one entry for every order signature of the two lists: the node is that of the first
  entry with the signature, and the makers are those of all its entries, in order.
\<close>

theorem merge_by_signature:
  assumes "\<forall>x\<in>set (nodes_a @ nodes_b). \<not> is_vamm_node (ntf_node x)"
  shows "\<exists>xs. merge_and_deduplicate_nodes E nodes_a nodes_b = Inr xs \<and>
    distinct (map (fill_sig E) xs) \<and>
    set xs = merged_entry E (nodes_a @ nodes_b) ` fill_sig E ` set (nodes_a @ nodes_b)"
  using assms by (rule merge_eq)

text \<open>
  When the exchange has paused fills, no perp and no spot market is searched and the book is left
  alone.
\<close>

theorem paused_exchange_fills_nothing:
  assumes "and (st_exchange_status state) (es_fill_paused M) = es_fill_paused M"
    and "market = perp_market_ops M pm \<or> market = spot_market_ops M sm"
  shows "find_nodes_to_fill E market fallback_bid fallback_ask slot ts oracle state D = Inr (None, D)"
  using assms(2) perp_ops.fill_paused [OF assms(1)] spot_ops.fill_paused [OF assms(1)]
  by (auto simp: find_nodes_to_fill_def)

section \<open>Worked examples\<close>

text \<open>A resting bid at 1000 and a resting ask of another user at 900, inserted in slot 0.\<close>

definition bid_order :: order where
  "bid_order = sample_order\<lparr>o_auction_duration := 0\<rparr>"

definition ask_order :: order where
  "ask_order = sample_order\<lparr>o_order_id := 3, o_auction_duration := 0, o_direction := Short, o_price := 900\<rparr>"

lemma resting_classified:
  "get_node_subtype_and_type list_env bid_order 0 = Inr (sub_type.Bid, node_type.RestingLimit)"
  "get_node_subtype_and_type list_env ask_order 0 = Inr (sub_type.Ask, node_type.RestingLimit)"
  by (simp_all add: get_node_subtype_and_type_def is_resting_limit_order_def is_auction_complete_def
      Let_def) (simp_all add: bid_order_def ask_order_def sample_order_def)

lemma insert_keeps_slot:
  "insert_order E order user slot D = Inr D' \<Longrightarrow>
   dl_max_slot_for_resting_limit_orders D' = dl_max_slot_for_resting_limit_orders D"
  by (auto simp: insert_order_def Let_def returns)

definition flat_oracle :: oracle_price_data where
  "flat_oracle = \<lparr>opd_price = 0, opd_confidence = 0, opd_delay = 0,
     opd_has_sufficient_number_of_data_points = True\<rparr>"

definition perp_zero :: market_ops where
  "perp_zero = \<lparr>mo_market_type = market_type.Perp, mo_market_index = 0,
     mo_calculate_maker_rebate = (\<lambda>_. Inr (0, 1)), mo_is_amm_paused = (\<lambda>_. Inr False),
     mo_is_fill_paused = (\<lambda>_. False)\<rparr>"

definition bid_node :: node where
  "bid_node = create_node node_type.RestingLimit bid_order 7"

definition ask_node :: node where
  "ask_node = create_node node_type.RestingLimit ask_order 8"

lemma crossed_nodes [simp]:
  "get_order bid_node = bid_order" "get_order ask_node = ask_order" "owner bid_node = 7" "owner ask_node = 8"
  "\<not> is_vamm_node bid_node" "\<not> is_vamm_node ask_node"
  by (simp_all add: bid_node_def ask_node_def create_node_def owner_def)

lemma crossed_orders [simp]:
  "o_market_type bid_order = market_type.Perp" "o_market_index bid_order = 0" "o_order_id bid_order = 1"
  "o_market_type ask_order = market_type.Perp" "o_market_index ask_order = 0" "o_order_id ask_order = 3"
  "\<not> o_post_only bid_order" "\<not> o_post_only ask_order"
  by (simp_all add: bid_order_def ask_order_def sample_order_def)

lemma crossed_prices:
  "get_price bid_node flat_oracle slot = Inr 1000" "get_price ask_node flat_oracle slot = Inr 900"
  by (simp_all add: bid_node_def ask_node_def create_node_def order_node_new_def order_node_get_price_def
      get_limit_price_def has_auction_price_def is_auction_complete_def)
     (simp_all add: bid_order_def ask_order_def sample_order_def)

lemma crossed_differ: "ask_node \<noteq> bid_node"
proof -
  have "owner ask_node \<noteq> owner bid_node" by simp
  then show ?thesis by metis
qed

lemma crossed_sound: "sound_node bid_node" "sound_node ask_node"
  "at_home market_type.Perp 0 bid_node" "at_home market_type.Perp 0 ask_node"
  by (simp_all add: sound_node_def at_home_def) (simp_all add: bid_order_def ask_order_def sample_order_def)

lemma crossed_book:
  "\<exists>D. dlob_ok list_env D \<and> update_resting_limit_orders list_env 0 D = Inr D \<and>
     map_of (markets_of market_type.Perp (dl_exchange D)) 0 \<noteq> None \<and>
     (\<forall>nt st. book_nodes list_env D market_type.Perp 0 nt st =
       (if nt = node_type.RestingLimit \<and> st = sub_type.Bid then {#bid_node#}
        else if nt = node_type.RestingLimit \<and> st = sub_type.Ask then {#ask_node#} else {#}))"
proof -
  obtain D1 where D1: "insert_order list_env bid_order 7 0 dlob_new = Inr D1"
    using insert_order_defined [of bid_order list_env 7 0 dlob_new]
    by (auto simp: bid_order_def sample_order_def)
  obtain D where D: "insert_order list_env ask_order 8 0 D1 = Inr D"
    using insert_order_defined [of ask_order list_env 8 0 D1]
    by (auto simp: ask_order_def sample_order_def)
  note ok1 = list_book.insert_order_invariants [OF list_book.dlob_new_ok(1) D1]
  note closed1 = ok1(2) [OF list_book.dlob_new_ok(2)]
  have fresh: "dlob_get_order list_env (o_order_id ask_order) 8 D1 = None"
    using list_book.insert_get_order [OF fresh_new D1, of 3 8] fresh_new by simp
  have empty: "book_nodes list_env dlob_new t i nt st = {#}" for t i nt st
    by (cases t) (simp_all add: book_nodes_def dlob_new_def exchange_new_def markets_of_def)
  have nodes: "book_nodes list_env D market_type.Perp 0 nt st =
       (if nt = node_type.RestingLimit \<and> st = sub_type.Bid then {#bid_node#}
        else if nt = node_type.RestingLimit \<and> st = sub_type.Ask then {#ask_node#} else {#})" for nt st
    using list_book.insert_order_book [OF ok1(1) closed1 fresh resting_classified(2) D, of market_type.Perp 0 nt st]
      list_book.insert_order_book [OF list_book.dlob_new_ok fresh_new resting_classified(1) D1, of market_type.Perp 0 nt st]
    by (auto simp: empty bid_node_def ask_node_def)
  have "dl_max_slot_for_resting_limit_orders D = 0"
    using insert_keeps_slot [OF D] insert_keeps_slot [OF D1] by (simp add: dlob_new_def)
  then have "update_resting_limit_orders list_env 0 D = Inr D"
    by (simp add: update_resting_limit_orders_def)
  moreover have "map_of (markets_of market_type.Perp (dl_exchange D)) 0 \<noteq> None"
    using nodes [of node_type.RestingLimit sub_type.Bid] list_book.book_nodes_market
    by (metis add_mset_not_empty multiset_nonemptyE)
  ultimately show ?thesis
    using nodes list_book.insert_order_invariants(1) [OF ok1(1) D] by blast
qed


theorem crossing_takers_deadlock_witness:
  "\<exists>D. find_taking_nodes_crossing_maker_nodes list_env perp_zero 0 flat_oracle [bid_node]
       (\<lambda>slot t i oracle D. Inr ([ask_node], D)) (bids_cross None) D = Inl Deadlock"
proof -
  obtain D where D: "dlob_ok list_env D" "map_of (markets_of market_type.Perp (dl_exchange D)) 0 \<noteq> None"
    using crossed_book by blast
  let ?price = "\<lambda>node. if node = bid_node then 1000 else 900 :: u64"
  have "find_taking_nodes_crossing_maker_nodes list_env perp_zero 0 flat_oracle [bid_node]
       (\<lambda>slot t i oracle D. Inr ([ask_node], D)) (bids_cross None) D =
    (if \<exists>taker\<in>set [bid_node]. \<exists>maker\<in>set [ask_node].
        taker_match ?price (bids_cross None market_type.Perp) taker maker
     then Inl Deadlock else Inr ([], D))"
    by (rule crossing_takers_deadlock [OF list_book.dlob_env_axioms D(1) _ _ D(2)])
       (use crossed_differ crossed_sound crossed_prices in \<open>auto simp: perp_zero_def\<close>)
  moreover have "taker_match ?price (bids_cross None market_type.Perp) bid_node ask_node"
    using crossed_differ by (simp add: taker_match_def bids_cross_def)
  ultimately show ?thesis by auto
qed

theorem expired_orders_exact_witness:
  "\<exists>xs. find_expired_orders_to_fill list_env 0 market_type.Perp 5016 sample_book = Inr xs \<and>
     image_mset ntf_node (mset xs) = {#sample_node#}"
proof -
  have "\<exists>xs. find_expired_orders_to_fill list_env 0 market_type.Perp 5016 sample_book = Inr xs \<and>
    image_mset ntf_node (mset xs) =
      filter_mset (\<lambda>n. expired_at 5016 True (get_order n)) {#sample_node#} \<and>
    (\<forall>x\<in>set xs. ntf_maker_nodes x = [])"
    by (rule expired_orders_exact [OF list_book.dlob_env_axioms sample_book_ok(1), where m = sample_market])
       (simp_all add: nodes_def directional_node_new_def orderlist_new_def sample_market_def market_new_def,
        simp_all add: sample_order_def)
  moreover have "expired_at 5016 True sample_order"
    by (simp add: expired_at_def) (simp add: sample_order_def)
  ultimately show ?thesis by auto
qed

theorem fallback_orders_exact_witness:
  "find_nodes_crossing_fallback_liquidity market_type.Perp 200 flat_oracle [bid_node]
     (\<lambda>price. Inr (price = Some 1000)) 10 = Inr [\<lparr>ntf_node = bid_node, ntf_maker_nodes = []\<rparr>]"
  using fallback_orders_exact [of "[bid_node]" flat_oracle 200 "\<lambda>_. 1000"
      "\<lambda>price. Inr (price = Some 1000)" "\<lambda>_. True" 10 market_type.Perp]
  by (simp add: takes_fallback_def bid_order_def sample_order_def get_limit_price_def
      has_auction_price_def is_auction_complete_def)

theorem maker_is_second_witness:
  "determine_maker_and_taker ask_node bid_node = Inr (Some (bid_node, ask_node)) \<and>
   \<not> o_post_only (get_order bid_node)"
proof -
  have "determine_maker_and_taker ask_node bid_node = Inr (Some (bid_node, ask_node))"
    by (simp add: determine_maker_and_taker_def Let_def uadd_def)
       (simp add: bid_order_def ask_order_def sample_order_def)
  with maker_is_second [OF this] show ?thesis by simp
qed

theorem merge_by_signature_witness:
  "\<exists>xs. merge_and_deduplicate_nodes list_env [\<lparr>ntf_node = bid_node, ntf_maker_nodes = [ask_node]\<rparr>]
       [\<lparr>ntf_node = bid_node, ntf_maker_nodes = []\<rparr>] = Inr xs \<and>
     set xs = {\<lparr>ntf_node = bid_node, ntf_maker_nodes = [ask_node]\<rparr>}"
  using merge_by_signature [of "[\<lparr>ntf_node = bid_node, ntf_maker_nodes = [ask_node]\<rparr>]"
      "[\<lparr>ntf_node = bid_node, ntf_maker_nodes = []\<rparr>]" list_env]
  by (auto simp: fill_sig_def merged_entry_def)

theorem paused_exchange_fills_nothing_witness:
  "find_nodes_to_fill list_env
     (perp_market_ops pausing_env (sample_perp_market 1))
     None None 0 0 flat_oracle paused_state dlob_new = Inr (None, dlob_new)"
  by (rule paused_exchange_fills_nothing [where M = pausing_env])
     (auto simp: paused_state_def pausing_env_def)

end
