(* ===== verification/Program_Data.thy ===== *)
theory Program_Data
  imports Program_Types
begin

text \<open>
  \<open>src/src/constants.rs\<close>, the referrer lookup of \<open>src/src/types.rs\<close> and the wallet of
  \<open>src/src/lib.rs\<close>: program addresses derived from seeds and the static market data of the program.

  \<open>ProgramData::new\<close> sorts the markets by index and panics unless the indexes are 0, 1, 2 and so
  on; that is what makes the lookup by index find the market of that index.
\<close>

section \<open>Derived addresses\<close>

text \<open>A key is its 32 bytes, the most significant first; an index is two bytes, the least first.\<close>

definition bytes_of_pubkey :: "pubkey \<Rightarrow> u8 list" where
  "bytes_of_pubkey k = map (\<lambda>i. ucast (drop_bit (8 * (31 - i)) k)) [0..<32]"

definition u16_to_le_bytes :: "u16 \<Rightarrow> u8 list" where
  "u16_to_le_bytes x = [ucast x, ucast (drop_bit 8 x)]"

definition bytes_of :: "string \<Rightarrow> u8 list" where
  "bytes_of s = map of_char s"

definition DEFAULT_PUBKEY :: "chain_env \<Rightarrow> pubkey" where
  "DEFAULT_PUBKEY C = pubkey_of C ''11111111111111111111111111111111''"

definition TOKEN_PROGRAM_ID :: "chain_env \<Rightarrow> pubkey" where
  "TOKEN_PROGRAM_ID C = pubkey_of C ''TokenkegQfeZyiNwAJbNbGKPFXCWuBvf9Ss623VQ5DA''"

datatype drift_context = DevNet | MainNet

definition market_lookup_table :: "chain_env \<Rightarrow> drift_context \<Rightarrow> pubkey" where
  "market_lookup_table C context = (case context of
     DevNet \<Rightarrow> pubkey_of C ''FaMS3U4uBojvGn5FSDEPimddcXsCfwkKsFgMVVnDdxGb''
   | MainNet \<Rightarrow> pubkey_of C ''D9cnvzswDikQDf53k4HpQ3KJ9y1Fv3HGGDFYMXnK5T6c'')"

definition state_account :: "chain_env \<Rightarrow> pubkey" where
  "state_account C = find_program_address C [bytes_of ''drift_state''] (drift_ID C)"

definition derive_spot_market_account :: "chain_env \<Rightarrow> u16 \<Rightarrow> pubkey" where
  "derive_spot_market_account C market_index =
     find_program_address C [bytes_of ''spot_market'', u16_to_le_bytes market_index] (drift_ID C)"

definition derive_perp_market_account :: "chain_env \<Rightarrow> u16 \<Rightarrow> pubkey" where
  "derive_perp_market_account C market_index =
     find_program_address C [bytes_of ''perp_market'', u16_to_le_bytes market_index] (drift_ID C)"

definition derive_spot_market_vault :: "chain_env \<Rightarrow> u16 \<Rightarrow> pubkey" where
  "derive_spot_market_vault C market_index =
     find_program_address C [bytes_of ''spot_market_vault'', u16_to_le_bytes market_index] (drift_ID C)"

definition derive_drift_signer :: "chain_env \<Rightarrow> pubkey" where
  "derive_drift_signer C = find_program_address C [bytes_of ''drift_signer''] (drift_ID C)"

definition derive_user_account :: "chain_env \<Rightarrow> pubkey \<Rightarrow> u16 \<Rightarrow> pubkey \<Rightarrow> pubkey" where
  "derive_user_account C authority sub_account_id program =
     find_program_address C [bytes_of ''user'', bytes_of_pubkey authority, u16_to_le_bytes sub_account_id]
       program"

definition derive_stats_account :: "chain_env \<Rightarrow> pubkey \<Rightarrow> pubkey \<Rightarrow> pubkey" where
  "derive_stats_account C account program =
     find_program_address C [bytes_of ''user_stats'', bytes_of_pubkey account] program"

definition get_referrer_info :: "chain_env \<Rightarrow> user_stats \<Rightarrow> referrer_info option" where
  "get_referrer_info C taker_stats =
     (if us_referrer taker_stats = 0 then None
      else Some \<lparr>ri_referrer = derive_user_account C (us_referrer taker_stats) 0 (drift_ID C),
        ri_referrer_stats = derive_stats_account C (us_referrer taker_stats) (drift_ID C)\<rparr>)"

section \<open>Symbols\<close>

text \<open>White space of the ASCII range; names in other alphabets are not modelled.\<close>

definition is_space :: "char \<Rightarrow> bool" where
  "is_space c \<longleftrightarrow> c \<in> {CHR '' '', CHR 0x09, CHR 0x0A, CHR 0x0B, CHR 0x0C, CHR 0x0D}"

definition trim_end :: "string \<Rightarrow> string" where
  "trim_end s = rev (dropWhile is_space (rev s))"

definition perp_symbol :: "perp_market \<Rightarrow> string" where
  "perp_symbol m = trim_end (pm_name m)"

definition spot_symbol :: "spot_market \<Rightarrow> string" where
  "spot_symbol m = trim_end (sm_name m)"

section \<open>Program data\<close>

record lookup_table =
  lt_key :: pubkey
  lt_addresses :: "pubkey list"

record program_data =
  pd_spot_markets :: "spot_market list"
  pd_perp_markets :: "perp_market list"
  pd_lookup_table :: lookup_table

definition uninitialized :: program_data where
  "uninitialized = \<lparr>pd_spot_markets = [], pd_perp_markets = [],
     pd_lookup_table = \<lparr>lt_key = 0, lt_addresses = []\<rparr>\<rparr>"

definition indexes_aligned :: "('m \<Rightarrow> u16) \<Rightarrow> 'm list \<Rightarrow> bool" where
  "indexes_aligned index ms = list_all (\<lambda>(idx, x). idx = unat (index x)) (zip [0..<length ms] ms)"

definition program_data_new ::
  "spot_market list \<Rightarrow> perp_market list \<Rightarrow> lookup_table \<Rightarrow> program_data res" where
  "program_data_new spot perp lookup_table =
     bindE (sort_byE (\<lambda>a b. Inr (cmp_of (sm_market_index a) (sm_market_index b))) spot) (\<lambda>spot.
     bindE (sort_byE (\<lambda>a b. Inr (cmp_of (pm_market_index a) (pm_market_index b))) perp) (\<lambda>perp.
     bindE (guardE (indexes_aligned sm_market_index spot) (Panic ''spot indexes unaligned'')) (\<lambda>_.
     bindE (guardE (indexes_aligned pm_market_index perp) (Panic ''perp indexes unaligned'')) (\<lambda>_.
     Inr \<lparr>pd_spot_markets = spot, pd_perp_markets = perp, pd_lookup_table = lookup_table\<rparr>))))"

definition slice_get :: "nat \<Rightarrow> 'a list \<Rightarrow> 'a option" where
  "slice_get i xs = (if i < length xs then Some (xs ! i) else None)"

definition spot_market_config_by_index :: "program_data \<Rightarrow> u16 \<Rightarrow> spot_market option" where
  "spot_market_config_by_index P market_index = slice_get (unat market_index) (pd_spot_markets P)"

definition perp_market_config_by_index :: "program_data \<Rightarrow> u16 \<Rightarrow> perp_market option" where
  "perp_market_config_by_index P market_index = slice_get (unat market_index) (pd_perp_markets P)"

section \<open>Aligned indexes\<close>

text \<open>The lookups and the alignment check are the same for both kinds: the lemmas are stated once.\<close>

lemma aligned_nth:
  "indexes_aligned index ms \<longleftrightarrow> (\<forall>i<length ms. unat (index (ms ! i)) = i)"
  by (auto simp: indexes_aligned_def list_all_length)

lemma aligned_get:
  assumes "indexes_aligned index ms"
  shows "slice_get (unat i) ms = Some m \<longleftrightarrow> m \<in> set ms \<and> index m = i"
  using assms by (auto simp: aligned_nth slice_get_def in_set_conv_nth word_unat_eq_iff)

lemma aligned_distinct:
  assumes "indexes_aligned index ms"
  shows "distinct ms"
  using assms by (auto simp: aligned_nth distinct_conv_nth) metis

lemma sort_by_index:
  "\<exists>zs. (sort_byE (\<lambda>a b. Inr (cmp_of (index a) (index b))) xs :: 'f + 'm list) = Inr zs \<and>
     mset zs = mset xs \<and> sorted (map (\<lambda>m. unat (index m)) zs)" for index :: "'m \<Rightarrow> u16"
  by (rule sort_byE_sorted) (auto simp: cmp_agrees_def cmp_of_def word_less_nat_alt word_le_nat_alt)

lemma aligned_iff:
  assumes "mset zs = mset xs" and "sorted (map (\<lambda>m. unat (index m)) zs)"
  shows "indexes_aligned index zs \<longleftrightarrow>
    image_mset (\<lambda>m. unat (index m)) (mset xs) = mset [0..<length xs]"
proof
  assume "indexes_aligned index zs"
  then have "map (\<lambda>m. unat (index m)) zs = [0..<length zs]"
    by (auto simp: aligned_nth intro!: nth_equalityI)
  then have "image_mset (\<lambda>m. unat (index m)) (mset zs) = mset [0..<length zs]"
    by (metis mset_map)
  then show "image_mset (\<lambda>m. unat (index m)) (mset xs) = mset [0..<length xs]"
    using assms(1) by (metis mset_eq_length)
next
  assume *: "image_mset (\<lambda>m. unat (index m)) (mset xs) = mset [0..<length xs]"
  have len: "length zs = length xs" using assms(1) by (rule mset_eq_length)
  have "mset (map (\<lambda>m. unat (index m)) zs) = mset [0..<length xs]"
    using * assms(1) by simp
  then have "map (\<lambda>m. unat (index m)) zs = [0..<length xs]"
    using assms(2) by (metis properties_for_sort sorted_sort_id sorted_upt)
  then show "indexes_aligned index zs"
    using len by (auto simp: aligned_nth dest: arg_cong [where f = "\<lambda>l. l ! _"])
      (metis add_0 nth_map nth_upt)
qed

section \<open>Properties\<close>

text \<open>
  Program data is built exactly when the indexes of the spot markets and those of the perp markets
  are 0, 1, 2 and so on without a gap or a repetition, in any order; otherwise the constructor
  panics. The lookup by index then finds exactly the given market with that index.
\<close>

theorem program_data_by_index:
  shows "((\<exists>P. program_data_new spot perp table = Inr P) \<longleftrightarrow>
     image_mset (\<lambda>m. unat (sm_market_index m)) (mset spot) = mset [0..<length spot] \<and>
     image_mset (\<lambda>m. unat (pm_market_index m)) (mset perp) = mset [0..<length perp]) \<and>
    (program_data_new spot perp table = Inr P \<longrightarrow>
      (spot_market_config_by_index P i = Some sm \<longleftrightarrow> sm \<in> set spot \<and> sm_market_index sm = i) \<and>
      (perp_market_config_by_index P i = Some pm \<longleftrightarrow> pm \<in> set perp \<and> pm_market_index pm = i))"
proof -
  obtain s where s: "(sort_byE (\<lambda>a b. Inr (cmp_of (sm_market_index a) (sm_market_index b))) spot
      :: spot_market list res) = Inr s" "mset s = mset spot"
      "sorted (map (\<lambda>m. unat (sm_market_index m)) s)"
    using sort_by_index by blast
  obtain p where p: "(sort_byE (\<lambda>a b. Inr (cmp_of (pm_market_index a) (pm_market_index b))) perp
      :: perp_market list res) = Inr p" "mset p = mset perp"
      "sorted (map (\<lambda>m. unat (pm_market_index m)) p)"
    using sort_by_index by blast
  have set: "set s = set spot" "set p = set perp" using s(2) p(2) by (metis set_mset_mset)+
  show ?thesis
    unfolding program_data_new_def s(1) p(1)
    using aligned_iff [OF s(2,3)] aligned_iff [OF p(2,3)]
      aligned_get [of sm_market_index s i sm] aligned_get [of pm_market_index p i pm] set
    by (auto simp: returns spot_market_config_by_index_def perp_market_config_by_index_def)
qed

theorem program_data_by_index_witness:
  "\<exists>P. program_data_new [sample_spot_market 1, sample_spot_market 0] [sample_perp_market 0]
     \<lparr>lt_key = 0, lt_addresses = []\<rparr> = Inr P \<and>
     spot_market_config_by_index P 1 = Some (sample_spot_market 1)"
proof -
  have "(\<exists>P. program_data_new [sample_spot_market 1, sample_spot_market 0] [sample_perp_market 0]
     \<lparr>lt_key = 0, lt_addresses = []\<rparr> = Inr P)"
    using program_data_by_index [of "[sample_spot_market 1, sample_spot_market 0]" "[sample_perp_market 0]"
        "\<lparr>lt_key = 0, lt_addresses = []\<rparr>"]
    by (simp add: sample_spot_market_def sample_perp_market_def add_mset_commute)
  then obtain P where P: "program_data_new [sample_spot_market 1, sample_spot_market 0]
     [sample_perp_market 0] \<lparr>lt_key = 0, lt_addresses = []\<rparr> = Inr P" ..
  with program_data_by_index [of "[sample_spot_market 1, sample_spot_market 0]" "[sample_perp_market 0]"
        "\<lparr>lt_key = 0, lt_addresses = []\<rparr>" P 1 "sample_spot_market 1"]
  show ?thesis by (auto simp: sample_spot_market_def)
qed

end
