(* ===== verification/Accounts.thy ===== *)
theory Accounts
  imports Program_Data
begin

text \<open>
  \<open>build_accounts\<close> of \<open>src/src/lib.rs\<close>: the accounts an instruction needs besides its own ones, which
  are the markets and oracles of the given markets, of the positions of the given users and of the
  quote market. The program expects them sorted: oracles, spot markets, perp markets.
\<close>

section \<open>The ordered list of accounts\<close>

definition insert_account :: "remaining_account \<Rightarrow> remaining_account list \<Rightarrow> remaining_account list res" where
  "insert_account account accounts =
     (case binary_search_by (\<lambda>p. remaining_cmp p account) accounts of
        Inl idx \<Rightarrow> vec_insert idx account accounts
      | Inr _ \<Rightarrow> Inr accounts)"

definition sorted_accounts :: "remaining_account list \<Rightarrow> bool" where
  "sorted_accounts = sorted_wrt (\<lambda>a b. key_less (remaining_key a) (remaining_key b))"

lemma sorted_partitioned:
  "sorted_accounts accounts \<Longrightarrow> partitioned (\<lambda>p. remaining_cmp p account) accounts"
  unfolding sorted_accounts_def partitioned_def
  by (erule sorted_wrt_mono_rel [rotated]) (auto simp: remaining_cmp_iff intro: key_less_trans)

lemma insert_account_correct:
  assumes "sorted_accounts accounts"
  shows "\<exists>accounts'. insert_account account accounts = Inr accounts' \<and> sorted_accounts accounts' \<and>
    set accounts' = (if remaining_key account \<in> remaining_key ` set accounts then set accounts
       else insert account (set accounts))"
proof (cases "binary_search_by (\<lambda>p. remaining_cmp p account) accounts")
  case (Inr i)
  note found = binary_search_by_Inr [OF sorted_partitioned [OF assms] Inr]
  then have "remaining_key account = remaining_key (accounts ! i)" by (simp add: remaining_cmp_iff)
  with found(1) have "remaining_key account \<in> remaining_key ` set accounts" by simp
  with Inr assms show ?thesis by (simp add: insert_account_def)
next
  case (Inl i)
  note gap = binary_search_by_Inl [OF sorted_partitioned [OF assms] Inl]
  have below: "\<forall>x\<in>set (take i accounts). key_less (remaining_key x) (remaining_key account)"
    and above: "\<forall>x\<in>set (drop i accounts). key_less (remaining_key account) (remaining_key x)"
    using gap(2,3) by (auto simp: remaining_cmp_iff)
  have sorted: "sorted_accounts (take i accounts)" "sorted_accounts (drop i accounts)"
    using assms by (simp_all add: sorted_accounts_def sorted_wrt_take sorted_wrt_drop)
  have split: "set accounts = set (take i accounts) \<union> set (drop i accounts)"
    by (metis append_take_drop_id set_append)
  have new: "remaining_key account \<notin> remaining_key ` set accounts"
    unfolding split using below above by auto
  have "sorted_accounts (take i accounts @ account # drop i accounts)"
    using sorted below above unfolding sorted_accounts_def
    by (auto simp: sorted_wrt_append intro: key_less_trans)
  with Inl gap(1) new show ?thesis by (auto simp: insert_account_def vec_insert_def split)
qed

section \<open>Including markets\<close>

text \<open>The array \<open>seen\<close> has a 64-bit set for each kind of market.\<close>

record account_list =
  al_seen :: "market_type \<Rightarrow> u64"
  al_accounts :: "remaining_account list"

text \<open>\<open>1_u64 << market_index as u8\<close>: the index is cut to a byte, and a shift by 64 or more panics.\<close>

definition index_bit :: "u16 \<Rightarrow> u64 res" where
  "index_bit market_index =
     (let n = unat (ucast market_index :: u8) in
      if n < 64 then Inr (push_bit n 1) else Inl (Panic ''attempt to shift left with overflow''))"

definition market_and_oracle ::
  "program_data \<Rightarrow> u16 \<Rightarrow> market_type \<Rightarrow> bool \<Rightarrow> (remaining_account \<times> pubkey) res" where
  "market_and_oracle P market_index market_type writable =
     (case market_type of
        market_type.Spot \<Rightarrow>
          bindE (of_opt (Panic ''exists'') (spot_market_config_by_index P market_index)) (\<lambda>m.
          Inr (remaining_account.Spot (sm_pubkey m) writable, sm_oracle m))
      | market_type.Perp \<Rightarrow>
          bindE (of_opt (Panic ''exists'') (perp_market_config_by_index P market_index)) (\<lambda>m.
          Inr (remaining_account.Perp (pm_pubkey m) writable, pm_amm_oracle m)))"

definition include_market ::
  "program_data \<Rightarrow> u16 \<Rightarrow> market_type \<Rightarrow> bool \<Rightarrow> account_list \<Rightarrow> account_list res" where
  "include_market P market_index market_type writable s =
     bindE (index_bit market_index) (\<lambda>index_bit.
     if 0 < and (al_seen s market_type) index_bit then Inr s
     else
       let seen = (al_seen s)(market_type := or (al_seen s market_type) index_bit) in
       bindE (market_and_oracle P market_index market_type writable) (\<lambda>(account, oracle).
       bindE (insert_account account (al_accounts s)) (\<lambda>accounts.
       bindE (insert_account (remaining_account.Oracle oracle) accounts) (\<lambda>accounts.
       Inr \<lparr>al_seen = seen, al_accounts = accounts\<rparr>))))"

definition include_user :: "chain_env \<Rightarrow> program_data \<Rightarrow> account_list \<Rightarrow> user \<Rightarrow> account_list res" where
  "include_user C P s user =
     bindE (foldE (\<lambda>s p. include_market P (sp_market_index p) market_type.Spot False s) s
       (filter (\<lambda>p. \<not> spot_position_is_available C p) (u_spot_positions user))) (\<lambda>s.
     foldE (\<lambda>s p. include_market P (pp_market_index p) market_type.Perp False s) s
       (filter (\<lambda>p. \<not> perp_position_is_available C p) (u_perp_positions user)))"

definition build_accounts :: "chain_env \<Rightarrow> program_data \<Rightarrow> account_meta list \<Rightarrow> user list \<Rightarrow>
    market_id list \<Rightarrow> market_id list \<Rightarrow> account_meta list res" where
  "build_accounts C P base_accounts users markets_readable markets_writable =
     bindE (foldE (\<lambda>s m. include_market P (mid_index m) (mid_kind m) True s)
       \<lparr>al_seen = (\<lambda>_. 0), al_accounts = []\<rparr> markets_writable) (\<lambda>s.
     bindE (foldE (\<lambda>s m. include_market P (mid_index m) (mid_kind m) False s) s markets_readable) (\<lambda>s.
     bindE (foldE (include_user C P) s users) (\<lambda>s.
     bindE (include_market P (mid_index QUOTE_SPOT) market_type.Spot False s) (\<lambda>s.
     Inr (base_accounts @ map to_account_meta (al_accounts s))))))"

section \<open>One sequence of requests\<close>

text \<open>The markets the function includes, in its order, each with the flag it asks for.\<close>

definition user_requests :: "chain_env \<Rightarrow> user \<Rightarrow> (market_id \<times> bool) list" where
  "user_requests C user =
     map (\<lambda>p. (market_id_spot (sp_market_index p), False))
       (filter (\<lambda>p. \<not> spot_position_is_available C p) (u_spot_positions user)) @
     map (\<lambda>p. (market_id_perp (pp_market_index p), False))
       (filter (\<lambda>p. \<not> perp_position_is_available C p) (u_perp_positions user))"

definition requests ::
  "chain_env \<Rightarrow> user list \<Rightarrow> market_id list \<Rightarrow> market_id list \<Rightarrow> (market_id \<times> bool) list" where
  "requests C users readable writable =
     map (\<lambda>m. (m, True)) writable @ map (\<lambda>m. (m, False)) readable @
     concat (map (user_requests C) users) @ [(QUOTE_SPOT, False)]"

definition include_request ::
  "program_data \<Rightarrow> account_list \<Rightarrow> market_id \<times> bool \<Rightarrow> account_list res" where
  "include_request P s r = include_market P (mid_index (fst r)) (mid_kind (fst r)) (snd r) s"

lemma foldE_concat: "foldE f s (concat (map g xs)) = foldE (\<lambda>s x. foldE f s (g x)) s xs"
  by (induction xs arbitrary: s) (simp_all add: foldE_append)

lemma build_accounts_requests:
  "build_accounts C P base users readable writable =
     bindE (foldE (include_request P) \<lparr>al_seen = (\<lambda>_. 0), al_accounts = []\<rparr>
       (requests C users readable writable)) (\<lambda>s. Inr (base @ map to_account_meta (al_accounts s)))"
proof -
  have user: "foldE (include_request P) s (user_requests C user) = include_user C P s user" for s user
    by (simp add: user_requests_def include_user_def foldE_append foldE_map include_request_def
        market_id_spot_def market_id_perp_def)
  show ?thesis
    by (simp add: requests_def build_accounts_def foldE_append foldE_map foldE_concat user
        include_request_def QUOTE_SPOT_def bindE_def split: sum.splits)
qed

section \<open>What is included\<close>

definition known :: "program_data \<Rightarrow> market_id \<Rightarrow> bool" where
  "known P m \<longleftrightarrow> unat (mid_index m) < (case mid_kind m of
     market_type.Spot \<Rightarrow> length (pd_spot_markets P) | market_type.Perp \<Rightarrow> length (pd_perp_markets P))"

definition entry :: "program_data \<Rightarrow> market_id \<Rightarrow> bool \<Rightarrow> remaining_account" where
  "entry P m w = (case mid_kind m of
     market_type.Spot \<Rightarrow> remaining_account.Spot (sm_pubkey (pd_spot_markets P ! unat (mid_index m))) w
   | market_type.Perp \<Rightarrow> remaining_account.Perp (pm_pubkey (pd_perp_markets P ! unat (mid_index m))) w)"

definition oracle_entry :: "program_data \<Rightarrow> market_id \<Rightarrow> remaining_account" where
  "oracle_entry P m = remaining_account.Oracle (case mid_kind m of
     market_type.Spot \<Rightarrow> sm_oracle (pd_spot_markets P ! unat (mid_index m))
   | market_type.Perp \<Rightarrow> pm_amm_oracle (pd_perp_markets P ! unat (mid_index m)))"

definition distinct_markets :: "program_data \<Rightarrow> bool" where
  "distinct_markets P \<longleftrightarrow> distinct (map sm_pubkey (pd_spot_markets P)) \<and>
     distinct (map pm_pubkey (pd_perp_markets P))"

lemma market_and_oracle_known:
  assumes "known P m"
  shows "market_and_oracle P (mid_index m) (mid_kind m) w =
    Inr (entry P m w, remaining_pubkey (oracle_entry P m))"
  using assms by (cases "mid_kind m") (simp_all add: known_def market_and_oracle_def entry_def
      oracle_entry_def remaining_pubkey_def spot_market_config_by_index_def
      perp_market_config_by_index_def slice_get_def)

lemma market_and_oracle_unknown:
  "\<not> known P m \<Longrightarrow> market_and_oracle P (mid_index m) (mid_kind m) w = Inl (Panic ''exists'')"
  by (cases "mid_kind m") (simp_all add: known_def market_and_oracle_def
      spot_market_config_by_index_def perp_market_config_by_index_def slice_get_def)

lemma oracle_entry_key: "remaining_account.Oracle (remaining_pubkey (oracle_entry P m)) = oracle_entry P m"
  by (simp add: oracle_entry_def remaining_pubkey_def)

lemma map_nth_eq:
  "distinct (map f xs) \<Longrightarrow> i < length xs \<Longrightarrow> j < length xs \<Longrightarrow> f (xs ! i) = f (xs ! j) \<longleftrightarrow> i = j"
  using nth_eq_iff_index_eq [of "map f xs" i j] by simp

lemma entry_keys:
  assumes "distinct_markets P" and "known P m" and "known P m'"
  shows "remaining_key (entry P m w) = remaining_key (entry P m' w') \<Longrightarrow> m = m'"
    and "remaining_key (entry P m w) \<noteq> remaining_key (oracle_entry P m')"
proof -
  show "remaining_key (entry P m w) \<noteq> remaining_key (oracle_entry P m')"
    by (simp add: entry_def oracle_entry_def remaining_key_def discriminant_def split: market_type.split)
  assume eq: "remaining_key (entry P m w) = remaining_key (entry P m' w')"
  then have kind: "mid_kind m = mid_kind m'"
    by (simp add: entry_def remaining_key_def discriminant_def split: market_type.splits)
  have "unat (mid_index m) = unat (mid_index m')"
    using assms eq kind
    by (cases "mid_kind m'")
       (simp_all add: distinct_markets_def known_def entry_def remaining_key_def remaining_pubkey_def map_nth_eq)
  with kind show "m = m'" by (simp add: word_unat_eq_iff)
qed

lemma oracle_keys:
  "remaining_key (oracle_entry P m) = remaining_key (oracle_entry P m') \<Longrightarrow>
   oracle_entry P m = oracle_entry P m'"
  by (simp add: oracle_entry_def remaining_key_def remaining_pubkey_def)

lemma unat_low_byte: "unat (ucast (i :: u16) :: u8) = unat i mod 256"
  by (simp add: unsigned_ucast_eq unsigned_take_bit_eq take_bit_eq_mod)

lemma index_bit_eq:
  "unat i < 64 \<Longrightarrow> index_bit i = Inr (2 ^ unat i)"
  "64 \<le> unat i mod 256 \<Longrightarrow> index_bit i = Inl (Panic ''attempt to shift left with overflow'')"
  by (simp_all add: index_bit_def Let_def unat_low_byte)

lemma seen_bit:
  fixes s :: u64
  assumes "n < 64"
  shows "0 < and s (2 ^ n) \<longleftrightarrow> bit s n"
    and "bit (or s (2 ^ n)) j \<longleftrightarrow> bit s j \<or> j = n"
proof -
  have "bit (and s (2 ^ n)) n \<longleftrightarrow> bit s n"
    using assms by (simp add: bit_and_iff bit_exp_iff)
  moreover have "and s (2 ^ n) = 0" if "\<not> bit s n"
    using that by (intro bit_eqI) (auto simp: bit_and_iff bit_exp_iff)
  ultimately have "and s (2 ^ n) = 0 \<longleftrightarrow> \<not> bit s n" by (metis bit_0_eq bot_apply bot_bool_def)
  then show "0 < and s (2 ^ n) \<longleftrightarrow> bit s n" by (simp add: word_gt_0)
  show "bit (or s (2 ^ n)) j \<longleftrightarrow> bit s j \<or> j = n"
    using assms by (auto simp: bit_or_iff bit_exp_iff)
qed

text \<open>
  What the list holds after a sequence of requests for known markets with indexes below 64: the flag
  of a market is that of its first request.
\<close>

definition included :: "program_data \<Rightarrow> (market_id \<times> bool) list \<Rightarrow> account_list \<Rightarrow> bool" where
  "included P rs s \<longleftrightarrow> sorted_accounts (al_accounts s) \<and>
     (\<forall>m. unat (mid_index m) < 64 \<longrightarrow>
       (bit (al_seen s (mid_kind m)) (unat (mid_index m)) \<longleftrightarrow> m \<in> fst ` set rs)) \<and>
     set (al_accounts s) =
       (\<Union>m\<in>fst ` set rs. {entry P m (the (map_of rs m)), oracle_entry P m})"

definition small_known :: "program_data \<Rightarrow> market_id \<Rightarrow> bool" where
  "small_known P m \<longleftrightarrow> known P m \<and> unat (mid_index m) < 64"

lemma map_of_snoc: "map_of (rs @ [r]) m = (if m \<in> fst ` set rs then map_of rs m
    else if fst r = m then Some (snd r) else None)"
proof (cases "map_of rs m")
  case None
  then have "m \<notin> fst ` set rs" by (simp add: map_of_eq_None_iff)
  with None show ?thesis by (cases r) (simp add: map_add_def)
next
  case (Some w)
  then have "m \<in> fst ` set rs" by (metis map_of_eq_None_iff option.distinct(1))
  with Some show ?thesis by (simp add: map_add_def)
qed

text \<open>A market that has not been requested puts two accounts on the list, and no key is there already.\<close>

lemma insert_market_accounts:
  assumes inv: "included P rs s" and distinct: "distinct_markets P" and m: "known P m" "m \<notin> fst ` set rs"
    and rs: "\<And>m'. m' \<in> fst ` set rs \<Longrightarrow> known P m'"
  obtains l1 l2 where "insert_account (entry P m w) (al_accounts s) = Inr l1"
    "insert_account (oracle_entry P m) l1 = Inr l2" "sorted_accounts l2"
    "set l2 = insert (oracle_entry P m) (insert (entry P m w) (set (al_accounts s)))"
proof -
  from inv have sorted: "sorted_accounts (al_accounts s)"
    and accs: "set (al_accounts s) = (\<Union>m\<in>fst ` set rs. {entry P m (the (map_of rs m)), oracle_entry P m})"
    by (simp_all add: included_def)
  obtain l1 where l1: "insert_account (entry P m w) (al_accounts s) = Inr l1" "sorted_accounts l1"
      "set l1 = (if remaining_key (entry P m w) \<in> remaining_key ` set (al_accounts s)
         then set (al_accounts s) else insert (entry P m w) (set (al_accounts s)))"
    using insert_account_correct [OF sorted] by blast
  have "remaining_key (entry P m w) \<notin> remaining_key ` set (al_accounts s)"
  proof
    assume "remaining_key (entry P m w) \<in> remaining_key ` set (al_accounts s)"
    then obtain m' a where "m' \<in> fst ` set rs" "a = entry P m' (the (map_of rs m')) \<or> a = oracle_entry P m'"
      "remaining_key (entry P m w) = remaining_key a" by (auto simp: accs)
    with entry_keys [OF distinct m(1) rs] m(2) show False by metis
  qed
  then have set_l1: "set l1 = insert (entry P m w) (set (al_accounts s))" using l1(3) by simp
  obtain l2 where l2: "insert_account (oracle_entry P m) l1 = Inr l2" "sorted_accounts l2"
      "set l2 = (if remaining_key (oracle_entry P m) \<in> remaining_key ` set l1
         then set l1 else insert (oracle_entry P m) (set l1))"
    using insert_account_correct [OF l1(2)] by blast
  have "oracle_entry P m \<in> set l1" if "remaining_key (oracle_entry P m) \<in> remaining_key ` set l1"
  proof -
    from that obtain m' w' a where "m' = m \<or> m' \<in> fst ` set rs" "a \<in> set l1"
      "a = entry P m' w' \<or> a = oracle_entry P m'" "remaining_key (oracle_entry P m) = remaining_key a"
      by (auto simp: set_l1 accs)
    with entry_keys(2) [OF distinct _ m(1)] rs m(1) oracle_keys show ?thesis by metis
  qed
  then have "set l2 = insert (oracle_entry P m) (insert (entry P m w) (set (al_accounts s)))"
    using l2(3) set_l1 by auto
  with that l1(1) l2 show ?thesis by blast
qed

abbreviation requested_accounts :: "program_data \<Rightarrow> (market_id \<times> bool) list \<Rightarrow> market_id set \<Rightarrow> remaining_account set" where
  "requested_accounts P rs ms \<equiv> \<Union>m\<in>ms. {entry P m (the (map_of rs m)), oracle_entry P m}"

lemma requested_accounts_snoc:
  "requested_accounts P (rs @ [r]) (fst ` set rs) = requested_accounts P rs (fst ` set rs)"
  "m \<notin> fst ` set rs \<Longrightarrow> requested_accounts P (rs @ [(m, w)]) (fst ` set (rs @ [(m, w)])) =
     requested_accounts P rs (fst ` set rs) \<union> {entry P m w, oracle_entry P m}"
proof -
  show old: "requested_accounts P (rs @ [r]) (fst ` set rs) = requested_accounts P rs (fst ` set rs)" for r
    by (rule SUP_cong) (simp_all add: map_of_snoc del: map_of_append)
  assume "m \<notin> fst ` set rs"
  then have "map_of (rs @ [(m, w)]) m = Some w" by (simp add: map_of_snoc del: map_of_append)
  then have "requested_accounts P (rs @ [(m, w)]) (fst ` set (rs @ [(m, w)])) =
      requested_accounts P (rs @ [(m, w)]) (fst ` set rs) \<union> {entry P m w, oracle_entry P m}"
    by (auto simp del: map_of_append)
  with old show "requested_accounts P (rs @ [(m, w)]) (fst ` set (rs @ [(m, w)])) =
      requested_accounts P rs (fst ` set rs) \<union> {entry P m w, oracle_entry P m}" by (simp only:)
qed

lemma include_request_step:
  assumes inv: "included P rs s" and known: "\<forall>m\<in>fst ` set (rs @ [r]). small_known P m"
    and distinct: "distinct_markets P"
  shows "\<exists>s'. include_request P s r = Inr s' \<and> included P (rs @ [r]) s'"
proof -
  obtain m w where r: "r = (m, w)" by (cases r)
  have m: "known P m" "unat (mid_index m) < 64" using known r by (auto simp: small_known_def)
  have rs: "known P m'" if "m' \<in> fst ` set rs" for m' using known that by (auto simp: small_known_def)
  have seen: "unat (mid_index m') < 64 \<Longrightarrow>
      bit (al_seen s (mid_kind m')) (unat (mid_index m')) \<longleftrightarrow> m' \<in> fst ` set rs" for m' :: market_id
    using inv by (simp add: included_def)
  show ?thesis
  proof (cases "m \<in> fst ` set rs")
    case True
    then have "fst ` set (rs @ [r]) = fst ` set rs" by (auto simp: r)
    with inv requested_accounts_snoc(1) [of P rs r] have "included P (rs @ [r]) s"
      unfolding included_def by presburger
    moreover from True have "include_request P s r = Inr s"
      using m seen [of m] by (simp add: include_request_def r include_market_def index_bit_eq seen_bit)
    ultimately show ?thesis by blast
  next
    case False
    let ?seen = "(al_seen s)(mid_kind m := or (al_seen s (mid_kind m)) (2 ^ unat (mid_index m)))"
    obtain l1 l2 where l: "insert_account (entry P m w) (al_accounts s) = Inr l1"
      "insert_account (oracle_entry P m) l1 = Inr l2" "sorted_accounts l2"
      "set l2 = insert (oracle_entry P m) (insert (entry P m w) (set (al_accounts s)))"
      by (rule insert_market_accounts [OF inv distinct m(1) False rs])
    then have "include_request P s r = Inr \<lparr>al_seen = ?seen, al_accounts = l2\<rparr>"
      using m seen [of m] False
      by (simp add: include_request_def r include_market_def index_bit_eq seen_bit
          market_and_oracle_known oracle_entry_key)
    moreover have "included P (rs @ [r]) \<lparr>al_seen = ?seen, al_accounts = l2\<rparr>"
      unfolding included_def
    proof (intro conjI allI impI)
      fix m' :: market_id assume "unat (mid_index m') < 64"
      then show "bit (al_seen \<lparr>al_seen = ?seen, al_accounts = l2\<rparr> (mid_kind m')) (unat (mid_index m')) \<longleftrightarrow>
          m' \<in> fst ` set (rs @ [r])"
        using seen [of m'] m(2)
        by (auto simp: r seen_bit word_unat_eq_iff [symmetric] intro!: market_id.equality)
    next
      show "set (al_accounts \<lparr>al_seen = ?seen, al_accounts = l2\<rparr>) = requested_accounts P (rs @ [r]) (fst ` set (rs @ [r]))"
        using inv l(4) unfolding r requested_accounts_snoc(2) [OF False] by (auto simp: included_def)
    qed (simp add: l)
    ultimately show ?thesis by blast
  qed
qed

lemma include_requests:
  assumes "included P rs s" and "\<forall>m\<in>fst ` set (rs @ qs). small_known P m" and "distinct_markets P"
  shows "\<exists>s'. foldE (include_request P) s qs = Inr s' \<and> included P (rs @ qs) s'"
  using assms(1,2)
proof (induction qs arbitrary: rs s)
  case (Cons q qs)
  then obtain s1 where "include_request P s q = Inr s1" "included P (rs @ [q]) s1"
    using include_request_step [OF Cons.prems(1) _ assms(3), of q] by auto
  with Cons.IH [of "rs @ [q]" s1] Cons.prems(2) show ?case by auto
qed simp

lemma included_empty: "included P [] \<lparr>al_seen = (\<lambda>_. 0), al_accounts = []\<rparr>"
  by (simp add: included_def sorted_accounts_def)

lemma first_flag:
  "m \<in> fst ` set (requests C users readable writable) \<Longrightarrow>
   the (map_of (requests C users readable writable) m) \<longleftrightarrow> m \<in> set writable"
proof -
  have w: "map_of (map (\<lambda>m. (m, True)) writable) m = (if m \<in> set writable then Some True else None)"
    by (induction writable) auto
  define others where "others = map (\<lambda>m. (m, False)) readable @ concat (map (user_requests C) users) @
      [(QUOTE_SPOT, False)]"
  have rest: "map_of others m \<noteq> Some True"
    by (auto simp: others_def user_requests_def dest!: map_of_SomeD simp del: map_of_append)
  assume "m \<in> fst ` set (requests C users readable writable)"
  then have "map_of (requests C users readable writable) m \<noteq> None" by (simp add: map_of_eq_None_iff)
  moreover have "requests C users readable writable = map (\<lambda>m. (m, True)) writable @ others"
    by (simp add: requests_def others_def)
  ultimately show ?thesis
    using w rest by (cases "map_of others m") (auto simp: map_add_def)
qed

section \<open>Failures\<close>

lemma insert_account_fails:
  "insert_account account accounts = Inl e \<Longrightarrow> \<exists>msg. e = Panic msg"
  by (auto simp: insert_account_def vec_insert_def split: sum.splits if_splits)

lemma include_request_fails: "include_request P s r = Inl e \<Longrightarrow> \<exists>msg. e = Panic msg"
  by (cases "known P (fst r)")
     (auto simp: include_request_def include_market_def index_bit_def bindE_Inl_iff Let_def
       market_and_oracle_known market_and_oracle_unknown dest: insert_account_fails split: if_splits)

lemma include_large_fails:
  assumes "r \<in> set rs" and "64 \<le> unat (mid_index (fst r)) mod 256"
  shows "\<exists>msg. foldE (include_request P) s rs = Inl (Panic msg)"
  using assms(1)
proof (induction rs arbitrary: s)
  case (Cons q rs)
  show ?case
  proof (cases "include_request P s q")
    case (Inl e)
    with include_request_fails [OF Inl] show ?thesis by auto
  next
    case (Inr s')
    with assms(2) have "q \<noteq> r" by (auto simp: include_request_def include_market_def index_bit_eq)
    with Cons Inr show ?thesis by auto
  qed
qed simp

section \<open>Properties\<close>

text \<open>
  The accounts are sorted, and they are the ones of the markets asked for, of the users' positions and
  of the quote market.
\<close>

lemma build_accounts_content:
  assumes "\<forall>m\<in>fst ` set (requests C users readable writable). small_known P m"
    and "distinct_markets P"
  shows "\<exists>accounts. build_accounts C P base users readable writable =
      Inr (base @ map to_account_meta accounts) \<and> sorted_accounts accounts \<and>
      set accounts = (\<Union>m\<in>fst ` set (requests C users readable writable).
        {entry P m (m \<in> set writable), oracle_entry P m})"
proof -
  let ?rs = "requests C users readable writable"
  from include_requests [OF included_empty _ assms(2), of ?rs] assms(1) obtain s where
    s: "foldE (include_request P) \<lparr>al_seen = (\<lambda>_. 0), al_accounts = []\<rparr> ?rs = Inr s" "included P ?rs s"
    by auto
  have "(\<Union>m\<in>fst ` set ?rs. {entry P m (the (map_of ?rs m)), oracle_entry P m}) =
      (\<Union>m\<in>fst ` set ?rs. {entry P m (m \<in> set writable), oracle_entry P m})"
    by (rule SUP_cong) (simp_all add: first_flag)
  with s show ?thesis by (auto simp: build_accounts_requests included_def)
qed

text \<open>The order of accounts as that of a number.\<close>

definition account_rank :: "remaining_account \<Rightarrow> int" where
  "account_rank a = uint (discriminant a) * 2 ^ 256 + uint (remaining_pubkey a)"

lemma digit_less:
  fixes d d' k k' B :: int
  assumes "0 \<le> k" "k < B" "0 \<le> k'" "k' < B"
  shows "d * B + k < d' * B + k' \<longleftrightarrow> d < d' \<or> d = d' \<and> k < k'"
proof -
  have up: "a * B + x < b * B + y" if "a < b" "x < B" "0 \<le> y" for a b x y
  proof -
    from that(1) have "(a + 1) * B \<le> b * B" using assms by (intro mult_right_mono) auto
    with that show ?thesis by (simp add: algebra_simps)
  qed
  show ?thesis
    using up [of d d' k k'] up [of d' d k' k] assms by (cases d d' rule: linorder_cases) auto
qed

lemma key_less_rank: "key_less (remaining_key a) (remaining_key b) \<longleftrightarrow> account_rank a < account_rank b"
proof -
  have "uint (remaining_pubkey x) < 2 ^ 256" for x
    using uint_range(2) [of "remaining_pubkey x"] by simp
  then show ?thesis
    unfolding account_rank_def
    by (subst digit_less) (simp_all add: key_less_def remaining_key_def word_less_def word_uint_eq_iff [symmetric])
qed

lemma filter_equals_once: "distinct zs \<Longrightarrow> k \<in> set zs \<Longrightarrow> filter ((=) k) zs = [k]"
  by (induction zs) (auto simp: filter_empty_conv)

lemma strict_sort_unique:
  fixes f :: "'a \<Rightarrow> 'b :: linorder"
  assumes "sorted_wrt (\<lambda>a b. f a < f b) xs" and "set xs = set ys" and "distinct ys"
  shows "sort_key f ys = xs"
proof (rule properties_for_sort_key)
  have "sorted_wrt (<) (map f xs)" using assms(1) by (simp add: sorted_wrt_map)
  then have d: "distinct (map f xs)" and sorted: "sorted (map f xs)"
    by (simp_all only: strict_sorted_iff)
  then have dx: "distinct xs" by (simp add: distinct_map)
  show "mset xs = mset ys" using assms(2,3) dx by (simp add: set_eq_iff_mset_eq_distinct [symmetric])
  show "sorted (map f xs)" by (rule sorted)
  have inj: "inj_on f (set xs)" using d by (simp add: distinct_map)
  show "filter (\<lambda>x. f k = f x) xs = filter (\<lambda>x. f k = f x) ys" if "k \<in> set xs" for k
  proof -
    have "filter (\<lambda>x. f k = f x) zs = [k]" if "set zs = set xs" "distinct zs" for zs
    proof -
      have "filter (\<lambda>x. f k = f x) zs = filter ((=) k) zs"
        using inj \<open>k \<in> set xs\<close> that(1) by (intro filter_cong refl) (auto dest: inj_onD)
      also have "\<dots> = [k]"
        using that \<open>k \<in> set xs\<close> by (simp add: filter_equals_once)
      finally show ?thesis .
    qed
    from this [of xs] this [of ys] assms(2,3) dx show ?thesis by simp
  qed
qed

text \<open>
  C6. The accounts of an instruction are computed as if the oracles and markets of all markets asked
  for, of the users' positions and of the quote market were listed, repetitions removed, and the list sorted
  by kind and key; a market is writable exactly when it was asked for as writable, whatever else needs it.
\<close>

theorem build_accounts_exact:
  assumes "\<forall>m\<in>fst ` set (requests C users readable writable). small_known P m"
    and "distinct_markets P"
  shows "build_accounts C P base users readable writable =
      Inr (base @ map to_account_meta (sort_key account_rank (remdups (concat
        (map (\<lambda>m. [entry P m (m \<in> set writable), oracle_entry P m])
          (map fst (requests C users readable writable)))))))"
proof -
  let ?xs = "concat (map (\<lambda>m. [entry P m (m \<in> set writable), oracle_entry P m])
          (map fst (requests C users readable writable)))"
  obtain accounts where a: "build_accounts C P base users readable writable =
      Inr (base @ map to_account_meta accounts)" "sorted_accounts accounts" "set accounts = set (remdups ?xs)"
    using build_accounts_content [OF assms, of base] by auto
  have "sort_key account_rank (remdups ?xs) = accounts"
    using a(2,3) by (intro strict_sort_unique) (simp_all add: sorted_accounts_def key_less_rank)
  with a(1) show ?thesis by simp
qed

text \<open>
  The accounts cannot be built for a market whose index has a low byte of 64 or more: with
  overflow checks the shift panics.
\<close>

theorem build_accounts_index_limit:
  assumes "m \<in> fst ` set (requests C users readable writable)" and "64 \<le> unat (mid_index m) mod 256"
  shows "\<exists>msg. build_accounts C P base users readable writable = Inl (Panic msg)"
proof -
  from assms obtain r where r: "r \<in> set (requests C users readable writable)"
    "64 \<le> unat (mid_index (fst r)) mod 256" by auto
  from include_large_fails [OF r, of P "\<lparr>al_seen = (\<lambda>_. 0), al_accounts = []\<rparr>"] show ?thesis
    by (auto simp: build_accounts_requests)
qed

definition sample_data :: program_data where
  "sample_data = \<lparr>pd_spot_markets = [sample_spot_market 0, sample_spot_market 1],
     pd_perp_markets = [sample_perp_market 0], pd_lookup_table = \<lparr>lt_key = 9, lt_addresses = []\<rparr>\<rparr>"

lemma sample_data_distinct: "distinct_markets sample_data"
  by (simp add: distinct_markets_def sample_data_def sample_spot_market_def sample_perp_market_def)

lemma sample_requests: "requests sample_chain [sample_user] [] [market_id_perp 0] =
    [(market_id_perp 0, True), (QUOTE_SPOT, False)]"
  by (simp add: requests_def user_requests_def sample_user_def)

theorem build_accounts_exact_witness:
  "build_accounts sample_chain sample_data [] [sample_user] [] [market_id_perp 0] =
      Inr (map to_account_meta [remaining_account.Oracle 300, remaining_account.Spot 100 False,
        remaining_account.Perp 200 True])"
proof -
  have "\<forall>m\<in>fst ` set (requests sample_chain [sample_user] [] [market_id_perp 0]). small_known sample_data m"
    by (simp add: sample_requests small_known_def known_def)
       (simp add: market_id_perp_def QUOTE_SPOT_def sample_data_def)
  from build_accounts_exact [OF this sample_data_distinct, of "[]"] show ?thesis
    by (simp add: sample_requests entry_def oracle_entry_def)
       (simp add: market_id_perp_def QUOTE_SPOT_def sample_data_def
        sample_spot_market_def sample_perp_market_def account_rank_def discriminant_def remaining_pubkey_def)
qed

theorem build_accounts_index_limit_witness:
  "\<exists>msg. build_accounts sample_chain sample_data [] [sample_user] [] [market_id_perp 64] = Inl (Panic msg)"
  by (rule build_accounts_index_limit [where m = "market_id_perp 64"])
     (simp_all add: requests_def market_id_perp_def)

end
