(* ===== verification/Tx_Builder.thy ===== *)
theory Tx_Builder
  imports Accounts
begin

text \<open>
  The transaction builder of \<open>src/src/lib.rs\<close>: every method appends the instructions of one
  request, with the accounts \<open>build_accounts\<close> finds for it, and \<open>build\<close> compiles the message.

  Instruction data is the value that is serialized, under the name of its type in the drift program;
  the accounts of an instruction are the values of its account struct. How a struct becomes a list
  of account metas, the compute budget instructions and the compilation of a message belong to
  other crates and are fields of \<open>tx_env\<close>.
\<close>

section \<open>Instructions\<close>

type_synonym spot_fulfillment_type = u8

type_synonym modify_order_params = "u8 list"

datatype instruction_data =
    DepositData u16 u64 bool
  | WithdrawData u16 u64 bool
  | PlaceOrders "order_params list"
  | CancelOrders "u16 option" "market_type option" "position_direction option"
  | CancelOrdersByIds "u32 list"
  | CancelOrderByUserId u8
  | ModifyOrder "u32 option" modify_order_params
  | ModifyOrderByUserId u8 modify_order_params
  | PlaceAndMakePerpOrder order_params u32
  | PlaceAndMakeSpotOrder order_params u32 "spot_fulfillment_type option"
  | PlaceAndTakePerpOrder order_params "u32 option"
  | PlaceAndTakeSpotOrder order_params "u32 option" "spot_fulfillment_type option"
  | SetComputeUnitPrice u64
  | SetComputeUnitLimit u32
  | JitData u32 i64 i64 i64 i64 u8 "u8 option"

text \<open>The account structs, with their fields in the order of the source.\<close>

datatype base_accounts =
    DepositAccounts pubkey pubkey pubkey pubkey pubkey pubkey pubkey
  | WithdrawAccounts pubkey pubkey pubkey pubkey pubkey pubkey pubkey pubkey
  | PlaceOrderAccounts pubkey pubkey pubkey
  | CancelOrderAccounts pubkey pubkey pubkey
  | PlaceAndMakeAccounts pubkey pubkey pubkey pubkey pubkey pubkey
  | PlaceAndTakeAccounts pubkey pubkey pubkey pubkey
  | JitAccounts pubkey pubkey pubkey pubkey pubkey pubkey pubkey

record instruction =
  ix_program_id :: pubkey
  ix_accounts :: "account_meta list"
  ix_data :: instruction_data

datatype ('l, 'v) versioned_message = Legacy 'l | V0 'v

record ('l, 'v) tx_env =
  tx_chain :: chain_env
  to_account_metas :: "base_accounts \<Rightarrow> account_meta list"
  compute_budget :: "instruction_data \<Rightarrow> instruction"
  message_new :: "instruction list \<Rightarrow> pubkey \<Rightarrow> 'l"
  message_try_compile :: "pubkey \<Rightarrow> instruction list \<Rightarrow> lookup_table list \<Rightarrow> 'v option"
  jit_proxy_id :: pubkey

definition account_meta_new :: "pubkey \<Rightarrow> bool \<Rightarrow> account_meta" where
  "account_meta_new pubkey is_signer =
     \<lparr>am_pubkey = pubkey, am_is_signer = is_signer, am_is_writable = True\<rparr>"

definition account_meta_new_readonly :: "pubkey \<Rightarrow> bool \<Rightarrow> account_meta" where
  "account_meta_new_readonly pubkey is_signer =
     \<lparr>am_pubkey = pubkey, am_is_signer = is_signer, am_is_writable = False\<rparr>"

section \<open>The builder\<close>

record tx_builder =
  tb_program_data :: program_data
  tb_account_data :: user
  tb_sub_account :: pubkey
  tb_authority :: pubkey
  tb_ixs :: "instruction list"
  tb_legacy :: bool
  tb_lookup_tables :: "lookup_table list"

definition transaction_builder_new :: "program_data \<Rightarrow> pubkey \<Rightarrow> user \<Rightarrow> bool \<Rightarrow> tx_builder" where
  "transaction_builder_new program_data sub_account account_data delegated =
     \<lparr>tb_program_data = program_data, tb_account_data = account_data, tb_sub_account = sub_account,
      tb_authority = (if delegated then u_delegate account_data else u_authority account_data),
      tb_ixs = [], tb_legacy = False, tb_lookup_tables = [pd_lookup_table program_data]\<rparr>"

definition tx_legacy :: "tx_builder \<Rightarrow> tx_builder" where
  "tx_legacy b = b\<lparr>tb_legacy := True\<rparr>"

definition tx_lookup_tables :: "lookup_table list \<Rightarrow> tx_builder \<Rightarrow> tx_builder" where
  "tx_lookup_tables lookup_tables b =
     b\<lparr>tb_lookup_tables := lookup_tables @ [pd_lookup_table (tb_program_data b)]\<rparr>"

definition with_priority_fee ::
  "('l, 'v) tx_env \<Rightarrow> u64 \<Rightarrow> u32 option \<Rightarrow> tx_builder \<Rightarrow> tx_builder res" where
  "with_priority_fee T microlamports_per_cu cu_limit b =
     bindE (vec_insert 0 (compute_budget T (SetComputeUnitPrice microlamports_per_cu)) (tb_ixs b)) (\<lambda>ixs.
     bindE (case cu_limit of
         Some cu_limit \<Rightarrow> vec_insert 1 (compute_budget T (SetComputeUnitLimit cu_limit)) ixs
       | None \<Rightarrow> Inr ixs) (\<lambda>ixs.
     Inr (b\<lparr>tb_ixs := ixs\<rparr>)))"

definition deposit :: "('l, 'v) tx_env \<Rightarrow> u64 \<Rightarrow> u16 \<Rightarrow> pubkey \<Rightarrow> bool option \<Rightarrow> tx_builder \<Rightarrow> tx_builder res" where
  "deposit T amount spot_market_index user_token_account reduce_only b =
     (let C = tx_chain T in
      bindE (build_accounts C (tb_program_data b)
        (to_account_metas T (DepositAccounts (state_account C) (tb_sub_account b)
          (derive_stats_account C (tb_authority b) (drift_ID C)) (tb_authority b)
          (derive_spot_market_vault C spot_market_index) user_token_account (TOKEN_PROGRAM_ID C)))
        [tb_account_data b] [] [market_id_spot spot_market_index]) (\<lambda>accounts.
      let ix = \<lparr>ix_program_id = drift_ID C, ix_accounts = accounts,
            ix_data = DepositData spot_market_index amount
              (case reduce_only of Some r \<Rightarrow> r | None \<Rightarrow> False)\<rparr> in
      Inr (b\<lparr>tb_ixs := tb_ixs b @ [ix]\<rparr>)))"

definition withdraw :: "('l, 'v) tx_env \<Rightarrow> u64 \<Rightarrow> u16 \<Rightarrow> pubkey \<Rightarrow> bool option \<Rightarrow> tx_builder \<Rightarrow> tx_builder res" where
  "withdraw T amount spot_market_index user_token_account reduce_only b =
     (let C = tx_chain T in
      bindE (build_accounts C (tb_program_data b)
        (to_account_metas T (WithdrawAccounts (state_account C) (tb_sub_account b)
          (derive_stats_account C (tb_authority b) (drift_ID C)) (tb_authority b)
          (derive_spot_market_vault C spot_market_index) user_token_account (derive_drift_signer C)
          (TOKEN_PROGRAM_ID C)))
        [tb_account_data b] [] [market_id_spot spot_market_index]) (\<lambda>accounts.
      let ix = \<lparr>ix_program_id = drift_ID C, ix_accounts = accounts,
            ix_data = WithdrawData spot_market_index amount
              (case reduce_only of Some r \<Rightarrow> r | None \<Rightarrow> False)\<rparr> in
      Inr (b\<lparr>tb_ixs := tb_ixs b @ [ix]\<rparr>)))"

definition place_orders :: "('l, 'v) tx_env \<Rightarrow> order_params list \<Rightarrow> tx_builder \<Rightarrow> tx_builder res" where
  "place_orders T orders b =
     (let C = tx_chain T;
          readable_accounts = map (\<lambda>order. market_id_from (p_market_index order, p_market_type order)) orders in
      bindE (build_accounts C (tb_program_data b)
        (to_account_metas T (PlaceOrderAccounts (state_account C) (tb_authority b) (tb_sub_account b)))
        [tb_account_data b] readable_accounts []) (\<lambda>accounts.
      let ix = \<lparr>ix_program_id = drift_ID C, ix_accounts = accounts, ix_data = PlaceOrders orders\<rparr> in
      Inr (b\<lparr>tb_ixs := tb_ixs b @ [ix]\<rparr>)))"

definition cancel_all_orders :: "('l, 'v) tx_env \<Rightarrow> tx_builder \<Rightarrow> tx_builder res" where
  "cancel_all_orders T b =
     (let C = tx_chain T in
      bindE (build_accounts C (tb_program_data b)
        (to_account_metas T (CancelOrderAccounts (state_account C) (tb_authority b) (tb_sub_account b)))
        [tb_account_data b] [] []) (\<lambda>accounts.
      let ix = \<lparr>ix_program_id = drift_ID C, ix_accounts = accounts, ix_data = CancelOrders None None None\<rparr> in
      Inr (b\<lparr>tb_ixs := tb_ixs b @ [ix]\<rparr>)))"

definition cancel_orders :: "('l, 'v) tx_env \<Rightarrow> u16 \<times> market_type \<Rightarrow> position_direction option \<Rightarrow>
    tx_builder \<Rightarrow> tx_builder res" where
  "cancel_orders T market direction b =
     (let C = tx_chain T; (idx, kind) = market in
      bindE (build_accounts C (tb_program_data b)
        (to_account_metas T (CancelOrderAccounts (state_account C) (tb_authority b) (tb_sub_account b)))
        [tb_account_data b] [market_id_from (idx, kind)] []) (\<lambda>accounts.
      let ix = \<lparr>ix_program_id = drift_ID C, ix_accounts = accounts,
            ix_data = CancelOrders (Some idx) (Some kind) direction\<rparr> in
      Inr (b\<lparr>tb_ixs := tb_ixs b @ [ix]\<rparr>)))"

definition cancel_orders_by_id :: "('l, 'v) tx_env \<Rightarrow> u32 list \<Rightarrow> tx_builder \<Rightarrow> tx_builder res" where
  "cancel_orders_by_id T order_ids b =
     (let C = tx_chain T in
      bindE (build_accounts C (tb_program_data b)
        (to_account_metas T (CancelOrderAccounts (state_account C) (tb_authority b) (tb_sub_account b)))
        [tb_account_data b] [] []) (\<lambda>accounts.
      let ix = \<lparr>ix_program_id = drift_ID C, ix_accounts = accounts, ix_data = CancelOrdersByIds order_ids\<rparr> in
      Inr (b\<lparr>tb_ixs := tb_ixs b @ [ix]\<rparr>)))"

definition cancel_orders_by_user_id :: "('l, 'v) tx_env \<Rightarrow> u8 list \<Rightarrow> tx_builder \<Rightarrow> tx_builder res" where
  "cancel_orders_by_user_id T user_order_ids b =
     (let C = tx_chain T in
      bindE (build_accounts C (tb_program_data b)
        (to_account_metas T (CancelOrderAccounts (state_account C) (tb_authority b) (tb_sub_account b)))
        [tb_account_data b] [] []) (\<lambda>accounts.
      Inr (foldl (\<lambda>b user_order_id.
        let ix = \<lparr>ix_program_id = drift_ID C, ix_accounts = accounts,
              ix_data = CancelOrderByUserId user_order_id\<rparr> in
        b\<lparr>tb_ixs := tb_ixs b @ [ix]\<rparr>) b user_order_ids)))"

definition modify_orders ::
  "('l, 'v) tx_env \<Rightarrow> (u32 \<times> modify_order_params) list \<Rightarrow> tx_builder \<Rightarrow> tx_builder res" where
  "modify_orders T orders b =
     (let C = tx_chain T in
      foldE (\<lambda>b (order_id, params).
        bindE (build_accounts C (tb_program_data b)
          (to_account_metas T (PlaceOrderAccounts (state_account C) (tb_authority b) (tb_sub_account b)))
          [tb_account_data b] [] []) (\<lambda>accounts.
        let ix = \<lparr>ix_program_id = drift_ID C, ix_accounts = accounts,
              ix_data = ModifyOrder (Some order_id) params\<rparr> in
        Inr (b\<lparr>tb_ixs := tb_ixs b @ [ix]\<rparr>))) b orders)"

definition modify_orders_by_user_id ::
  "('l, 'v) tx_env \<Rightarrow> (u8 \<times> modify_order_params) list \<Rightarrow> tx_builder \<Rightarrow> tx_builder res" where
  "modify_orders_by_user_id T orders b =
     (let C = tx_chain T in
      foldE (\<lambda>b (user_order_id, params).
        bindE (build_accounts C (tb_program_data b)
          (to_account_metas T (PlaceOrderAccounts (state_account C) (tb_authority b) (tb_sub_account b)))
          [tb_account_data b] [] []) (\<lambda>accounts.
        let ix = \<lparr>ix_program_id = drift_ID C, ix_accounts = accounts,
              ix_data = ModifyOrderByUserId user_order_id params\<rparr> in
        Inr (b\<lparr>tb_ixs := tb_ixs b @ [ix]\<rparr>))) b orders)"

text \<open>The markets a fill writes: the order's market and, on a spot market, the quote market.\<close>

definition writable_markets :: "market_type \<Rightarrow> u16 \<Rightarrow> market_id list" where
  "writable_markets market_type market_index =
     (let is_perp = (market_type = market_type.Perp);
          perp_writable = [market_id_perp market_index];
          spot_writable = [market_id_spot market_index, QUOTE_SPOT] in
      if is_perp then perp_writable else spot_writable)"

definition referrer_metas :: "chain_env \<Rightarrow> pubkey \<Rightarrow> account_meta list" where
  "referrer_metas C referrer =
     [account_meta_new (derive_stats_account C referrer (drift_ID C)) False,
      account_meta_new referrer False]"

definition place_and_make :: "('l, 'v) tx_env \<Rightarrow> order_params \<Rightarrow> pubkey \<times> user \<Rightarrow> u32 \<Rightarrow>
    pubkey option \<Rightarrow> spot_fulfillment_type option \<Rightarrow> tx_builder \<Rightarrow> tx_builder res" where
  "place_and_make T order taker_info taker_order_id referrer fulfillment_type b =
     (let C = tx_chain T; (taker, taker_account) = taker_info in
      bindE (build_accounts C (tb_program_data b)
        (to_account_metas T (PlaceAndMakeAccounts (state_account C) (tb_authority b) (tb_sub_account b)
          (derive_stats_account C (tb_authority b) (drift_ID C)) taker
          (derive_stats_account C taker (drift_ID C))))
        [tb_account_data b, taker_account] []
        (writable_markets (p_market_type order) (p_market_index order))) (\<lambda>accounts.
      let accounts = (case referrer of
            Some referrer \<Rightarrow> accounts @ referrer_metas C referrer
          | None \<Rightarrow> accounts);
          ix = \<lparr>ix_program_id = drift_ID C, ix_accounts = accounts,
            ix_data = (if p_market_type order = market_type.Perp
              then PlaceAndMakePerpOrder order taker_order_id
              else PlaceAndMakeSpotOrder order taker_order_id fulfillment_type)\<rparr> in
      Inr (b\<lparr>tb_ixs := tb_ixs b @ [ix]\<rparr>)))"

definition place_and_take :: "('l, 'v) tx_env \<Rightarrow> order_params \<Rightarrow> (pubkey \<times> user) option \<Rightarrow>
    pubkey option \<Rightarrow> spot_fulfillment_type option \<Rightarrow> tx_builder \<Rightarrow> tx_builder res" where
  "place_and_take T order maker_info referrer fulfillment_type b =
     (let C = tx_chain T;
          user_accounts = (case maker_info of
            Some (_, maker) \<Rightarrow> [tb_account_data b, maker] | None \<Rightarrow> [tb_account_data b]) in
      bindE (build_accounts C (tb_program_data b)
        (to_account_metas T (PlaceAndTakeAccounts (state_account C) (tb_authority b) (tb_sub_account b)
          (derive_stats_account C (tb_authority b) (drift_ID C))))
        user_accounts []
        (writable_markets (p_market_type order) (p_market_index order))) (\<lambda>accounts.
      let accounts = (case referrer of
            Some referrer \<Rightarrow>
              if \<not> (case maker_info of Some (m, _) \<Rightarrow> m = referrer | None \<Rightarrow> False)
              then accounts @ referrer_metas C referrer else accounts
          | None \<Rightarrow> accounts);
          ix = \<lparr>ix_program_id = drift_ID C, ix_accounts = accounts,
            ix_data = (if p_market_type order = market_type.Perp
              then PlaceAndTakePerpOrder order None
              else PlaceAndTakeSpotOrder order None fulfillment_type)\<rparr> in
      Inr (b\<lparr>tb_ixs := tb_ixs b @ [ix]\<rparr>)))"

definition tx_build :: "('l, 'v) tx_env \<Rightarrow> tx_builder \<Rightarrow> ('l, 'v) versioned_message res" where
  "tx_build T b =
     (if tb_legacy b then Inr (Legacy (message_new T (tb_ixs b) (tb_authority b)))
      else bindE (of_opt (Panic ''ok'')
          (message_try_compile T (tb_authority b) (tb_ixs b) (tb_lookup_tables b))) (\<lambda>message.
        Inr (V0 message)))"

end
