(* ===== verification/Tx_Building.thy ===== *)
theory Tx_Building
  imports Tx_Builder
begin

text \<open>
  What a sequence of builder calls gives: the instructions of each call depend only on the builder's
  fixed part, and they stand in the order of the calls after the fee instructions.
\<close>

section \<open>Calls\<close>

datatype tx_call =
    CallLegacy
  | CallLookupTables "lookup_table list"
  | CallPriorityFee u64 "u32 option"
  | CallDeposit u64 u16 pubkey "bool option"
  | CallWithdraw u64 u16 pubkey "bool option"
  | CallPlaceOrders "order_params list"
  | CallCancelAllOrders
  | CallCancelOrders u16 market_type "position_direction option"
  | CallCancelOrdersById "u32 list"
  | CallCancelOrdersByUserId "u8 list"
  | CallModifyOrders "(u32 \<times> modify_order_params) list"
  | CallModifyOrdersByUserId "(u8 \<times> modify_order_params) list"
  | CallPlaceAndMake order_params pubkey user u32 "pubkey option" "spot_fulfillment_type option"
  | CallPlaceAndTake order_params "(pubkey \<times> user) option" "pubkey option" "spot_fulfillment_type option"

definition apply_call :: "('l, 'v) tx_env \<Rightarrow> tx_builder \<Rightarrow> tx_call \<Rightarrow> tx_builder res" where
  "apply_call T b call = (case call of
     CallLegacy \<Rightarrow> Inr (tx_legacy b)
   | CallLookupTables tables \<Rightarrow> Inr (tx_lookup_tables tables b)
   | CallPriorityFee fee cu_limit \<Rightarrow> with_priority_fee T fee cu_limit b
   | CallDeposit amount index account reduce_only \<Rightarrow> deposit T amount index account reduce_only b
   | CallWithdraw amount index account reduce_only \<Rightarrow> withdraw T amount index account reduce_only b
   | CallPlaceOrders orders \<Rightarrow> place_orders T orders b
   | CallCancelAllOrders \<Rightarrow> cancel_all_orders T b
   | CallCancelOrders index kind direction \<Rightarrow> cancel_orders T (index, kind) direction b
   | CallCancelOrdersById ids \<Rightarrow> cancel_orders_by_id T ids b
   | CallCancelOrdersByUserId ids \<Rightarrow> cancel_orders_by_user_id T ids b
   | CallModifyOrders orders \<Rightarrow> modify_orders T orders b
   | CallModifyOrdersByUserId orders \<Rightarrow> modify_orders_by_user_id T orders b
   | CallPlaceAndMake order taker account i referrer ft \<Rightarrow>
       place_and_make T order (taker, account) i referrer ft b
   | CallPlaceAndTake order maker referrer ft \<Rightarrow> place_and_take T order maker referrer ft b)"

section \<open>The instructions of a call\<close>

text \<open>
  The request behind an instruction: its own accounts, the users and markets whose accounts it
  needs, the accounts that follow and its data.
\<close>

record ix_request =
  ir_base :: base_accounts
  ir_users :: "user list"
  ir_readable :: "market_id list"
  ir_writable :: "market_id list"
  ir_more :: "account_meta list"
  ir_data :: instruction_data

definition make_ix :: "('l, 'v) tx_env \<Rightarrow> program_data \<Rightarrow> ix_request \<Rightarrow> instruction res" where
  "make_ix T P r =
     bindE (build_accounts (tx_chain T) P (to_account_metas T (ir_base r)) (ir_users r) (ir_readable r)
       (ir_writable r)) (\<lambda>accounts.
     Inr \<lparr>ix_program_id = drift_ID (tx_chain T), ix_accounts = accounts @ ir_more r, ix_data = ir_data r\<rparr>)"

text \<open>
  Requests of a call. A call that changes no instruction or only the fee has none; a call with a list
  of ids has one for every id.
\<close>

definition plain_request ::
  "base_accounts \<Rightarrow> tx_builder \<Rightarrow> market_id list \<Rightarrow> market_id list \<Rightarrow> instruction_data \<Rightarrow> ix_request" where
  "plain_request base b readable writable data =
     \<lparr>ir_base = base, ir_users = [tb_account_data b], ir_readable = readable, ir_writable = writable,
      ir_more = [], ir_data = data\<rparr>"

definition order_base :: "('l, 'v) tx_env \<Rightarrow> tx_builder \<Rightarrow> base_accounts" where
  "order_base T b = PlaceOrderAccounts (state_account (tx_chain T)) (tb_authority b) (tb_sub_account b)"

definition cancel_base :: "('l, 'v) tx_env \<Rightarrow> tx_builder \<Rightarrow> base_accounts" where
  "cancel_base T b = CancelOrderAccounts (state_account (tx_chain T)) (tb_authority b) (tb_sub_account b)"

definition stats_of :: "('l, 'v) tx_env \<Rightarrow> pubkey \<Rightarrow> pubkey" where
  "stats_of T k = derive_stats_account (tx_chain T) k (drift_ID (tx_chain T))"

definition call_requests :: "('l, 'v) tx_env \<Rightarrow> tx_builder \<Rightarrow> tx_call \<Rightarrow> ix_request list" where
  "call_requests T b call = (let C = tx_chain T in case call of
     CallLegacy \<Rightarrow> []
   | CallLookupTables tables \<Rightarrow> []
   | CallPriorityFee fee cu_limit \<Rightarrow> []
   | CallDeposit amount index account reduce_only \<Rightarrow>
       [plain_request (DepositAccounts (state_account C) (tb_sub_account b) (stats_of T (tb_authority b))
          (tb_authority b) (derive_spot_market_vault C index) account (TOKEN_PROGRAM_ID C))
          b [] [market_id_spot index] (DepositData index amount (reduce_only = Some True))]
   | CallWithdraw amount index account reduce_only \<Rightarrow>
       [plain_request (WithdrawAccounts (state_account C) (tb_sub_account b) (stats_of T (tb_authority b))
          (tb_authority b) (derive_spot_market_vault C index) account (derive_drift_signer C)
          (TOKEN_PROGRAM_ID C))
          b [] [market_id_spot index] (WithdrawData index amount (reduce_only = Some True))]
   | CallPlaceOrders orders \<Rightarrow>
       [plain_request (order_base T b) b
          (map (\<lambda>order. \<lparr>mid_index = p_market_index order, mid_kind = p_market_type order\<rparr>) orders) []
          (PlaceOrders orders)]
   | CallCancelAllOrders \<Rightarrow> [plain_request (cancel_base T b) b [] [] (CancelOrders None None None)]
   | CallCancelOrders index kind direction \<Rightarrow>
       [plain_request (cancel_base T b) b [\<lparr>mid_index = index, mid_kind = kind\<rparr>] []
          (CancelOrders (Some index) (Some kind) direction)]
   | CallCancelOrdersById ids \<Rightarrow> [plain_request (cancel_base T b) b [] [] (CancelOrdersByIds ids)]
   | CallCancelOrdersByUserId ids \<Rightarrow>
       map (\<lambda>i. plain_request (cancel_base T b) b [] [] (CancelOrderByUserId i)) ids
   | CallModifyOrders orders \<Rightarrow>
       map (\<lambda>(i, params). plain_request (order_base T b) b [] [] (ModifyOrder (Some i) params)) orders
   | CallModifyOrdersByUserId orders \<Rightarrow>
       map (\<lambda>(i, params). plain_request (order_base T b) b [] [] (ModifyOrderByUserId i params)) orders
   | CallPlaceAndMake order taker account i referrer ft \<Rightarrow>
       [\<lparr>ir_base = PlaceAndMakeAccounts (state_account C) (tb_authority b) (tb_sub_account b)
            (stats_of T (tb_authority b)) taker (stats_of T taker),
         ir_users = [tb_account_data b, account], ir_readable = [],
         ir_writable = writable_markets (p_market_type order) (p_market_index order),
         ir_more = (case referrer of None \<Rightarrow> [] | Some r \<Rightarrow> referrer_metas C r),
         ir_data = (if p_market_type order = market_type.Perp then PlaceAndMakePerpOrder order i
           else PlaceAndMakeSpotOrder order i ft)\<rparr>]
   | CallPlaceAndTake order maker referrer ft \<Rightarrow>
       [\<lparr>ir_base = PlaceAndTakeAccounts (state_account C) (tb_authority b) (tb_sub_account b)
            (stats_of T (tb_authority b)),
         ir_users = tb_account_data b # (case maker of None \<Rightarrow> [] | Some (_, account) \<Rightarrow> [account]),
         ir_readable = [],
         ir_writable = writable_markets (p_market_type order) (p_market_index order),
         ir_more = (case referrer of None \<Rightarrow> []
           | Some r \<Rightarrow> if map_option fst maker = Some r then [] else referrer_metas C r),
         ir_data = (if p_market_type order = market_type.Perp then PlaceAndTakePerpOrder order None
           else PlaceAndTakeSpotOrder order None ft)\<rparr>])"

definition fee_ixs :: "('l, 'v) tx_env \<Rightarrow> tx_call \<Rightarrow> instruction list" where
  "fee_ixs T call = (case call of
     CallPriorityFee fee cu_limit \<Rightarrow> compute_budget T (SetComputeUnitPrice fee) #
       (case cu_limit of None \<Rightarrow> [] | Some l \<Rightarrow> [compute_budget T (SetComputeUnitLimit l)])
   | _ \<Rightarrow> [])"

text \<open>The part of a builder no call changes.\<close>

definition fixed_part :: "tx_builder \<Rightarrow> program_data \<times> user \<times> pubkey \<times> pubkey" where
  "fixed_part b = (tb_program_data b, tb_account_data b, tb_sub_account b, tb_authority b)"

lemma fixed_requests:
  "fixed_part b = fixed_part b' \<Longrightarrow> call_requests T b call = call_requests T b' call"
  by (auto simp: fixed_part_def call_requests_def plain_request_def order_base_def cancel_base_def Let_def
      split: tx_call.split)

section \<open>One call\<close>

lemma push_all:
  "foldl (\<lambda>b x. b\<lparr>tb_ixs := tb_ixs b @ [g x]\<rparr>) b xs = b\<lparr>tb_ixs := tb_ixs b @ map g xs\<rparr>"
  by (induction xs arbitrary: b) simp_all

lemma mapE_map: "mapE f (map g xs) = mapE (\<lambda>x. f (g x)) xs"
  by (induction xs) simp_all

lemma mapE_const_Inr: "m = Inr a \<Longrightarrow> mapE (\<lambda>x. bindE m (k x)) xs = mapE (\<lambda>x. k x a) xs"
  by (induction xs) auto

lemma make_plain:
  "make_ix T P (plain_request base b readable writable data) =
     bindE (build_accounts (tx_chain T) P (to_account_metas T base) [tb_account_data b] readable writable)
       (\<lambda>accounts. Inr \<lparr>ix_program_id = drift_ID (tx_chain T), ix_accounts = accounts, ix_data = data\<rparr>)"
  by (simp add: make_ix_def plain_request_def)

lemma plain_request_ixs [simp]:
  "plain_request base (b\<lparr>tb_ixs := ixs\<rparr>) readable writable data = plain_request base b readable writable data"
  by (simp add: plain_request_def)

lemma modify_orders_eq:
  "modify_orders T orders b =
     bindE (mapE (make_ix T (tb_program_data b)) (call_requests T b (CallModifyOrders orders))) (\<lambda>ixs.
     Inr (b\<lparr>tb_ixs := tb_ixs b @ ixs\<rparr>))"
  by (induction orders arbitrary: b)
     (auto simp: modify_orders_def call_requests_def make_plain order_base_def Let_def bindE_def
       split: sum.splits)

lemma modify_orders_by_user_id_eq:
  "modify_orders_by_user_id T orders b =
     bindE (mapE (make_ix T (tb_program_data b)) (call_requests T b (CallModifyOrdersByUserId orders))) (\<lambda>ixs.
     Inr (b\<lparr>tb_ixs := tb_ixs b @ ixs\<rparr>))"
  by (induction orders arbitrary: b)
     (auto simp: modify_orders_by_user_id_def call_requests_def make_plain order_base_def Let_def bindE_def
       split: sum.splits)

lemma option_bool: "(case x of None \<Rightarrow> False | Some r \<Rightarrow> r) \<longleftrightarrow> x = Some True"
  by (cases x) auto

definition call_effect :: "('l, 'v) tx_env \<Rightarrow> tx_call \<Rightarrow> instruction list \<Rightarrow> tx_builder \<Rightarrow> tx_builder" where
  "call_effect T call ixs b = (case call of
     CallLegacy \<Rightarrow> tx_legacy b
   | CallLookupTables tables \<Rightarrow> tx_lookup_tables tables b
   | _ \<Rightarrow> b\<lparr>tb_ixs := fee_ixs T call @ tb_ixs b @ ixs\<rparr>)"

text \<open>
  Every call is the construction of its requested instructions followed by its effect; only the call
  that cancels by user ids also builds the accounts when there are no ids.
\<close>

lemma apply_call_eq:
  assumes "call \<noteq> CallCancelOrdersByUserId []"
  shows "apply_call T b call =
    bindE (mapE (make_ix T (tb_program_data b)) (call_requests T b call)) (\<lambda>ixs.
    Inr (call_effect T call ixs b))"
proof (cases call)
  case (CallCancelOrdersByUserId ids)
  then obtain i js where ids: "ids = i # js" using assms by (cases ids) auto
  show ?thesis
    by (simp add: CallCancelOrdersByUserId ids apply_call_def cancel_orders_by_user_id_def call_requests_def
        mapE_map make_plain push_all call_effect_def fee_ixs_def cancel_base_def Let_def)
       (cases "build_accounts (tx_chain T) (tb_program_data b)
          (to_account_metas T (CancelOrderAccounts (state_account (tx_chain T)) (tb_authority b)
            (tb_sub_account b))) [tb_account_data b] [] []";
        simp add: mapE_const_Inr mapE_Inr [of _ _ "\<lambda>x. _ x"])
next
  case (CallModifyOrders orders)
  then show ?thesis by (simp add: apply_call_def modify_orders_eq call_effect_def fee_ixs_def)
next
  case (CallModifyOrdersByUserId orders)
  then show ?thesis by (simp add: apply_call_def modify_orders_by_user_id_eq call_effect_def fee_ixs_def)
next
  case (CallPriorityFee fee cu_limit)
  then show ?thesis
    by (cases cu_limit) (simp_all add: apply_call_def with_priority_fee_def vec_insert_def call_requests_def
        call_effect_def fee_ixs_def)
next
  case (CallDeposit amount index account reduce_only)
  then show ?thesis
    by (simp add: apply_call_def deposit_def call_requests_def make_plain call_effect_def fee_ixs_def
        stats_of_def option_bool Let_def bindE_def split: sum.split)
next
  case (CallWithdraw amount index account reduce_only)
  then show ?thesis
    by (simp add: apply_call_def withdraw_def call_requests_def make_plain call_effect_def fee_ixs_def
        stats_of_def option_bool Let_def bindE_def split: sum.split)
next
  case (CallPlaceOrders orders)
  then show ?thesis
    by (simp add: apply_call_def place_orders_def call_requests_def make_plain call_effect_def fee_ixs_def
        order_base_def market_id_from_def Let_def bindE_def split: sum.split)
next
  case CallCancelAllOrders
  then show ?thesis
    by (simp add: apply_call_def cancel_all_orders_def call_requests_def make_plain call_effect_def fee_ixs_def
        cancel_base_def Let_def bindE_def split: sum.split)
next
  case (CallCancelOrders index kind direction)
  then show ?thesis
    by (simp add: apply_call_def cancel_orders_def call_requests_def make_plain call_effect_def fee_ixs_def
        cancel_base_def market_id_from_def Let_def bindE_def split: sum.split)
next
  case (CallCancelOrdersById ids)
  then show ?thesis
    by (simp add: apply_call_def cancel_orders_by_id_def call_requests_def make_plain call_effect_def
        fee_ixs_def cancel_base_def Let_def bindE_def split: sum.split)
next
  case (CallPlaceAndMake order taker account i referrer ft)
  then show ?thesis
    by (cases referrer) (simp_all add: apply_call_def place_and_make_def call_requests_def make_ix_def
        call_effect_def fee_ixs_def stats_of_def Let_def bindE_def split: sum.split)
next
  case (CallPlaceAndTake order maker referrer ft)
  then show ?thesis
    by (cases maker; cases referrer) (auto simp: apply_call_def place_and_take_def call_requests_def make_ix_def
        call_effect_def fee_ixs_def stats_of_def Let_def bindE_def split: sum.split)
qed (simp_all add: apply_call_def call_requests_def call_effect_def)

lemma apply_call_Inr:
  assumes "apply_call T b call = Inr b'"
  shows "\<exists>ixs. mapE (make_ix T (tb_program_data b)) (call_requests T b call) = Inr ixs \<and>
    b' = call_effect T call ixs b"
proof (cases "call = CallCancelOrdersByUserId []")
  case True
  then show ?thesis
    using assms by (auto simp: apply_call_def cancel_orders_by_user_id_def call_requests_def Let_def returns
        call_effect_def fee_ixs_def)
next
  case False
  from assms [unfolded apply_call_eq [OF this]] show ?thesis by (auto simp: returns)
qed

lemma call_effect_fixed: "fixed_part (call_effect T call ixs b) = fixed_part b"
  by (cases call) (simp_all add: call_effect_def fixed_part_def tx_legacy_def tx_lookup_tables_def)

lemma call_effect_ixs:
  "mapE (make_ix T P) (call_requests T b call) = Inr ixs \<Longrightarrow>
   tb_ixs (call_effect T call ixs b) = fee_ixs T call @ tb_ixs b @ ixs"
  by (cases call) (simp_all add: call_effect_def fee_ixs_def tx_legacy_def tx_lookup_tables_def call_requests_def)

lemma call_effect_legacy: "tb_legacy (call_effect T call ixs b) \<longleftrightarrow> tb_legacy b \<or> call = CallLegacy"
  by (cases call) (simp_all add: call_effect_def tx_legacy_def tx_lookup_tables_def)

section \<open>Sequences of calls\<close>

definition run_calls :: "('l, 'v) tx_env \<Rightarrow> tx_call list \<Rightarrow> tx_builder \<Rightarrow> tx_builder res" where
  "run_calls T calls b = foldE (apply_call T) b calls"

lemma run_calls_order:
  assumes "run_calls T calls b = Inr b'"
  shows "\<exists>ixss. mapE (\<lambda>call. mapE (make_ix T (tb_program_data b)) (call_requests T b call)) calls = Inr ixss \<and>
    tb_ixs b' = concat (rev (map (fee_ixs T) calls)) @ tb_ixs b @ concat ixss \<and>
    fixed_part b' = fixed_part b \<and> (tb_legacy b' \<longleftrightarrow> tb_legacy b \<or> CallLegacy \<in> set calls)"
  using assms
proof (induction calls arbitrary: b)
  case (Cons call calls)
  then obtain b1 where b1: "apply_call T b call = Inr b1" "run_calls T calls b1 = Inr b'"
    by (auto simp: run_calls_def returns)
  from apply_call_Inr [OF b1(1)] obtain ixs where
    ixs: "mapE (make_ix T (tb_program_data b)) (call_requests T b call) = Inr ixs"
    "b1 = call_effect T call ixs b" by blast
  have fixed: "fixed_part b1 = fixed_part b" by (simp add: ixs(2) call_effect_fixed)
  have reqs: "call_requests T b1 c = call_requests T b c" for c by (rule fixed_requests [OF fixed])
  have "tb_program_data b1 = tb_program_data b" using fixed by (simp add: fixed_part_def)
  with Cons.IH [OF b1(2)] obtain ixss where
    ixss: "mapE (\<lambda>call. mapE (make_ix T (tb_program_data b)) (call_requests T b call)) calls = Inr ixss"
    "tb_ixs b' = concat (rev (map (fee_ixs T) calls)) @ tb_ixs b1 @ concat ixss"
    "fixed_part b' = fixed_part b1" "tb_legacy b' \<longleftrightarrow> tb_legacy b1 \<or> CallLegacy \<in> set calls"
    by (auto simp: reqs)
  then show ?case
    using ixs fixed by (auto simp: call_effect_ixs call_effect_legacy)
qed (simp add: run_calls_def)

text \<open>The markets of a request, which must be known for its accounts to be found.\<close>

definition request_known :: "('l, 'v) tx_env \<Rightarrow> program_data \<Rightarrow> ix_request \<Rightarrow> bool" where
  "request_known T P r \<longleftrightarrow>
     (\<forall>m\<in>fst ` set (requests (tx_chain T) (ir_users r) (ir_readable r) (ir_writable r)). small_known P m)"

lemma make_ix_known:
  assumes "request_known T P r" and "distinct_markets P"
  shows "\<exists>ix. make_ix T P r = Inr ix"
proof -
  let ?rs = "requests (tx_chain T) (ir_users r) (ir_readable r) (ir_writable r)"
  from include_requests [OF included_empty _ assms(2), of ?rs] assms(1) obtain s where
    "foldE (include_request P) \<lparr>al_seen = (\<lambda>_. 0), al_accounts = []\<rparr> ?rs = Inr s"
    by (auto simp: request_known_def)
  then show ?thesis by (simp add: make_ix_def build_accounts_requests)
qed

lemma mapE_defined: "(\<And>x. x \<in> set xs \<Longrightarrow> \<exists>y. f x = Inr y) \<Longrightarrow> \<exists>ys. mapE f xs = Inr ys"
  by (induction xs) fastforce+

lemma apply_call_defined:
  assumes "distinct_markets (tb_program_data b)"
    and "request_known T (tb_program_data b) (plain_request base b [] [] dt)"
    and "\<forall>r\<in>set (call_requests T b call). request_known T (tb_program_data b) r"
  shows "\<exists>b'. apply_call T b call = Inr b'"
proof (cases "call = CallCancelOrdersByUserId []")
  case True
  have "request_known T (tb_program_data b) (plain_request (cancel_base T b) b [] [] dt)"
    using assms(2) by (simp add: request_known_def plain_request_def)
  from make_ix_known [OF this assms(1)] True show ?thesis
    by (auto simp: apply_call_def cancel_orders_by_user_id_def make_plain cancel_base_def Let_def returns)
next
  case False
  have "\<exists>ixs. mapE (make_ix T (tb_program_data b)) (call_requests T b call) = Inr ixs"
    by (rule mapE_defined) (use make_ix_known assms(1,3) in blast)
  with apply_call_eq [OF False, of T b] show ?thesis by auto
qed

lemma run_calls_defined:
  assumes "distinct_markets (tb_program_data b)"
    and "request_known T (tb_program_data b) (plain_request base b [] [] dt)"
    and "\<forall>call\<in>set calls. \<forall>r\<in>set (call_requests T b call). request_known T (tb_program_data b) r"
  shows "\<exists>b'. run_calls T calls b = Inr b'"
  using assms
proof (induction calls arbitrary: b)
  case (Cons call calls)
  then obtain b1 where b1: "apply_call T b call = Inr b1"
    using apply_call_defined [of b T base dt call] by auto
  from apply_call_Inr [OF b1] have fixed: "fixed_part b1 = fixed_part b" using call_effect_fixed by metis
  then have same: "tb_program_data b1 = tb_program_data b" "tb_account_data b1 = tb_account_data b"
    by (simp_all add: fixed_part_def)
  have reqs: "call_requests T b1 c = call_requests T b c" for c by (rule fixed_requests [OF fixed])
  have "\<exists>b'. run_calls T calls b1 = Inr b'"
    by (rule Cons.IH) (use Cons.prems in \<open>auto simp: same reqs plain_request_def\<close>)
  with b1 show ?case by (simp add: run_calls_def)
qed (simp add: run_calls_def)

section \<open>Properties\<close>

text \<open>
  C10. After any successful sequence of builder calls the instructions are the fee instructions, those
  of the latest fee call first, and then the instructions of the calls in their order; each is the
  one its call gives on the initial builder, so no call changes what another one produces, nor the
  authority that pays.
\<close>

theorem tx_calls_in_order:
  assumes "run_calls T calls b = Inr b'"
  shows "\<exists>ixss. mapE (\<lambda>call. mapE (make_ix T (tb_program_data b)) (call_requests T b call)) calls = Inr ixss \<and>
    tb_ixs b' = concat (rev (map (fee_ixs T) calls)) @ tb_ixs b @ concat ixss \<and>
    fixed_part b' = fixed_part b \<and> (tb_legacy b' \<longleftrightarrow> tb_legacy b \<or> CallLegacy \<in> set calls)"
  using assms by (rule run_calls_order)

text \<open>
  C11. A sequence of builder calls never panics as long as the markets it names and those the users have
  positions in are known to the program data, with indexes below 64.
\<close>

theorem tx_calls_defined:
  assumes "distinct_markets (tb_program_data b)"
    and "request_known T (tb_program_data b) (plain_request base b [] [] data)"
    and "\<forall>call\<in>set calls. \<forall>r\<in>set (call_requests T b call). request_known T (tb_program_data b) r"
  shows "\<exists>b'. run_calls T calls b = Inr b'"
  using assms by (rule run_calls_defined)

definition sample_tx :: "(instruction list, instruction list) tx_env" where
  "sample_tx = \<lparr>tx_chain = sample_chain, to_account_metas = (\<lambda>_. []),
     compute_budget = (\<lambda>d. \<lparr>ix_program_id = 77, ix_accounts = [], ix_data = d\<rparr>),
     message_new = (\<lambda>ixs _. ixs), message_try_compile = (\<lambda>_ ixs _. Some ixs), jit_proxy_id = 88\<rparr>"

definition sample_builder :: tx_builder where
  "sample_builder = transaction_builder_new sample_data 5 sample_user False"

lemma sample_known:
  "request_known sample_tx (tb_program_data sample_builder) (plain_request base sample_builder [] [] d)"
  by (simp add: request_known_def plain_request_def requests_def user_requests_def sample_builder_def
      transaction_builder_new_def sample_user_def small_known_def known_def)
     (simp add: QUOTE_SPOT_def sample_data_def)

theorem tx_calls_defined_witness:
  "\<exists>b'. run_calls sample_tx [CallCancelAllOrders, CallPriorityFee 5 (Some 100)] sample_builder = Inr b'"
  by (rule tx_calls_defined [OF _ sample_known])
     (auto simp: call_requests_def sample_known sample_builder_def transaction_builder_new_def
       sample_data_distinct sample_known [unfolded sample_builder_def transaction_builder_new_def, simplified])

theorem tx_calls_in_order_witness:
  "\<exists>b' ix. run_calls sample_tx [CallCancelAllOrders, CallPriorityFee 5 (Some 100)] sample_builder = Inr b' \<and>
     map ix_data (tb_ixs b') = [SetComputeUnitPrice 5, SetComputeUnitLimit 100, CancelOrders None None None]"
proof -
  obtain b' where b': "run_calls sample_tx [CallCancelAllOrders, CallPriorityFee 5 (Some 100)] sample_builder = Inr b'"
    using run_calls_defined [of sample_builder sample_tx, OF _ sample_known,
        of "[CallCancelAllOrders, CallPriorityFee 5 (Some 100)]"]
    by (auto simp: call_requests_def sample_known)
       (auto simp: sample_builder_def transaction_builder_new_def sample_data_distinct)
  from tx_calls_in_order [OF b'] show ?thesis
    using b' by (auto simp: call_requests_def fee_ixs_def make_plain returns sample_tx_def)
      (simp_all add: sample_builder_def transaction_builder_new_def)
qed

end
