(* ===== verification/Event_Flow.thy ===== *)
theory Event_Flow
  imports Sdk_Types "HOL-Library.AList"
begin

text \<open>
  Where updates come from and how they are passed on: \<open>src/src/event_emitter.rs\<close>,
  \<open>src/src/async_utils.rs\<close>, \<open>src/src/slot_subscriber.rs\<close> and \<open>src/src/blockhash_subscriber.rs\<close>.

  A task that runs for ever is its step on one message; a sequence of messages is a fold of it. The
  locale \<open>slot_gate\<close> is the contract of every receiver that drops messages older than the
  newest one it has seen.
\<close>

section \<open>Slot gates\<close>

locale slot_gate =
  fixes slot_of :: "'m \<Rightarrow> u64" and emits :: "'m \<Rightarrow> bool"
    and latest :: "'s \<Rightarrow> u64" and emitted :: "'s \<Rightarrow> u64 list" and step :: "'s \<Rightarrow> 'm \<Rightarrow> 's"
  assumes newer: "latest s \<le> slot_of m \<Longrightarrow> latest (step s m) = slot_of m \<and>
      emitted (step s m) = emitted s @ (if emits m then [slot_of m] else [])"
    and older: "slot_of m < latest s \<Longrightarrow> step s m = s"
begin

lemma latest_max: "latest (foldl step s ms) = fold max (map slot_of ms) (latest s)"
proof (induction ms arbitrary: s)
  case (Cons m ms)
  have "latest (step s m) = max (slot_of m) (latest s)"
    using newer [of s m] older [of m s] by (cases "latest s \<le> slot_of m") (auto simp: max_def)
  then show ?case using Cons by simp
qed simp

lemma emitted_sorted:
  assumes "sorted (emitted s)" and "\<forall>x\<in>set (emitted s). x \<le> latest s"
  shows "sorted (emitted (foldl step s ms)) \<and>
    (\<forall>x\<in>set (emitted (foldl step s ms)). x \<le> latest (foldl step s ms))"
  using assms
proof (induction ms arbitrary: s)
  case (Cons m ms)
  show ?case
  proof (cases "latest s \<le> slot_of m")
    case True
    then have "\<forall>x\<in>set (emitted s). x \<le> slot_of m" using Cons.prems(2) by (blast intro: order_trans)
    then have "sorted (emitted (step s m))" "\<forall>x\<in>set (emitted (step s m)). x \<le> latest (step s m)"
      using newer [OF True] Cons.prems by (auto simp: sorted_append)
    then show ?thesis using Cons.IH by simp
  next
    case False
    with Cons older [of m s] show ?thesis by simp
  qed
qed simp

end

section \<open>The event emitter\<close>

text \<open>
  The senders of the handlers by event type; a delivery is the handler that gets the event. A handler
  runs in its own thread on the events it was sent, in their order.
\<close>

record 'h event_emitter =
  em_subscribers :: "(string \<times> 'h list) list"

definition event_emitter_new :: "'h event_emitter" where
  "event_emitter_new = \<lparr>em_subscribers = []\<rparr>"

definition emitter_subscribe :: "string \<Rightarrow> 'h \<Rightarrow> 'h event_emitter \<Rightarrow> 'h event_emitter" where
  "emitter_subscribe event_type handler e =
     (let subs = (case map_of (em_subscribers e) event_type of None \<Rightarrow> [] | Some subs \<Rightarrow> subs) in
      e\<lparr>em_subscribers := AList.update event_type (subs @ [handler]) (em_subscribers e)\<rparr>)"

definition emitter_emit :: "string \<Rightarrow> 'v \<Rightarrow> 'h event_emitter \<Rightarrow> ('h \<times> 'v) list" where
  "emitter_emit event_type event e =
     (case map_of (em_subscribers e) event_type of
        None \<Rightarrow> []
      | Some handlers \<Rightarrow> map (\<lambda>handler. (handler, event)) handlers)"

section \<open>Retries\<close>

datatype retry_policy =
    FailFast
  | ExponentialBackoff (max_attempts: u32)
  | InfiniteRetry (delay_s: u32)

text \<open>The delay in seconds before the retry, or \<open>None\<close> to give up.\<close>

definition policy_check :: "retry_policy \<Rightarrow> u32 \<Rightarrow> u64 option res" where
  "policy_check policy attempts = (case policy of
     FailFast \<Rightarrow> Inr None
   | ExponentialBackoff m \<Rightarrow>
       if m < attempts then Inr None
       else bindE (chk_u 64 (2 ^ unat attempts)) (\<lambda>d. Inr (Some (word_of_int d)))
   | InfiniteRetry d \<Rightarrow> Inr (Some (ucast d)))"

text \<open>
  The delays the task has waited and how it stopped; the task runs once before every check, so it has
  run once more than it has waited.
\<close>

fun retry_task :: "retry_policy \<Rightarrow> nat \<Rightarrow> u32 \<Rightarrow> u64 list \<times> sdk_error fail" where
  "retry_task policy 0 attempts = ([], OutOfFuel)"
| "retry_task policy (Suc fuel) attempts =
     (case policy_check policy attempts of
        Inl e \<Rightarrow> ([], e)
      | Inr None \<Rightarrow> ([], Panic ''task reached retry limit'')
      | Inr (Some d) \<Rightarrow>
          (case uadd attempts 1 of
             Inl e \<Rightarrow> ([d], e)
           | Inr attempts \<Rightarrow>
               let (delays, stop) = retry_task policy fuel attempts in (d # delays, stop)))"

section \<open>Slots\<close>

record slot_subscriber =
  ss_current_slot :: u64
  ss_emitted :: "u64 list"
  ss_subscribed :: bool
  ss_unsubscriber :: bool
  ss_url :: string

definition slot_subscriber_new :: "string \<Rightarrow> slot_subscriber" where
  "slot_subscriber_new url = \<lparr>ss_current_slot = 0, ss_emitted = [], ss_subscribed = False,
     ss_unsubscriber = False, ss_url = url\<rparr>"

text \<open>
  Connecting may fail, after the flag is set; the task that is spawned then handles the slot messages.
\<close>

definition slot_subscribe :: "sdk_error option \<Rightarrow> slot_subscriber \<Rightarrow> slot_subscriber \<times> sdk_error option" where
  "slot_subscribe connect_error s =
     (if ss_subscribed s then (s, None)
      else
        let s = s\<lparr>ss_subscribed := True\<rparr> in
        case connect_error of
          Some e \<Rightarrow> (s, Some e)
        | None \<Rightarrow> (s\<lparr>ss_unsubscriber := True\<rparr>, None))"

definition slot_message :: "slot_subscriber \<Rightarrow> u64 \<Rightarrow> slot_subscriber" where
  "slot_message s slot =
     (if ss_current_slot s \<le> slot
      then s\<lparr>ss_current_slot := slot, ss_emitted := ss_emitted s @ [slot]\<rparr> else s)"

definition slot_unsubscribe :: "bool \<Rightarrow> slot_subscriber \<Rightarrow> slot_subscriber \<times> sdk_error option" where
  "slot_unsubscribe task_alive s =
     (if ss_subscribed s \<and> ss_unsubscriber s then
        if \<not> task_alive then (s, Some CouldntUnsubscribe) else (s\<lparr>ss_subscribed := False\<rparr>, None)
      else (s, None))"

interpretation slots: slot_gate "\<lambda>slot. slot" "\<lambda>_. True" ss_current_slot ss_emitted slot_message
  by unfold_locales (auto simp: slot_message_def)

section \<open>Block hashes\<close>

type_synonym hash = "256 word"

record blockhash_subscriber =
  bs_latest_blockhash :: hash
  bs_last_twenty_hashes :: "hash list"
  bs_refresh_frequency :: u64

definition blockhash_subscriber_new :: "u64 \<Rightarrow> blockhash_subscriber" where
  "blockhash_subscriber_new refresh_frequency =
     \<lparr>bs_latest_blockhash = 0, bs_last_twenty_hashes = [], bs_refresh_frequency = refresh_frequency\<rparr>"

text \<open>One round of the task with the hash the node returned.\<close>

definition blockhash_round :: "blockhash_subscriber \<Rightarrow> hash \<Rightarrow> blockhash_subscriber" where
  "blockhash_round s blockhash =
     (let hashes = bs_last_twenty_hashes s @ [blockhash];
          hashes = (if 20 < length hashes then tl hashes else hashes) in
      s\<lparr>bs_last_twenty_hashes := hashes, bs_latest_blockhash := blockhash\<rparr>)"

definition get_latest_blockhash :: "blockhash_subscriber \<Rightarrow> hash" where
  "get_latest_blockhash s = bs_latest_blockhash s"

definition get_valid_blockhash :: "blockhash_subscriber \<Rightarrow> hash" where
  "get_valid_blockhash s =
     (case bs_last_twenty_hashes s of [] \<Rightarrow> bs_latest_blockhash s | h # _ \<Rightarrow> h)"

section \<open>Properties\<close>

lemma unat_small: "n < 2 ^ 32 \<Longrightarrow> unat (of_nat n :: u32) = n"
  by (simp add: unat_of_nat)

lemma exponential_from:
  assumes "a \<le> unat m + 1" and "unat m < 64" and "unat m + 2 - a \<le> fuel"
  shows "retry_task (ExponentialBackoff m) fuel (of_nat a) =
    (map (\<lambda>i. 2 ^ i) [a..<unat m + 1], Panic ''task reached retry limit'')"
  using assms
proof (induction "unat m + 1 - a" arbitrary: a fuel)
  case 0
  then obtain f where f: "fuel = Suc f" by (cases fuel) auto
  have "a = unat m + 1" using 0 by simp
  then have "unat (of_nat a :: u32) = unat m + 1" using 0 by (subst unat_small) simp_all
  then have "m < of_nat a" by (simp add: word_less_nat_alt)
  with \<open>a = unat m + 1\<close> f show ?case by (simp add: policy_check_def)
next
  case (Suc d)
  then obtain f where f: "fuel = Suc f" by (cases fuel) auto
  have a: "a \<le> unat m" using Suc.hyps(2) by simp
  then have ua: "unat (of_nat a :: u32) = a" using Suc.prems by (simp add: unat_of_nat)
  have "(2::int) ^ a < 2 ^ 64" using a Suc.prems by (intro power_strict_increasing) simp_all
  then have check: "policy_check (ExponentialBackoff m) (of_nat a) = Inr (Some (2 ^ a))"
    using a ua by (simp add: policy_check_def word_less_nat_alt fits_u_def)
  have next': "(uadd (of_nat a) 1 :: u32 res) = Inr (of_nat (Suc a))"
    using a ua Suc.prems by (simp add: uadd_def uint_nat)
  have "retry_task (ExponentialBackoff m) f (of_nat (Suc a)) =
      (map (\<lambda>i. 2 ^ i) [Suc a..<unat m + 1], Panic ''task reached retry limit'')"
    by (rule Suc.hyps(1)) (use Suc.hyps(2) Suc.prems f in auto)
  moreover have "[a..<unat m + 1] = a # [Suc a..<unat m + 1]" using a by (simp add: upt_conv_Cons)
  ultimately show ?case
    using check next' by (simp add: f del: of_nat_Suc upt_Suc)
qed

text \<open>
  A task with exponential back-off of at most m attempts runs m + 2 times, as it waits 1, 2, 4, up
  to 2 to the m seconds in between, and then panics.
\<close>

theorem exponential_backoff_runs:
  assumes "unat m < 64" and "unat m + 2 \<le> fuel"
  shows "retry_task (ExponentialBackoff m) fuel 0 =
    (map (\<lambda>i. 2 ^ i) [0..<unat m + 1], Panic ''task reached retry limit'')"
  using exponential_from [of 0 m fuel] assms by simp

text \<open>
  The current slot is the largest one seen and the slots passed on never decrease, in whatever
  order the messages arrive.
\<close>

theorem slot_subscriber_monotone:
  shows "ss_current_slot (foldl slot_message (slot_subscriber_new url) slots) = fold max slots 0 \<and>
    sorted (ss_emitted (foldl slot_message (slot_subscriber_new url) slots))"
  using slots.latest_max [of "slot_subscriber_new url" slots]
    slots.emitted_sorted [of "slot_subscriber_new url" slots]
  by (simp add: slot_subscriber_new_def)

lemma blockhash_rounds:
  "bs_last_twenty_hashes (foldl blockhash_round (blockhash_subscriber_new f) hs) =
     drop (length hs - 20) hs \<and>
   bs_latest_blockhash (foldl blockhash_round (blockhash_subscriber_new f) hs) = (if hs = [] then 0 else last hs)"
proof (induction hs rule: rev_induct)
  case (snoc h hs)
  have "tl (drop (length hs - 20) hs @ [h]) = drop (length hs - 19) hs @ [h]" if "20 \<le> length hs"
  proof -
    have "Suc (length hs - 20) = length hs - 19" using that by simp
    moreover have "drop (length hs - 20) hs \<noteq> []" using that by auto
    ultimately show ?thesis by (metis tl_append2 tl_drop drop_Suc)
  qed
  with snoc show ?case by (auto simp: blockhash_round_def Let_def Suc_diff_le not_less_eq_eq)
qed (simp add: blockhash_subscriber_new_def)

text \<open>
  The hash that transactions are signed with is the oldest of the last twenty fetched ones, not the
  newest: the one fetched nineteen rounds before the newest once there are twenty.
\<close>

theorem valid_blockhash_is_oldest:
  assumes "hs \<noteq> []"
  shows "get_valid_blockhash (foldl blockhash_round (blockhash_subscriber_new f) hs) = hs ! (length hs - 20) \<and>
    get_latest_blockhash (foldl blockhash_round (blockhash_subscriber_new f) hs) = last hs"
proof -
  have "drop (length hs - 20) hs = hs ! (length hs - 20) # drop (Suc (length hs - 20)) hs"
    using assms by (intro Cons_nth_drop_Suc [symmetric]) simp
  then show ?thesis
    using blockhash_rounds [of f hs] assms by (simp add: get_valid_blockhash_def get_latest_blockhash_def)
qed

theorem exponential_backoff_runs_witness:
  "retry_task (ExponentialBackoff 2) 4 0 = ([1, 2, 4], Panic ''task reached retry limit'')"
  using exponential_backoff_runs [of 2 4] by (simp add: upt_conv_Cons)

theorem valid_blockhash_is_oldest_witness:
  "get_valid_blockhash (foldl blockhash_round (blockhash_subscriber_new 2) [5, 6, 7]) = 5"
  using valid_blockhash_is_oldest [of "[5, 6, 7]" 2] by simp

end
