(* ===== verification/Websocket.thy ===== *)
theory Websocket
  imports Event_Flow Program_Types
begin

text \<open>
  \<open>src/src/websocket_account_subscriber.rs\<close> and
  \<open>src/src/websocket_program_account_subscriber.rs\<close>, with their users
  \<open>src/src/auction_subscriber.rs\<close> and the filters of \<open>src/src/memcmp.rs\<close>.

  The task \<open>subscribe_ws\<close> spawns is a step relation over what reaches it from outside: the outcome
  of connecting and subscribing, messages, the end of the stream, the unsubscribe signal and the
  end of a sleep. The two tasks differ in their first delay, in decoding and in what a closed
  unsubscribe channel does.
\<close>

section \<open>The task\<close>

datatype 'm ws_input =
    ConnectFails ext_error
  | SubscribeFails
  | SubscribeOk
  | Message u64 'm
  | StreamEnds
  | Unsub bool
  | SleepDone

datatype ws_phase =
    Connecting
  | Streaming
  | Sleeping (ws_delay: u64)
  | Ended (ws_result: "sdk_error option")

record ('m, 'd) ws_config =
  wc_base_delay :: u64
  wc_decode :: "'m \<Rightarrow> 'd option"
  wc_closed_ends :: bool

record 'd ws_task =
  wt_phase :: ws_phase
  wt_attempt :: u32
  wt_latest_slot :: u64
  wt_emitted :: "(u64 \<times> 'd) list"

definition max_reconnection_attempts :: u32 where
  "max_reconnection_attempts = 20"

definition ws_task_new :: "'d ws_task" where
  "ws_task_new = \<lparr>wt_phase = Connecting, wt_attempt = 0, wt_latest_slot = 0, wt_emitted = []\<rparr>"

text \<open>A message is dropped if its slot is older than the newest one; a newer one may fail to decode.\<close>

definition ws_message :: "('m, 'd) ws_config \<Rightarrow> 'd ws_task \<Rightarrow> u64 \<times> 'm \<Rightarrow> 'd ws_task" where
  "ws_message W s = (\<lambda>(slot, m).
     if wt_latest_slot s \<le> slot then
       let s = s\<lparr>wt_latest_slot := slot\<rparr> in
       case wc_decode W m of
         Some data \<Rightarrow> s\<lparr>wt_emitted := wt_emitted s @ [(slot, data)]\<rparr>
       | None \<Rightarrow> s
     else s)"

text \<open>What follows a broken stream or a failed subscription: give up or sleep.\<close>

definition ws_backoff :: "('m, 'd) ws_config \<Rightarrow> 'd ws_task \<Rightarrow> 'd ws_task" where
  "ws_backoff W s =
     (if max_reconnection_attempts \<le> wt_attempt s
      then s\<lparr>wt_phase := Ended (Some MaxReconnectionAttemptsReached)\<rparr>
      else s\<lparr>wt_phase := Sleeping (wc_base_delay W * 2 ^ unat (wt_attempt s))\<rparr>)"

inductive ws_step :: "('m, 'd) ws_config \<Rightarrow> 'd ws_task \<Rightarrow> 'm ws_input \<Rightarrow> 'd ws_task \<Rightarrow> bool"
  for W where
  connect_fails: "wt_phase s = Connecting \<Longrightarrow>
    ws_step W s (ConnectFails e) (s\<lparr>wt_phase := Ended (Some (Ws e))\<rparr>)"
| subscribe_fails: "wt_phase s = Connecting \<Longrightarrow>
    ws_step W s SubscribeFails
      (let s = s\<lparr>wt_attempt := wt_attempt s + 1\<rparr> in
       if max_reconnection_attempts \<le> wt_attempt s
       then s\<lparr>wt_phase := Ended (Some MaxReconnectionAttemptsReached)\<rparr>
       else ws_backoff W s)"
| subscribe_ok: "wt_phase s = Connecting \<Longrightarrow>
    ws_step W s SubscribeOk (s\<lparr>wt_phase := Streaming, wt_attempt := 0\<rparr>)"
| message: "wt_phase s = Streaming \<Longrightarrow> ws_step W s (Message slot m) (ws_message W s (slot, m))"
| stream_ends: "wt_phase s = Streaming \<Longrightarrow> ws_step W s StreamEnds (ws_backoff W s)"
| unsub: "wt_phase s = Streaming \<Longrightarrow> is_some \<or> wc_closed_ends W \<Longrightarrow>
    ws_step W s (Unsub is_some) (s\<lparr>wt_phase := Ended None\<rparr>)"
| unsub_closed: "wt_phase s = Streaming \<Longrightarrow> \<not> is_some \<Longrightarrow> \<not> wc_closed_ends W \<Longrightarrow>
    ws_step W s (Unsub is_some) s"
| sleep_done: "wt_phase s = Sleeping d \<Longrightarrow>
    ws_step W s SleepDone (s\<lparr>wt_phase := Connecting, wt_attempt := wt_attempt s + 1\<rparr>)"

code_pred (modes: i \<Rightarrow> i \<Rightarrow> i \<Rightarrow> o \<Rightarrow> bool as ws_step_fun) ws_step .

inductive_cases ws_subscribe_failsE: "ws_step W s SubscribeFails s'"
inductive_cases ws_subscribe_okE: "ws_step W s SubscribeOk s'"
inductive_simps ws_ended_step: "ws_step W (s\<lparr>wt_phase := Ended r\<rparr>) i s'"

inductive ws_run :: "('m, 'd) ws_config \<Rightarrow> 'm ws_input list \<Rightarrow> 'd ws_task \<Rightarrow> bool" for W where
  start: "ws_run W [] ws_task_new"
| more: "ws_run W inputs s \<Longrightarrow> ws_step W s i s' \<Longrightarrow> ws_run W (inputs @ [i]) s'"

text \<open>The two tasks of the source.\<close>

definition account_ws :: "('m, 'm) ws_config" where
  "account_ws = \<lparr>wc_base_delay = 2, wc_decode = Some, wc_closed_ends = False\<rparr>"

definition program_ws :: "('m \<Rightarrow> 'd option) \<Rightarrow> ('m, 'd) ws_config" where
  "program_ws decode = \<lparr>wc_base_delay = 5, wc_decode = decode, wc_closed_ends = True\<rparr>"

section \<open>Filters\<close>

text \<open>\<open>Memcmp::new_raw_bytes\<close>: an offset and the bytes expected there.\<close>

record memcmp =
  mc_offset :: nat
  mc_bytes :: "u8 list"

record discriminators =
  disc_user :: "u8 list"
  disc_perp_market :: "u8 list"
  disc_spot_market :: "u8 list"

definition get_user_filter :: "discriminators \<Rightarrow> memcmp" where
  "get_user_filter D = \<lparr>mc_offset = 0, mc_bytes = disc_user D\<rparr>"

definition get_non_idle_user_filter :: memcmp where
  "get_non_idle_user_filter = \<lparr>mc_offset = 4350, mc_bytes = [0]\<rparr>"

definition get_user_with_auction_filter :: memcmp where
  "get_user_with_auction_filter = \<lparr>mc_offset = 4354, mc_bytes = [1]\<rparr>"

definition get_user_with_order_filter :: memcmp where
  "get_user_with_order_filter = \<lparr>mc_offset = 4352, mc_bytes = [1]\<rparr>"

definition get_market_filter :: "discriminators \<Rightarrow> market_type \<Rightarrow> memcmp" where
  "get_market_filter D market_type = (case market_type of
     market_type.Spot \<Rightarrow> \<lparr>mc_offset = 0, mc_bytes = disc_spot_market D\<rparr>
   | market_type.Perp \<Rightarrow> \<lparr>mc_offset = 0, mc_bytes = disc_perp_market D\<rparr>)"

section \<open>The subscribers\<close>

text \<open>
  The subscriber's own state: whether it thinks it is subscribed and holds the sender of the signal.
  Sending fails if the task has ended and dropped the receiver.
\<close>

record ws_subscriber =
  wss_subscription_name :: string
  wss_url :: string
  wss_subscribed :: bool
  wss_unsubscriber :: bool

definition ws_subscriber_new :: "string \<Rightarrow> string \<Rightarrow> ws_subscriber" where
  "ws_subscriber_new name url = \<lparr>wss_subscription_name = name, wss_url = url,
     wss_subscribed = False, wss_unsubscriber = False\<rparr>"

text \<open>The second component says whether a task was spawned.\<close>

definition ws_subscribe :: "ws_subscriber \<Rightarrow> ws_subscriber \<times> bool" where
  "ws_subscribe s =
     (if wss_subscribed s then (s, False)
      else (s\<lparr>wss_subscribed := True, wss_unsubscriber := True\<rparr>, True))"

definition ws_unsubscribe :: "bool \<Rightarrow> ws_subscriber \<Rightarrow> ws_subscriber \<times> sdk_error option" where
  "ws_unsubscribe task_alive s =
     (if wss_subscribed s \<and> wss_unsubscriber s then
        if \<not> task_alive then (s, Some CouldntUnsubscribe) else (s\<lparr>wss_subscribed := False\<rparr>, None)
      else (s, None))"

text \<open>
  The subscriber of program accounts also keeps the filters of its request; the commitment and the encoding,
  which it passes on unchanged, are left out. The second component is the filters the spawned task asks for.
\<close>

record program_subscriber =
  wps_subscription_name :: string
  wps_url :: string
  wps_filters :: "memcmp list"
  wps_subscribed :: bool
  wps_unsubscriber :: bool

definition program_subscriber_new :: "string \<Rightarrow> string \<Rightarrow> memcmp list \<Rightarrow> program_subscriber" where
  "program_subscriber_new subscription_name url filters = \<lparr>wps_subscription_name = subscription_name,
     wps_url = url, wps_filters = filters, wps_subscribed = False, wps_unsubscriber = False\<rparr>"

definition program_subscribe_ws :: "program_subscriber \<Rightarrow> program_subscriber \<times> memcmp list option" where
  "program_subscribe_ws s = (s\<lparr>wps_unsubscriber := True\<rparr>, Some (wps_filters s))"

definition program_subscribe :: "program_subscriber \<Rightarrow> program_subscriber \<times> memcmp list option" where
  "program_subscribe s =
     (if wps_subscribed s then (s, None) else program_subscribe_ws (s\<lparr>wps_subscribed := True\<rparr>))"

definition program_unsubscribe :: "bool \<Rightarrow> program_subscriber \<Rightarrow> program_subscriber \<times> sdk_error option" where
  "program_unsubscribe task_alive s =
     (if wps_subscribed s \<and> wps_unsubscriber s then
        if \<not> task_alive then (s, Some CouldntUnsubscribe) else (s\<lparr>wps_subscribed := False\<rparr>, None)
      else (s, None))"

text \<open>
  What both share: a subscription that is there is not made again, and a signal nobody receives is an error
  that leaves the subscriber subscribed.
\<close>

locale handle =
  fixes subscribed :: "'s \<Rightarrow> bool" and subscribe :: "'s \<Rightarrow> 's" and spawns :: "'s \<Rightarrow> bool"
    and unsubscribe :: "bool \<Rightarrow> 's \<Rightarrow> 's \<times> sdk_error option" and sender :: "'s \<Rightarrow> bool"
  assumes again: "subscribed s \<Longrightarrow> subscribe s = s \<and> \<not> spawns s"
    and first: "\<not> subscribed s \<Longrightarrow> subscribed (subscribe s) \<and> sender (subscribe s) \<and> spawns s"
    and unheard: "subscribed s \<Longrightarrow> sender s \<Longrightarrow> unsubscribe False s = (s, Some CouldntUnsubscribe)"
    and heard: "subscribed s \<Longrightarrow> sender s \<Longrightarrow> unsubscribe True s = (s', e) \<Longrightarrow> \<not> subscribed s' \<and> e = None"
begin

lemma stuck:
  assumes "spawns s"
  shows "subscribe (subscribe s) = subscribe s \<and> \<not> spawns (subscribe s) \<and>
    unsubscribe False (subscribe s) = (subscribe s, Some CouldntUnsubscribe)"
proof -
  have "subscribed (subscribe s)" "sender (subscribe s)" using assms again first by blast+
  then show ?thesis using again unheard by blast
qed

lemma released:
  assumes "spawns s"
  shows "\<exists>s'. unsubscribe True (subscribe s) = (s', None) \<and> spawns s'"
proof -
  have "subscribed (subscribe s)" "sender (subscribe s)" using assms again first by blast+
  moreover obtain s' e where u: "unsubscribe True (subscribe s) = (s', e)" by (rule prod.exhaust)
  ultimately have "\<not> subscribed s'" "e = None" using heard by blast+
  with u first show ?thesis by blast
qed

end

interpretation account_handle: handle wss_subscribed "\<lambda>s. fst (ws_subscribe s)" "\<lambda>s. snd (ws_subscribe s)"
    ws_unsubscribe wss_unsubscriber
  by unfold_locales (auto simp: ws_subscribe_def ws_unsubscribe_def)

interpretation program_handle: handle wps_subscribed "\<lambda>s. fst (program_subscribe s)"
    "\<lambda>s. snd (program_subscribe s) \<noteq> None" program_unsubscribe wps_unsubscriber
  by unfold_locales (auto simp: program_subscribe_def program_subscribe_ws_def program_unsubscribe_def)

section \<open>The auction subscriber\<close>

record auction_subscriber =
  as_subscriber :: program_subscriber

definition auction_subscriber_new :: "discriminators \<Rightarrow> string \<Rightarrow> auction_subscriber" where
  "auction_subscriber_new D url = \<lparr>as_subscriber = program_subscriber_new ''auction'' url
     [get_user_filter D, get_user_with_auction_filter]\<rparr>"

definition auction_subscribe :: "auction_subscriber \<Rightarrow> auction_subscriber \<times> memcmp list option" where
  "auction_subscribe a =
     (if wps_subscribed (as_subscriber a) then (a, None)
      else let (s, spawned) = program_subscribe (as_subscriber a) in (a\<lparr>as_subscriber := s\<rparr>, spawned))"

definition auction_unsubscribe :: "bool \<Rightarrow> auction_subscriber \<Rightarrow> auction_subscriber \<times> sdk_error option" where
  "auction_unsubscribe task_alive a =
     (let (s, e) = program_unsubscribe task_alive (as_subscriber a) in (a\<lparr>as_subscriber := s\<rparr>, e))"

section \<open>Emitted slots\<close>

interpretation ws_gate: slot_gate fst "\<lambda>(slot, m). wc_decode W m \<noteq> None" wt_latest_slot
    "\<lambda>s. map fst (wt_emitted s)" "ws_message W" for W
  by unfold_locales (auto simp: ws_message_def split: option.splits)

lemma ws_message_fields [simp]:
  "wt_phase (ws_message W s m) = wt_phase s" "wt_attempt (ws_message W s m) = wt_attempt s"
  by (simp_all add: ws_message_def Let_def split: prod.split option.split)

lemma ws_backoff_fields [simp]:
  "wt_emitted (ws_backoff W s) = wt_emitted s" "wt_latest_slot (ws_backoff W s) = wt_latest_slot s"
  by (simp_all add: ws_backoff_def)

definition emits_in_order :: "'d ws_task \<Rightarrow> bool" where
  "emits_in_order s \<longleftrightarrow> sorted (map fst (wt_emitted s)) \<and>
     (\<forall>x\<in>set (map fst (wt_emitted s)). x \<le> wt_latest_slot s)"

lemma step_in_order: "ws_step W s i s' \<Longrightarrow> emits_in_order s \<Longrightarrow> emits_in_order s'"
proof (induction rule: ws_step.induct)
  case (message s slot m)
  then show ?case
    using ws_gate.emitted_sorted [of s W "[(slot, m)]"] by (simp add: emits_in_order_def)
qed (simp_all add: emits_in_order_def Let_def)

lemma run_in_order: "ws_run W inputs s \<Longrightarrow> emits_in_order s"
proof (induction rule: ws_run.induct)
  case start
  show ?case by (simp add: ws_task_new_def emits_in_order_def)
next
  case (more inputs s i s')
  then show ?case by (blast intro: step_in_order)
qed

section \<open>Reconnecting\<close>

text \<open>Failed subscriptions since the last one that succeeded, and whether one ever did.\<close>

definition connected :: "'m ws_input list \<Rightarrow> bool" where
  "connected inputs \<longleftrightarrow> SubscribeOk \<in> set inputs"

definition failures :: "'m ws_input list \<Rightarrow> nat" where
  "failures inputs = length (filter (\<lambda>i. i = SubscribeFails) (takeWhile (\<lambda>i. i \<noteq> SubscribeOk) (rev inputs)))"

definition failure_limit :: "'m ws_input list \<Rightarrow> nat" where
  "failure_limit inputs = (if connected inputs then 10 else 11)"

lemma input_snoc [simp]:
  "connected (inputs @ [i]) \<longleftrightarrow> connected inputs \<or> i = SubscribeOk"
  "failures (inputs @ [i]) = (if i = SubscribeOk then 0
     else failures inputs + (if i = SubscribeFails then 1 else 0))"
  by (auto simp: connected_def failures_def)

text \<open>
  Every failed subscription counts twice, once where it is noticed and once after the sleep, so the
  counter reaches twenty after ten or eleven failures.
\<close>

definition attempts_ok :: "'m ws_input list \<Rightarrow> 'd ws_task \<Rightarrow> bool" where
  "attempts_ok inputs s =
     (let f = failures inputs; c = (if connected inputs then 1 else 0); a = unat (wt_attempt s) in
      case wt_phase s of
        Connecting \<Rightarrow> a = 2 * f + c \<and> f < failure_limit inputs
      | Streaming \<Rightarrow> a = 0 \<and> f = 0 \<and> connected inputs
      | Sleeping d \<Rightarrow> a < 20 \<and> a + 1 = 2 * f + c \<and> f < failure_limit inputs
      | Ended r \<Rightarrow> (if r = Some MaxReconnectionAttemptsReached then f = failure_limit inputs
          else f < failure_limit inputs))"

lemma unat_suc: "unat (w :: u32) < 100 \<Longrightarrow> unat (w + 1) = Suc (unat w)"
  by (simp add: unat_plus_if_size word_size unat_word_ariths)

lemma attempts_step:
  assumes "ws_step W s i s'" and "attempts_ok inputs s"
  shows "attempts_ok (inputs @ [i]) s'"
  using assms
proof (cases rule: ws_step.cases)
  case subscribe_fails
  then have a: "unat (wt_attempt s) = 2 * failures inputs + (if connected inputs then 1 else 0)"
    "failures inputs < failure_limit inputs"
    using assms(2) by (simp_all add: attempts_ok_def Let_def)
  then have "unat (wt_attempt s + 1) = Suc (unat (wt_attempt s))"
    by (intro unat_suc) (auto simp: failure_limit_def split: if_splits)
  then show ?thesis
    using subscribe_fails a
    by (auto simp: attempts_ok_def Let_def ws_backoff_def failure_limit_def max_reconnection_attempts_def
        word_le_nat_alt split: if_splits)
next
  case (sleep_done d)
  then have "unat (wt_attempt s) < 20" using assms(2) by (simp add: attempts_ok_def Let_def)
  then have "unat (wt_attempt s + 1) = Suc (unat (wt_attempt s))" by (intro unat_suc) simp
  then show ?thesis using sleep_done assms(2) by (simp add: attempts_ok_def Let_def failure_limit_def)
next
  case stream_ends
  then show ?thesis using assms(2)
    by (auto simp: attempts_ok_def Let_def ws_backoff_def failure_limit_def max_reconnection_attempts_def
        word_le_nat_alt)
qed (use assms(2) in \<open>auto simp: attempts_ok_def Let_def failure_limit_def split: if_splits\<close>)

lemma attempts_run: "ws_run W inputs s \<Longrightarrow> attempts_ok inputs s"
proof (induction rule: ws_run.induct)
  case start
  show ?case by (simp add: ws_task_new_def attempts_ok_def failures_def failure_limit_def connected_def)
next
  case (more inputs s i s')
  then show ?case by (blast intro: attempts_step)
qed

section \<open>Properties\<close>

text \<open>
  C17. Whatever happens on the connection, a websocket task passes updates on in the order of their
  slots, and none is newer than the newest slot it has seen.
\<close>

theorem ws_updates_in_slot_order:
  assumes "ws_run W inputs s"
  shows "sorted (map fst (wt_emitted s)) \<and> (\<forall>u\<in>set (wt_emitted s). fst u \<le> wt_latest_slot s)"
  using run_in_order [OF assms] by (simp add: emits_in_order_def)

text \<open>
  C18. A websocket task gives up after exactly eleven failed subscriptions, or ten in a row once one had
  succeeded, and not after the twenty the limit says: a failure is counted twice.
\<close>

theorem ws_reconnect_limit:
  assumes "ws_run W inputs s"
  shows "failures inputs \<le> (if connected inputs then 10 else 11) \<and>
    (wt_phase s = Ended (Some MaxReconnectionAttemptsReached) \<longleftrightarrow>
     failures inputs = (if connected inputs then 10 else 11))"
  using attempts_run [OF assms]
  by (auto simp: attempts_ok_def failure_limit_def Let_def split: ws_phase.splits if_splits)

text \<open>
  Once its task has ended by itself a subscriber is stuck: it still counts as subscribed, so
  subscribing again spawns no task, and unsubscribing fails and changes nothing.
\<close>

theorem ws_subscriber_stuck:
  assumes "ws_subscribe s = (s', True)"
  shows "ws_subscribe s' = (s', False) \<and> ws_unsubscribe False s' = (s', Some CouldntUnsubscribe)"
  using assms account_handle.stuck [of s] by (cases "ws_subscribe s'") auto

theorem ws_updates_in_slot_order_witness:
  "\<exists>s. ws_run account_ws [SubscribeOk, Message 5 ''a'', Message 3 ''b'', Message 5 ''c''] s \<and>
     wt_emitted s = [(5, ''a''), (5, ''c'')] \<and> sorted (map fst (wt_emitted s))"
proof -
  let ?s = "ws_task_new\<lparr>wt_phase := Streaming, wt_attempt := 0\<rparr>"
  have "ws_run account_ws ([] @ [SubscribeOk]) ?s"
    by (rule ws_run.more [OF ws_run.start ws_step.subscribe_ok]) (simp add: ws_task_new_def)
  from ws_run.more [OF ws_run.more [OF ws_run.more [OF this ws_step.message] ws_step.message] ws_step.message]
  have run: "ws_run account_ws [SubscribeOk, Message 5 ''a'', Message 3 ''b'', Message 5 ''c'']
      (ws_message account_ws (ws_message account_ws (ws_message account_ws ?s (5, ''a'')) (3, ''b'')) (5, ''c''))"
    by simp
  from ws_updates_in_slot_order [OF run] run show ?thesis
    by (intro exI conjI) (assumption, simp_all add: ws_message_def account_ws_def ws_task_new_def Let_def)
qed

theorem ws_reconnect_limit_witness:
  "\<exists>s. ws_run account_ws [SubscribeFails] (s :: string ws_task) \<and> wt_phase s = Sleeping 4 \<and>
     wt_phase s \<noteq> Ended (Some MaxReconnectionAttemptsReached)"
proof -
  let ?s = "(let s = (ws_task_new :: string ws_task)\<lparr>wt_attempt := wt_attempt (ws_task_new :: string ws_task) + 1\<rparr> in
       if max_reconnection_attempts \<le> wt_attempt s
       then s\<lparr>wt_phase := Ended (Some MaxReconnectionAttemptsReached)\<rparr>
       else ws_backoff account_ws s)"
  have "ws_run account_ws ([] @ [SubscribeFails]) ?s"
    by (rule ws_run.more [OF ws_run.start ws_step.subscribe_fails]) (simp add: ws_task_new_def)
  then have run: "ws_run account_ws [SubscribeFails] ?s" by simp
  moreover have "wt_phase ?s = Sleeping 4"
    by (simp add: ws_task_new_def ws_backoff_def account_ws_def max_reconnection_attempts_def Let_def
        word_le_nat_alt)
  moreover have "wt_phase ?s \<noteq> Ended (Some MaxReconnectionAttemptsReached)"
    using ws_reconnect_limit [OF run] by (simp add: failures_def connected_def)
  ultimately show ?thesis by blast
qed

theorem ws_subscriber_stuck_witness:
  "ws_unsubscribe False (fst (ws_subscribe (ws_subscriber_new ''slot'' ''ws://x''))) =
     (fst (ws_subscribe (ws_subscriber_new ''slot'' ''ws://x'')), Some CouldntUnsubscribe)"
  using ws_subscriber_stuck [of "ws_subscriber_new ''slot'' ''ws://x''" "fst (ws_subscribe (ws_subscriber_new ''slot'' ''ws://x''))"]
  by (simp add: ws_subscribe_def ws_subscriber_new_def)

end
