(* ===== verification/Live_Maps.thy ===== *)
theory Live_Maps
  imports Websocket Program_Data
begin

text \<open>
  The maps kept up to date from the network: \<open>src/src/marketmap.rs\<close> and \<open>src/src/usermap.rs\<close> with
  \<open>src/src/order_subscriber.rs\<close>.

  A concurrent map is an association list. What an RPC request answers is an argument of the method
  that sends it. A method that fails after it has changed the map returns the changed map and the
  error.

  Two contracts are shared: \<open>value_store\<close>, a map that holds the last accepted value of every key,
  and \<open>update_store\<close>, which also counts the newest slot. The oracle map has its own theory.
\<close>

section \<open>Contracts\<close>

locale value_store =
  fixes key_of :: "'m \<Rightarrow> 'k" and value_of :: "'m \<Rightarrow> 'v option"
    and lookup :: "'s \<Rightarrow> 'k \<Rightarrow> 'v option" and update :: "'s \<Rightarrow> 'm \<Rightarrow> 's"
  assumes lookup_update: "lookup (update s m) k =
      (if key_of m = k \<and> value_of m \<noteq> None then value_of m else lookup s k)"
begin

lemma lookup_run:
  "lookup (foldl update s ms) k =
     (case filter (\<lambda>m. key_of m = k \<and> value_of m \<noteq> None) (rev ms) of
        [] \<Rightarrow> lookup s k | m # _ \<Rightarrow> value_of m)"
  by (induction ms rule: rev_induct) (auto simp: lookup_update)

lemma lookup_unchanged: "\<forall>m\<in>set ms. key_of m \<noteq> k \<Longrightarrow> lookup (foldl update s ms) k = lookup s k"
  by (induction ms arbitrary: s) (simp_all add: lookup_update)

end

locale update_store = value_store key_of value_of lookup update
  for key_of :: "'m \<Rightarrow> 'k" and value_of :: "'m \<Rightarrow> 'v option"
    and lookup :: "'s \<Rightarrow> 'k \<Rightarrow> 'v option" and update :: "'s \<Rightarrow> 'm \<Rightarrow> 's" +
  fixes slot_of :: "'m \<Rightarrow> u64" and latest :: "'s \<Rightarrow> u64"
  assumes latest_update: "latest (update s m) = max (slot_of m) (latest s)"
begin

lemma latest_run: "latest (foldl update s ms) = fold max (map slot_of ms) (latest s)"
  by (induction ms arbitrary: s) (simp_all add: latest_update)

end

text \<open>The last of several updates in the order of their slots is the newest.\<close>

lemma filter_rev_newest:
  assumes "sorted (map fst xs)" and "filter P (rev xs) = x # rest"
  shows "x \<in> set xs \<and> P x \<and> (\<forall>y\<in>set xs. P y \<longrightarrow> fst y \<le> fst x)"
proof -
  have f: "filter P xs = rev rest @ [x]"
    using assms(2) by (metis rev_filter rev.simps(2) rev_rev_ident)
  have "sorted (map fst (filter P xs))" by (rule sorted_filter [OF assms(1)])
  with f have "\<forall>y\<in>set (filter P xs). fst y \<le> fst x" "x \<in> set (filter P xs)"
    by (auto simp: sorted_append)
  then show ?thesis by auto
qed

section \<open>The market map\<close>

text \<open>The trait \<open>Market\<close> and its two implementations.\<close>

record 'm market_kind =
  mt_MARKET_TYPE :: market_type
  mt_market_index :: "'m \<Rightarrow> u16"
  mt_oracle_info :: "'m \<Rightarrow> u16 \<times> pubkey \<times> oracle_source"

definition perp_market_kind :: "perp_market market_kind" where
  "perp_market_kind = \<lparr>mt_MARKET_TYPE = market_type.Perp, mt_market_index = pm_market_index,
     mt_oracle_info = (\<lambda>m. (pm_market_index m, pm_amm_oracle m, pm_amm_oracle_source m))\<rparr>"

definition spot_market_kind :: "spot_market market_kind" where
  "spot_market_kind = \<lparr>mt_MARKET_TYPE = market_type.Spot, mt_market_index = sm_market_index,
     mt_oracle_info = (\<lambda>m. (sm_market_index m, sm_oracle m, sm_oracle_source m))\<rparr>"

record 'm market_map =
  mm_subscribed :: bool
  mm_subscription :: program_subscriber
  mm_marketmap :: "(u16 \<times> 'm data_and_slot) list"
  mm_sync_lock :: bool
  mm_latest_slot :: u64
  mm_synced :: bool

definition market_map_new ::
  "'m market_kind \<Rightarrow> discriminators \<Rightarrow> (string \<Rightarrow> string option) \<Rightarrow> string \<Rightarrow> bool \<Rightarrow> 'm market_map res" where
  "market_map_new K D ws_url endpoint sync =
     bindE (of_opt (Panic ''called `Result::unwrap()` on an `Err` value'') (ws_url endpoint)) (\<lambda>url.
     Inr \<lparr>mm_subscribed = False,
       mm_subscription = program_subscriber_new ''marketmap'' url [get_market_filter D (mt_MARKET_TYPE K)],
       mm_marketmap = [], mm_sync_lock = sync,
       mm_latest_slot = 0, mm_synced = False\<rparr>)"

text \<open>The accounts of a response: \<open>None\<close> stands for a response without context, which is ignored.\<close>

type_synonym 'a response = "(u64 \<times> 'a list) option"

fun market_sync_accounts :: "'m market_kind \<Rightarrow> ('a \<Rightarrow> sdk_error + 'm) \<Rightarrow> u64 \<Rightarrow> 'a list \<Rightarrow> 'm market_map \<Rightarrow>
    'm market_map \<times> sdk_error option" where
  "market_sync_accounts K decode slot [] s = (s\<lparr>mm_latest_slot := slot\<rparr>, None)"
| "market_sync_accounts K decode slot (account # accounts) s =
     (case decode account of
        Inl e \<Rightarrow> (s, Some e)
      | Inr data \<Rightarrow> market_sync_accounts K decode slot accounts
          (s\<lparr>mm_marketmap := AList.update (mt_market_index K data) \<lparr>das_slot = slot, das_data = data\<rparr>
            (mm_marketmap s)\<rparr>))"

definition market_map_sync :: "'m market_kind \<Rightarrow> ('a \<Rightarrow> sdk_error + 'm) \<Rightarrow> bool \<Rightarrow>
    sdk_error + 'a response \<Rightarrow> 'm market_map \<Rightarrow> ('m market_map \<times> sdk_error option) res" where
  "market_map_sync K decode locked response s =
     (if mm_synced s then Inr (s, None)
      else
        bindE (guardE (mm_sync_lock s) (Panic ''expected sync lock'')) (\<lambda>_.
        if locked then Inr (s, None)
        else Inr (case response of
            Inl e \<Rightarrow> (s, Some e)
          | Inr None \<Rightarrow> (s, None)
          | Inr (Some (slot, accounts)) \<Rightarrow> market_sync_accounts K decode slot accounts s)))"

text \<open>The handler of an account update.\<close>

definition market_update :: "'m market_kind \<Rightarrow> 'm market_map \<Rightarrow> 'm data_and_slot \<Rightarrow> 'm market_map" where
  "market_update K s update =
     (let s = (if mm_latest_slot s < das_slot update then s\<lparr>mm_latest_slot := das_slot update\<rparr> else s) in
      s\<lparr>mm_marketmap := AList.update (mt_market_index K (das_data update))
        \<lparr>das_slot = das_slot update, das_data = das_data update\<rparr> (mm_marketmap s)\<rparr>)"

definition market_map_subscribe :: "'m market_kind \<Rightarrow> ('a \<Rightarrow> sdk_error + 'm) \<Rightarrow> bool \<Rightarrow>
    sdk_error + 'a response \<Rightarrow> 'm market_map \<Rightarrow> ('m market_map \<times> sdk_error option) res" where
  "market_map_subscribe K decode locked response s =
     bindE (if mm_sync_lock s then market_map_sync K decode locked response s else Inr (s, None)) (\<lambda>(s, e).
     case e of
       Some e \<Rightarrow> Inr (s, Some e)
     | None \<Rightarrow>
         if mm_subscribed s then Inr (s, None)
         else Inr (s\<lparr>mm_subscription := fst (program_subscribe (mm_subscription s)), mm_subscribed := True\<rparr>, None))"

definition market_map_unsubscribe :: "bool \<Rightarrow> 'm market_map \<Rightarrow> 'm market_map \<times> sdk_error option" where
  "market_map_unsubscribe task_alive s =
     (if mm_subscribed s then
        case program_unsubscribe task_alive (mm_subscription s) of
          (w, Some e) \<Rightarrow> (s\<lparr>mm_subscription := w\<rparr>, Some e)
        | (w, None) \<Rightarrow> (s\<lparr>mm_subscription := w, mm_subscribed := False, mm_marketmap := [],
            mm_latest_slot := 0\<rparr>, None)
      else (s, None))"

definition market_map_values :: "'m market_map \<Rightarrow> 'm list" where
  "market_map_values s = map (\<lambda>(_, x). das_data x) (mm_marketmap s)"

definition market_map_oracles :: "'m market_kind \<Rightarrow> 'm market_map \<Rightarrow> (u16 \<times> pubkey \<times> oracle_source) list" where
  "market_map_oracles K s = map (mt_oracle_info K) (market_map_values s)"

definition market_map_size :: "'m market_map \<Rightarrow> nat" where
  "market_map_size s = length (mm_marketmap s)"

definition market_map_contains :: "'m market_map \<Rightarrow> u16 \<Rightarrow> bool" where
  "market_map_contains s market_index \<longleftrightarrow> map_of (mm_marketmap s) market_index \<noteq> None"

definition market_map_get :: "'m market_map \<Rightarrow> u16 \<Rightarrow> 'm data_and_slot option" where
  "market_map_get s market_index = map_of (mm_marketmap s) market_index"

definition market_map_latest_slot :: "'m market_map \<Rightarrow> u64" where
  "market_map_latest_slot s = mm_latest_slot s"

interpretation market_store: update_store "\<lambda>u. mt_market_index K (das_data u)"
    "\<lambda>u. Some \<lparr>das_slot = das_slot u, das_data = das_data u\<rparr>" market_map_get "market_update K"
    das_slot market_map_latest_slot for K
  by unfold_locales (auto simp: market_update_def market_map_get_def market_map_latest_slot_def Let_def
      update_conv' max_def)

section \<open>The user map\<close>

text \<open>A callback is told of every update; the calls made are recorded in \<open>um_calls\<close>.\<close>

record user_account_update =
  uu_pubkey :: string
  uu_data_and_slot :: "user data_and_slot"

record user_map =
  um_subscribed :: bool
  um_subscription :: program_subscriber
  um_usermap :: "(string \<times> user) list"
  um_sync_lock :: bool
  um_latest_slot :: u64
  um_callback :: bool
  um_calls :: "user_account_update list"

definition user_map_new :: "discriminators \<Rightarrow> (string \<Rightarrow> string option) \<Rightarrow> string \<Rightarrow> bool \<Rightarrow>
    memcmp list option \<Rightarrow> bool \<Rightarrow> user_map res" where
  "user_map_new D ws_url endpoint sync additional_filters callback =
     bindE (of_opt (Panic ''called `Result::unwrap()` on an `Err` value'') (ws_url endpoint)) (\<lambda>url.
     Inr \<lparr>um_subscribed = False,
       um_subscription = program_subscriber_new ''usermap'' url
         ([get_user_filter D, get_non_idle_user_filter] @ (case additional_filters of None \<Rightarrow> [] | Some fs \<Rightarrow> fs)),
       um_usermap = [], um_sync_lock = sync, um_latest_slot = 0, um_callback = callback, um_calls = []\<rparr>)"

definition notify :: "user_account_update \<Rightarrow> user_map \<Rightarrow> user_map" where
  "notify update s = (if um_callback s then s\<lparr>um_calls := um_calls s @ [update]\<rparr> else s)"

definition user_update :: "user_map \<Rightarrow> user_account_update \<Rightarrow> user_map" where
  "user_update s update =
     (let slot = das_slot (uu_data_and_slot update);
          s = (if um_latest_slot s < slot then s\<lparr>um_latest_slot := slot\<rparr> else s);
          s = s\<lparr>um_usermap := AList.update (uu_pubkey update) (das_data (uu_data_and_slot update))
            (um_usermap s)\<rparr> in
      notify update s)"

fun user_sync_accounts :: "('a \<Rightarrow> sdk_error + user) \<Rightarrow> u64 \<Rightarrow> (string \<times> 'a) list \<Rightarrow> user_map \<Rightarrow>
    user_map \<times> sdk_error option" where
  "user_sync_accounts decode slot [] s = (s\<lparr>um_latest_slot := slot\<rparr>, None)"
| "user_sync_accounts decode slot ((pubkey, account) # accounts) s =
     (case decode account of
        Inl e \<Rightarrow> (s, Some e)
      | Inr data \<Rightarrow> user_sync_accounts decode slot accounts
          (notify \<lparr>uu_pubkey = pubkey, uu_data_and_slot = \<lparr>das_slot = slot, das_data = data\<rparr>\<rparr>
            (s\<lparr>um_usermap := AList.update pubkey data (um_usermap s)\<rparr>)))"

definition user_map_sync :: "('a \<Rightarrow> sdk_error + user) \<Rightarrow> bool \<Rightarrow> sdk_error + (string \<times> 'a) response \<Rightarrow>
    user_map \<Rightarrow> (user_map \<times> sdk_error option) res" where
  "user_map_sync decode locked response s =
     bindE (guardE (um_sync_lock s) (Panic ''expected sync lock'')) (\<lambda>_.
     if locked then Inr (s, None)
     else Inr (case response of
         Inl e \<Rightarrow> (s, Some e)
       | Inr None \<Rightarrow> (s, None)
       | Inr (Some (slot, accounts)) \<Rightarrow> user_sync_accounts decode slot accounts s))"

definition user_map_subscribe :: "('a \<Rightarrow> sdk_error + user) \<Rightarrow> bool \<Rightarrow> sdk_error + (string \<times> 'a) response \<Rightarrow>
    user_map \<Rightarrow> (user_map \<times> sdk_error option) res" where
  "user_map_subscribe decode locked response s =
     bindE (if um_sync_lock s then user_map_sync decode locked response s else Inr (s, None)) (\<lambda>(s, e).
     case e of
       Some e \<Rightarrow> Inr (s, Some e)
     | None \<Rightarrow>
         if um_subscribed s then Inr (s, None)
         else Inr (s\<lparr>um_subscription := fst (program_subscribe (um_subscription s)), um_subscribed := True\<rparr>, None))"

definition user_map_unsubscribe :: "bool \<Rightarrow> user_map \<Rightarrow> user_map \<times> sdk_error option" where
  "user_map_unsubscribe task_alive s =
     (if um_subscribed s then
        case program_unsubscribe task_alive (um_subscription s) of
          (w, Some e) \<Rightarrow> (s\<lparr>um_subscription := w\<rparr>, Some e)
        | (w, None) \<Rightarrow> (s\<lparr>um_subscription := w, um_subscribed := False, um_usermap := [],
            um_latest_slot := 0\<rparr>, None)
      else (s, None))"

definition user_map_size :: "user_map \<Rightarrow> nat" where
  "user_map_size s = length (um_usermap s)"

definition user_map_contains :: "user_map \<Rightarrow> string \<Rightarrow> bool" where
  "user_map_contains s pubkey \<longleftrightarrow> map_of (um_usermap s) pubkey \<noteq> None"

definition user_map_get :: "user_map \<Rightarrow> string \<Rightarrow> user option" where
  "user_map_get s pubkey = map_of (um_usermap s) pubkey"

text \<open>
  A user the map does not have is fetched; \<open>fetched\<close> is what the node answers for the key. The map is not
  locked while the request is under way, so what is done with the answer is an operation of its own.
\<close>

definition user_map_fetched :: "('a \<Rightarrow> user option) \<Rightarrow> string \<Rightarrow> sdk_error + 'a \<Rightarrow> user_map \<Rightarrow>
    (user_map \<times> (sdk_error + user)) res" where
  "user_map_fetched try_deserialize pubkey answer s =
     (case answer of
        Inl e \<Rightarrow> Inr (s, Inl e)
      | Inr user_data \<Rightarrow>
          bindE (of_opt (Panic ''called `Result::unwrap()` on an `Err` value'')
            (try_deserialize user_data)) (\<lambda>user.
          let s = s\<lparr>um_usermap := AList.update pubkey user (um_usermap s)\<rparr>;
              s = notify \<lparr>uu_pubkey = pubkey,
                uu_data_and_slot = \<lparr>das_slot = um_latest_slot s, das_data = user\<rparr>\<rparr> s in
          bindE (of_opt (Panic ''called `Option::unwrap()` on a `None` value'') (user_map_get s pubkey))
            (\<lambda>user. Inr (s, Inr user))))"

definition user_map_must_get :: "(string \<Rightarrow> pubkey option) \<Rightarrow> (pubkey \<Rightarrow> sdk_error + 'a) \<Rightarrow>
    ('a \<Rightarrow> user option) \<Rightarrow> string \<Rightarrow> user_map \<Rightarrow> (user_map \<times> (sdk_error + user)) res" where
  "user_map_must_get from_str fetched try_deserialize pubkey s =
     (case user_map_get s pubkey of
        Some user \<Rightarrow> Inr (s, Inr user)
      | None \<Rightarrow>
          bindE (of_opt (Panic ''called `Result::unwrap()` on an `Err` value'') (from_str pubkey)) (\<lambda>k.
          user_map_fetched try_deserialize pubkey (fetched k) s))"

definition user_map_latest_slot :: "user_map \<Rightarrow> u64" where
  "user_map_latest_slot s = um_latest_slot s"

interpretation user_store: update_store uu_pubkey "\<lambda>u. Some (das_data (uu_data_and_slot u))" user_map_get
    user_update "\<lambda>u. das_slot (uu_data_and_slot u)" user_map_latest_slot
  by unfold_locales (auto simp: user_update_def notify_def user_map_get_def user_map_latest_slot_def Let_def
      update_conv' max_def)

section \<open>The order subscriber\<close>

record order_subscriber =
  os_subscriber :: user_map

definition order_subscriber_new ::
  "discriminators \<Rightarrow> (string \<Rightarrow> string option) \<Rightarrow> string \<Rightarrow> order_subscriber res" where
  "order_subscriber_new D ws_url url =
     bindE (user_map_new D ws_url url True (Some [get_user_with_order_filter]) True) (\<lambda>m.
     Inr \<lparr>os_subscriber = m\<rparr>)"

definition order_subscribe :: "('a \<Rightarrow> sdk_error + user) \<Rightarrow> bool \<Rightarrow> sdk_error + (string \<times> 'a) response \<Rightarrow>
    order_subscriber \<Rightarrow> (order_subscriber \<times> sdk_error option) res" where
  "order_subscribe decode locked response s =
     (if um_subscribed (os_subscriber s) then Inr (s, None)
      else bindE (user_map_subscribe decode locked response (os_subscriber s)) (\<lambda>(m, e).
        Inr (s\<lparr>os_subscriber := m\<rparr>, e)))"

definition order_unsubscribe :: "bool \<Rightarrow> order_subscriber \<Rightarrow> order_subscriber \<times> sdk_error option" where
  "order_unsubscribe task_alive s =
     (let (m, e) = user_map_unsubscribe task_alive (os_subscriber s) in (s\<lparr>os_subscriber := m\<rparr>, e))"

text \<open>The events the subscriber passes on are the calls of its map's callback.\<close>

definition order_events :: "order_subscriber \<Rightarrow> user_account_update list" where
  "order_events s = um_calls (os_subscriber s)"

section \<open>Properties\<close>

text \<open>
  After any sequence of account updates the market map holds for every market the last update that
  arrived for it, even if that update's slot is older than one the map held before, while the
  latest slot is the largest of all: the handler does not compare slots.
\<close>

theorem market_map_last_update:
  shows "market_map_get (foldl (market_update K) s us) i =
     (case filter (\<lambda>u. mt_market_index K (das_data u) = i) (rev us) of
        [] \<Rightarrow> market_map_get s i | u # _ \<Rightarrow> Some u) \<and>
    market_map_latest_slot (foldl (market_update K) s us) = fold max (map das_slot us) (market_map_latest_slot s)"
  using market_store.lookup_run [of K s us i] market_store.latest_run [of K s us]
  by (simp split: list.splits)

text \<open>
  Of every account a user map has been told about it holds the data of the last update, and a
  callback has been called with every update, in order.
\<close>

theorem user_map_last_update:
  assumes "um_callback s"
  shows "user_map_get (foldl user_update s us) k =
     (case filter (\<lambda>u. uu_pubkey u = k) (rev us) of
        [] \<Rightarrow> user_map_get s k | u # _ \<Rightarrow> Some (das_data (uu_data_and_slot u))) \<and>
    um_calls (foldl user_update s us) = um_calls s @ us"
proof -
  have "um_calls (foldl user_update s us) = um_calls s @ us \<and> um_callback (foldl user_update s us)"
    using assms by (induction us arbitrary: s) (simp_all add: user_update_def notify_def Let_def)
  then show ?thesis using user_store.lookup_run [of s us k] by simp
qed

theorem user_map_last_update_witness:
  "user_map_get (foldl user_update
      \<lparr>um_subscribed = True, um_subscription = program_subscriber_new ''usermap'' ''ws://x'' [],
       um_usermap = [], um_sync_lock = False, um_latest_slot = 0, um_callback = True, um_calls = []\<rparr>
      [\<lparr>uu_pubkey = ''k'', uu_data_and_slot = \<lparr>das_slot = 3, das_data = sample_user\<rparr>\<rparr>]) ''k'' = Some sample_user"
  using user_map_last_update [of "\<lparr>um_subscribed = True, um_subscription = program_subscriber_new ''usermap'' ''ws://x'' [],
       um_usermap = [], um_sync_lock = False, um_latest_slot = 0, um_callback = True, um_calls = []\<rparr>"
      "[\<lparr>uu_pubkey = ''k'', uu_data_and_slot = \<lparr>das_slot = 3, das_data = sample_user\<rparr>\<rparr>]" "''k''"]
  by simp

end
