(* ===== verification/Oracle_Map.thy ===== *)
theory Oracle_Map
  imports Live_Maps
begin

text \<open>
  \<open>src/src/oraclemap.rs\<close>. The handler of account updates keeps the copy of the oracle sources made
  when it was registered; a handler is never removed. Updates reach every handler that was
  registered, in any order: they all write the same entry.
\<close>

section \<open>Oracles\<close>

record live_oracle =
  or_pubkey :: pubkey
  or_data :: oracle_price_data
  or_source :: oracle_source
  or_slot :: u64
  or_raw :: "u8 list"

text \<open>
  An account of an update: its data is \<open>Some\<close> text if it is base64 encoded binary data. Parsing keys,
  decoding base64 and reading the price are functions of other crates.
\<close>

record ui_account =
  ua_base64 :: "string option"
  ua_owner :: string
  ua_lamports :: u64
  ua_rent_epoch :: u64

record account_update =
  au_pubkey :: string
  au_data :: ui_account
  au_slot :: u64

record rpc_account =
  ra_data :: "u8 list"
  ra_owner :: pubkey
  ra_lamports :: u64
  ra_rent_epoch :: u64

record oracle_env =
  parse_pubkey :: "string \<Rightarrow> pubkey option"
  base64_decode :: "string \<Rightarrow> u8 list option"
  get_oracle_price :: "oracle_source \<Rightarrow> pubkey \<Rightarrow> rpc_account \<Rightarrow> u64 \<Rightarrow> ext_error + oracle_price_data"

record oracle_map =
  om_subscribed :: bool
  om_oraclemap :: "(pubkey \<times> live_oracle) list"
  om_oracle_infos :: "(pubkey \<times> oracle_source) list"
  om_sync_lock :: bool
  om_latest_slot :: u64
  om_oracle_subscribers :: "(pubkey \<times> ws_subscriber) list"
  om_perp_oracles :: "(u16 \<times> pubkey) list"
  om_spot_oracles :: "(u16 \<times> pubkey) list"
  om_handlers :: "(pubkey \<times> oracle_source) list list"
  om_tasks :: "pubkey list"

definition collect_map :: "('k \<times> 'v) list \<Rightarrow> ('k \<times> 'v) list" where
  "collect_map kvs = foldl (\<lambda>m (k, v). AList.update k v m) [] kvs"

definition oracle_map_new ::
  "bool \<Rightarrow> (u16 \<times> pubkey \<times> oracle_source) list \<Rightarrow> (u16 \<times> pubkey \<times> oracle_source) list \<Rightarrow> oracle_map" where
  "oracle_map_new sync perp_oracles spot_oracles =
     (let all_oracles = perp_oracles @ spot_oracles in
      \<lparr>om_subscribed = False, om_oraclemap = [],
       om_oracle_infos = collect_map (map (\<lambda>(_, pubkey, oracle_source). (pubkey, oracle_source)) all_oracles),
       om_sync_lock = sync, om_latest_slot = 0, om_oracle_subscribers = [],
       om_perp_oracles = collect_map (map (\<lambda>(market_index, pubkey, _). (market_index, pubkey)) perp_oracles),
       om_spot_oracles = collect_map (map (\<lambda>(market_index, pubkey, _). (market_index, pubkey)) spot_oracles),
       om_handlers = [], om_tasks = []\<rparr>)"

section \<open>Synchronizing\<close>

fun oracle_sync_accounts :: "oracle_env \<Rightarrow> u64 \<Rightarrow> (rpc_account option \<times> (pubkey \<times> oracle_source)) list \<Rightarrow>
    oracle_map \<Rightarrow> oracle_map \<times> sdk_error option" where
  "oracle_sync_accounts V slot [] s = (s\<lparr>om_latest_slot := slot\<rparr>, None)"
| "oracle_sync_accounts V slot ((None, _) # rest) s = oracle_sync_accounts V slot rest s"
| "oracle_sync_accounts V slot ((Some account, (oracle_pubkey, source)) # rest) s =
     (case get_oracle_price V source oracle_pubkey account slot of
        Inl e \<Rightarrow> (s, Some (Anchor e))
      | Inr price_data \<Rightarrow> oracle_sync_accounts V slot rest
          (s\<lparr>om_oraclemap := AList.update oracle_pubkey
            \<lparr>or_pubkey = oracle_pubkey, or_data = price_data, or_source = source, or_slot = slot,
             or_raw = ra_data account\<rparr> (om_oraclemap s)\<rparr>))"

text \<open>
  Keys and infos are sorted by key: both lists come from the same map, and the accounts are requested
  in that order. \<open>fetched\<close> is the answer to the request for the keys.
\<close>

definition oracle_map_sync :: "oracle_env \<Rightarrow> bool \<Rightarrow> (pubkey list \<Rightarrow> sdk_error + u64 \<times> rpc_account option list) \<Rightarrow>
    oracle_map \<Rightarrow> (oracle_map \<times> sdk_error option) res" where
  "oracle_map_sync V locked fetched s =
     bindE (guardE (om_sync_lock s) (Panic ''expected sync lock'')) (\<lambda>_.
     if locked then Inr (s, None)
     else
       let pubkeys = sort_key (\<lambda>k. k) (map fst (om_oracle_infos s));
           oracle_infos = sort_key fst (om_oracle_infos s) in
       Inr (case fetched pubkeys of
           Inl e \<Rightarrow> (s, Some e)
         | Inr (slot, accounts) \<Rightarrow>
             if length accounts \<noteq> length pubkeys
             then (s, Some (Generic (''failed to get all oracle accounts, expected: '' @ dec (length pubkeys) @
                 '', got: '' @ dec (length accounts))))
             else oracle_sync_accounts V slot (zip accounts oracle_infos) s))"

section \<open>Updates\<close>

text \<open>The handler registered with the copy \<open>infos\<close>.\<close>

definition oracle_handler :: "oracle_env \<Rightarrow> (pubkey \<times> oracle_source) list \<Rightarrow> (pubkey \<times> live_oracle) list \<Rightarrow>
    account_update \<Rightarrow> (pubkey \<times> live_oracle) list res" where
  "oracle_handler V infos oraclemap update =
     bindE (of_opt (Panic ''valid pubkey'') (parse_pubkey V (au_pubkey update))) (\<lambda>oracle_pubkey.
     case map_of infos oracle_pubkey of
       None \<Rightarrow> Inr oraclemap
     | Some source \<Rightarrow>
         (case ua_base64 (au_data update) of
            None \<Rightarrow> Inr oraclemap
          | Some blob \<Rightarrow>
              bindE (of_opt (Panic ''valid data'') (base64_decode V blob)) (\<lambda>data.
              bindE (of_opt (Panic ''valid pubkey'') (parse_pubkey V (ua_owner (au_data update)))) (\<lambda>owner.
              case get_oracle_price V source oracle_pubkey
                  \<lparr>ra_data = data, ra_owner = owner, ra_lamports = ua_lamports (au_data update),
                   ra_rent_epoch = ua_rent_epoch (au_data update)\<rparr> (au_slot update) of
                Inl _ \<Rightarrow> Inr oraclemap
              | Inr price_data \<Rightarrow> Inr (AList.update oracle_pubkey
                  \<lparr>or_pubkey = oracle_pubkey, or_data = price_data, or_source = source,
                   or_slot = au_slot update, or_raw = data\<rparr> oraclemap)))))"

text \<open>
  An update goes to all handlers. A handler that panics ends its thread, and is gone for the next one;
  the others go on.
\<close>

definition oracle_update :: "oracle_env \<Rightarrow> oracle_map \<Rightarrow> account_update \<Rightarrow> oracle_map" where
  "oracle_update V s update =
     s\<lparr>om_oraclemap := foldl (\<lambda>m infos. case oracle_handler V infos m update of Inl _ \<Rightarrow> m | Inr m' \<Rightarrow> m')
         (om_oraclemap s) (om_handlers s),
       om_handlers := filter (\<lambda>infos. \<exists>m. oracle_handler V infos (om_oraclemap s) update = Inr m)
         (om_handlers s)\<rparr>"

section \<open>Subscribing\<close>

text \<open>
  \<open>om_tasks\<close> are the keys of the websocket tasks that run. The method subscribes a clone of its
  list of subscribers and keeps the list itself, whose members have not been subscribed.
\<close>

definition new_oracle_subscriber :: "string \<Rightarrow> pubkey \<Rightarrow> pubkey \<times> ws_subscriber" where
  "new_oracle_subscriber url oracle = (oracle, ws_subscriber_new ''oraclemap'' url)"

definition oracle_map_subscribe :: "oracle_env \<Rightarrow> string option \<Rightarrow> bool \<Rightarrow>
    (pubkey list \<Rightarrow> sdk_error + u64 \<times> rpc_account option list) \<Rightarrow> oracle_map \<Rightarrow>
    (oracle_map \<times> sdk_error option) res" where
  "oracle_map_subscribe V ws_url locked fetched s =
     bindE (if om_sync_lock s then oracle_map_sync V locked fetched s else Inr (s, None)) (\<lambda>(s, e).
     case e of
       Some e \<Rightarrow> Inr (s, Some e)
     | None \<Rightarrow>
         if om_subscribed s then Inr (s, None)
         else
           bindE (of_opt (Panic ''valid url'') ws_url) (\<lambda>url.
           let oracle_subscribers = map (\<lambda>(k, _). new_oracle_subscriber url k) (om_oracle_infos s) in
           Inr (s\<lparr>om_subscribed := True, om_handlers := om_handlers s @ [om_oracle_infos s],
             om_tasks := om_tasks s @ map fst (filter (\<lambda>(_, w). snd (ws_subscribe w)) oracle_subscribers),
             om_oracle_subscribers := oracle_subscribers\<rparr>, None)))"

fun unsubscribe_all :: "(pubkey \<Rightarrow> bool) \<Rightarrow> (pubkey \<times> ws_subscriber) list \<Rightarrow>
    (pubkey \<times> ws_subscriber) list \<times> sdk_error option" where
  "unsubscribe_all alive [] = ([], None)"
| "unsubscribe_all alive ((k, w) # ws) =
     (let (w', e) = ws_unsubscribe (alive k) w; (ws', e') = unsubscribe_all alive ws in
      ((k, w') # ws', case e of Some e \<Rightarrow> Some e | None \<Rightarrow> e'))"

text \<open>A task stops when its subscriber sends the signal.\<close>

definition stop_tasks :: "(pubkey \<Rightarrow> bool) \<Rightarrow> (pubkey \<times> ws_subscriber) list \<Rightarrow> pubkey list \<Rightarrow> pubkey list" where
  "stop_tasks alive ws tasks =
     foldl (\<lambda>tasks (k, w). if wss_subscribed w \<and> wss_unsubscriber w \<and> alive k then remove1 k tasks else tasks)
       tasks ws"

definition oracle_map_unsubscribe :: "(pubkey \<Rightarrow> bool) \<Rightarrow> oracle_map \<Rightarrow> oracle_map \<times> sdk_error option" where
  "oracle_map_unsubscribe alive s =
     (if om_subscribed s then
        let tasks = stop_tasks alive (om_oracle_subscribers s) (om_tasks s) in
        case unsubscribe_all alive (om_oracle_subscribers s) of
          (ws, Some e) \<Rightarrow> (s\<lparr>om_oracle_subscribers := ws, om_tasks := tasks\<rparr>, Some e)
        | (ws, None) \<Rightarrow> (s\<lparr>om_oracle_subscribers := ws, om_tasks := tasks, om_subscribed := False,
            om_oraclemap := [], om_latest_slot := 0\<rparr>, None)
      else (s, None))"

section \<open>Lookups and changes\<close>

definition oracle_map_size :: "oracle_map \<Rightarrow> nat" where
  "oracle_map_size s = length (om_oraclemap s)"

definition oracle_map_contains :: "oracle_map \<Rightarrow> pubkey \<Rightarrow> bool" where
  "oracle_map_contains s key \<longleftrightarrow> map_of (om_oracle_infos s) key \<noteq> None"

definition current_perp_oracle :: "oracle_map \<Rightarrow> u16 \<Rightarrow> pubkey option" where
  "current_perp_oracle s market_index = map_of (om_perp_oracles s) market_index"

definition current_spot_oracle :: "oracle_map \<Rightarrow> u16 \<Rightarrow> pubkey option" where
  "current_spot_oracle s market_index = map_of (om_spot_oracles s) market_index"

definition oracle_map_get :: "oracle_map \<Rightarrow> pubkey \<Rightarrow> live_oracle option" where
  "oracle_map_get s key = map_of (om_oraclemap s) key"

definition oracle_map_values :: "oracle_map \<Rightarrow> live_oracle list" where
  "oracle_map_values s = map snd (om_oraclemap s)"

definition add_oracle :: "string option \<Rightarrow> pubkey \<Rightarrow> oracle_source \<Rightarrow> oracle_map \<Rightarrow> oracle_map res" where
  "add_oracle ws_url oracle source s =
     (if oracle_map_contains s oracle then Inr s
      else
        let s = s\<lparr>om_oracle_infos := AList.update oracle source (om_oracle_infos s)\<rparr> in
        bindE (of_opt (Panic ''valid url'') ws_url) (\<lambda>url.
        let (k, w) = new_oracle_subscriber url oracle; (w, started) = ws_subscribe w in
        Inr (s\<lparr>om_oracle_subscribers := om_oracle_subscribers s @ [(k, w)],
          om_tasks := om_tasks s @ (if started then [k] else [])\<rparr>)))"

definition update_spot_oracle :: "u16 \<Rightarrow> pubkey \<Rightarrow> oracle_map \<Rightarrow> oracle_map" where
  "update_spot_oracle market_index oracle s =
     s\<lparr>om_spot_oracles := AList.update market_index oracle (om_spot_oracles s)\<rparr>"

definition update_perp_oracle :: "u16 \<Rightarrow> pubkey \<Rightarrow> oracle_map \<Rightarrow> oracle_map" where
  "update_perp_oracle market_index oracle s =
     s\<lparr>om_perp_oracles := AList.update market_index oracle (om_perp_oracles s)\<rparr>"

definition oracle_map_latest_slot :: "oracle_map \<Rightarrow> u64" where
  "oracle_map_latest_slot s = om_latest_slot s"

section \<open>Handlers\<close>

lemma handler_other:
  assumes "oracle_handler V infos m update = Inr m'" and "map_of infos k = None"
  shows "map_of m' k = map_of m k"
  using assms
  by (auto simp: oracle_handler_def bindE_def of_opt_def update_conv'
      split: option.splits sum.splits if_splits)

lemma update_other:
  assumes "\<forall>infos\<in>set (om_handlers s). map_of infos k = None"
  shows "oracle_map_get (oracle_update V s update) k = oracle_map_get s k"
proof -
  have "map_of (foldl (\<lambda>m infos. case oracle_handler V infos m update of Inl _ \<Rightarrow> m | Inr m' \<Rightarrow> m') m hs) k =
      map_of m k" if "\<forall>infos\<in>set hs. map_of infos k = None" for hs m
    using that by (induction hs arbitrary: m) (auto split: sum.split dest: handler_other)
  with assms show ?thesis by (simp add: oracle_update_def oracle_map_get_def)
qed

lemma update_handlers: "set (om_handlers (oracle_update V s update)) \<subseteq> set (om_handlers s)"
  by (auto simp: oracle_update_def)

lemma updates_other:
  assumes "\<forall>infos\<in>set (om_handlers s). map_of infos k = None"
  shows "oracle_map_get (foldl (oracle_update V) s us) k = oracle_map_get s k"
  using assms
proof (induction us arbitrary: s)
  case (Cons u us)
  have "\<forall>infos\<in>set (om_handlers (oracle_update V s u)). map_of infos k = None"
    using Cons.prems update_handlers [of V s u] by blast
  with Cons update_other [OF Cons.prems, of V u] show ?case by simp
qed simp

section \<open>Properties\<close>

text \<open>
  An oracle that is added after the map was subscribed is never updated: its task is started, but
  the handlers keep the sources known when they were registered, so whatever updates arrive, for
  this oracle or another, the map has no entry for it.
\<close>

theorem added_oracle_never_updated:
  assumes "\<forall>infos\<in>set (om_handlers s). map_of infos key = None"
    and "oracle_map_get s key = None" and "\<not> oracle_map_contains s key"
    and "add_oracle (Some url) key source s = Inr s'"
  shows "oracle_map_contains s' key \<and> om_tasks s' = om_tasks s @ [key] \<and>
    oracle_map_get (foldl (oracle_update V) s' us) key = None"
proof -
  have s': "s' = s\<lparr>om_oracle_infos := AList.update key source (om_oracle_infos s),
      om_oracle_subscribers := om_oracle_subscribers s @
        [(key, fst (ws_subscribe (ws_subscriber_new ''oraclemap'' url)))],
      om_tasks := om_tasks s @ [key]\<rparr>"
    using assms(3,4)
    by (auto simp: add_oracle_def new_oracle_subscriber_def ws_subscribe_def ws_subscriber_new_def Let_def)
  have "oracle_map_get (foldl (oracle_update V) s' us) key = oracle_map_get s' key"
    using assms(1) by (intro updates_other) (simp add: s')
  with assms(2) show ?thesis by (simp add: s' oracle_map_contains_def oracle_map_get_def update_conv')
qed

lemma unsubscribed_all:
  "\<forall>(k, w)\<in>set ws. \<not> wss_subscribed w \<Longrightarrow> unsubscribe_all alive ws = (ws, None) \<and> stop_tasks alive ws ts = ts"
  by (induction ws) (auto simp: ws_unsubscribe_def stop_tasks_def)

text \<open>
  Unsubscribing stops none of the tasks that subscribing started, since the subscribers that were
  subscribed are clones of those kept: afterwards every task still runs and every handler is
  still there, although the map says it is not subscribed.
\<close>

theorem oracle_unsubscribe_stops_nothing:
  assumes "om_subscribed s = False"
    and "oracle_map_subscribe V (Some url) locked fetched s = Inr (s', None)"
  shows "\<exists>s''. oracle_map_unsubscribe alive s' = (s'', None) \<and> \<not> om_subscribed s'' \<and>
    om_tasks s'' = om_tasks s @ map fst (om_oracle_infos s') \<and> om_handlers s'' = om_handlers s'"
proof -
  have sync: "om_tasks t = om_tasks s \<and> om_subscribed t = om_subscribed s"
    if "oracle_sync_accounts V slot xs s = (t, e)" for slot xs t e and s :: oracle_map
    using that
    by (induction V slot xs s rule: oracle_sync_accounts.induct) (auto split: sum.splits)
  from assms(2) obtain t where
    sync_t: "(if om_sync_lock s then oracle_map_sync V locked fetched s else Inr (s, None)) = Inr (t, None)"
    by (auto simp: oracle_map_subscribe_def returns split: option.splits)
  have same: "om_tasks t = om_tasks s" "\<not> om_subscribed t"
    using sync_t assms(1) sync
    by (auto simp: oracle_map_sync_def returns Let_def split: if_splits sum.splits prod.splits)
  have t: "s' = t\<lparr>om_subscribed := True,
      om_handlers := om_handlers t @ [om_oracle_infos t],
      om_tasks := om_tasks t @ map fst (om_oracle_infos t),
      om_oracle_subscribers := map (\<lambda>(k, _). new_oracle_subscriber url k) (om_oracle_infos t)\<rparr>"
    using assms(2) same(2) unfolding oracle_map_subscribe_def sync_t
    by (simp add: Let_def new_oracle_subscriber_def ws_subscribe_def ws_subscriber_new_def filter_map
        comp_def case_prod_beta)
  have "\<forall>(k, w)\<in>set (om_oracle_subscribers s'). \<not> wss_subscribed w"
    by (auto simp: t new_oracle_subscriber_def ws_subscriber_new_def)
  from unsubscribed_all [OF this] show ?thesis
    using t same by (simp add: oracle_map_unsubscribe_def Let_def)
qed

definition sample_oracle_env :: oracle_env where
  "sample_oracle_env = \<lparr>parse_pubkey = (\<lambda>s. if s = ''k'' then Some 300 else Some 301),
     base64_decode = (\<lambda>s. Some (map of_char s)),
     get_oracle_price = (\<lambda>_ _ _ _. Inr \<lparr>opd_price = 5, opd_confidence = 0, opd_delay = 0,
       opd_has_sufficient_number_of_data_points = True\<rparr>)\<rparr>"

definition sample_oracles :: oracle_map where
  "sample_oracles = oracle_map_new False [(0, 300, Pyth)] []"

theorem oracle_unsubscribe_stops_nothing_witness:
  "\<exists>s' s''. oracle_map_subscribe sample_oracle_env (Some ''ws://x'') False (\<lambda>_. Inl Deserializing) sample_oracles =
       Inr (s', None) \<and> oracle_map_unsubscribe (\<lambda>_. True) s' = (s'', None) \<and> om_tasks s'' = [300]"
proof -
  obtain s' where s': "oracle_map_subscribe sample_oracle_env (Some ''ws://x'') False (\<lambda>_. Inl Deserializing)
      sample_oracles = Inr (s', None)"
    by (simp add: oracle_map_subscribe_def sample_oracles_def oracle_map_new_def Let_def)
  moreover have "map fst (om_oracle_infos s') = [300]" "om_tasks sample_oracles = []"
    using s' by (auto simp: oracle_map_subscribe_def sample_oracles_def oracle_map_new_def collect_map_def Let_def)
  ultimately show ?thesis
    using oracle_unsubscribe_stops_nothing [of sample_oracles sample_oracle_env "''ws://x''" False _ s' "\<lambda>_. True"]
    by (auto simp: sample_oracles_def oracle_map_new_def Let_def)
qed

theorem added_oracle_never_updated_witness:
  "\<exists>s'. add_oracle (Some ''ws://x'') 301 Pyth (sample_oracles\<lparr>om_handlers := [[(300, Pyth)]]\<rparr>) = Inr s' \<and>
     oracle_map_contains s' 301 \<and>
     oracle_map_get (foldl (oracle_update sample_oracle_env) s'
       [\<lparr>au_pubkey = ''other'', au_data = \<lparr>ua_base64 = Some ''AA'', ua_owner = ''k'', ua_lamports = 1,
         ua_rent_epoch = 0\<rparr>, au_slot = 9\<rparr>]) 301 = None"
proof -
  let ?s = "sample_oracles\<lparr>om_handlers := [[(300, Pyth)]]\<rparr>"
  have s: "\<forall>infos\<in>set (om_handlers ?s). map_of infos 301 = None" "oracle_map_get ?s 301 = None"
    "\<not> oracle_map_contains ?s 301"
    by (simp_all add: sample_oracles_def oracle_map_new_def collect_map_def oracle_map_get_def
        oracle_map_contains_def Let_def)
  have "\<exists>s'. add_oracle (Some ''ws://x'') 301 Pyth ?s = Inr s'"
    using s(3) by (simp add: add_oracle_def new_oracle_subscriber_def ws_subscribe_def ws_subscriber_new_def Let_def)
  then obtain s' where s': "add_oracle (Some ''ws://x'') 301 Pyth ?s = Inr s'" ..
  with added_oracle_never_updated [OF s s'] show ?thesis by blast
qed

end
