(* ===== verification/Client.thy ===== *)
theory Client
  imports Oracle_Map Tx_Builder
begin

text \<open>
  The client of \<open>src/src/lib.rs\<close> with \<open>src/src/user.rs\<close>: account providers, the wallet, queries on
  a user's account and on the live maps, and sending transactions.

  A request to the node is an argument that holds its answer; an account's data is deserialized by
  functions of the program crate, which are arguments too. A task that a method spawns is returned
  as a value, and has its own definition.
\<close>

section \<open>Account providers\<close>

record account =
  ac_data :: "u8 list"
  ac_owner :: pubkey

text \<open>
  The websocket provider: the cache holds the last account and the slot it was modified in. A read of
  an unknown account fetches it, caches it with slot 0 and starts a subscription.
\<close>

record ws_account_provider =
  wp_url :: string
  wp_account_cache :: "(pubkey \<times> account \<times> u64) list"
  wp_subscriptions :: "pubkey list"

definition ws_account_provider_new :: "string \<Rightarrow> ws_account_provider" where
  "ws_account_provider_new url = \<lparr>wp_url = url, wp_account_cache = [], wp_subscriptions = []\<rparr>"

definition ws_get_account :: "(pubkey \<Rightarrow> sdk_error + account) \<Rightarrow> pubkey \<Rightarrow> ws_account_provider \<Rightarrow>
    ws_account_provider \<times> (sdk_error + account)" where
  "ws_get_account fetched k s =
     (case map_of (wp_account_cache s) k of
        Some (account_data, _) \<Rightarrow> (s, Inr account_data)
      | None \<Rightarrow>
          (case fetched k of
             Inl e \<Rightarrow> (s, Inl e)
           | Inr account_data \<Rightarrow>
               (s\<lparr>wp_account_cache := AList.update k (account_data, 0) (wp_account_cache s),
                  wp_subscriptions := wp_subscriptions s @ [k]\<rparr>, Inr account_data)))"

text \<open>A message of the account's stream or the answer to a poll: written only if its slot is newer.\<close>

definition account_stream_update :: "pubkey \<Rightarrow> account \<Rightarrow> u64 \<Rightarrow> ws_account_provider \<Rightarrow> ws_account_provider" where
  "account_stream_update k account_data slot s =
     (case map_of (wp_account_cache s) k of
        None \<Rightarrow> s
      | Some current \<Rightarrow>
          if snd current < slot
          then s\<lparr>wp_account_cache := AList.update k (account_data, slot) (wp_account_cache s)\<rparr>
          else s)"

section \<open>The wallet\<close>

record wallet =
  wl_signer :: pubkey
  wl_authority :: pubkey
  wl_stats :: pubkey

definition wallet_is_delegated :: "(pubkey \<Rightarrow> bool) \<Rightarrow> wallet \<Rightarrow> bool" where
  "wallet_is_delegated is_on_curve w \<longleftrightarrow> wl_authority w \<noteq> wl_signer w \<and> is_on_curve (wl_signer w)"

text \<open>The key of the empty signer of a read-only wallet is an argument.\<close>

definition wallet_read_only :: "chain_env \<Rightarrow> pubkey \<Rightarrow> pubkey \<Rightarrow> wallet" where
  "wallet_read_only C empty_signer authority =
     \<lparr>wl_signer = empty_signer, wl_authority = authority,
      wl_stats = derive_stats_account C authority (drift_ID C)\<rparr>"

definition wallet_new :: "chain_env \<Rightarrow> pubkey \<Rightarrow> wallet" where
  "wallet_new C signer =
     \<lparr>wl_signer = signer, wl_authority = signer, wl_stats = derive_stats_account C signer (drift_ID C)\<rparr>"

definition wallet_to_delegated :: "chain_env \<Rightarrow> pubkey \<Rightarrow> wallet \<Rightarrow> wallet" where
  "wallet_to_delegated C authority w =
     w\<lparr>wl_stats := derive_stats_account C authority (drift_ID C), wl_authority := authority\<rparr>"

definition wallet_sub_account :: "chain_env \<Rightarrow> wallet \<Rightarrow> u16 \<Rightarrow> pubkey" where
  "wallet_sub_account C w sub_account_id = derive_user_account C (wl_authority w) sub_account_id (drift_ID C)"

definition wallet_default_sub_account :: "chain_env \<Rightarrow> wallet \<Rightarrow> pubkey" where
  "wallet_default_sub_account C w = wallet_sub_account C w 0"

section \<open>Users\<close>

record drift_user =
  du_pubkey :: pubkey
  du_subscription :: ws_subscriber
  du_data_and_slot :: "user data_and_slot"
  du_sub_account :: u16

definition drift_user_new :: "string option \<Rightarrow> pubkey \<Rightarrow> sdk_error + user \<Rightarrow> u16 \<Rightarrow> drift_user res" where
  "drift_user_new ws_url pubkey fetched sub_account =
     bindE (of_opt (Panic ''valid url'') ws_url) (\<lambda>url.
     case fetched of
       Inl e \<Rightarrow> Inl (Err e)
     | Inr user \<Rightarrow> Inr \<lparr>du_pubkey = pubkey, du_subscription = ws_subscriber_new ''user'' url,
         du_data_and_slot = \<lparr>das_slot = 0, das_data = user\<rparr>, du_sub_account = sub_account\<rparr>)"

definition drift_user_subscribe :: "drift_user \<Rightarrow> drift_user" where
  "drift_user_subscribe s = s\<lparr>du_subscription := fst (ws_subscribe (du_subscription s))\<rparr>"

text \<open>The handler: every update replaces the data, whatever its slot.\<close>

definition drift_user_update :: "(ui_account \<Rightarrow> user option) \<Rightarrow> drift_user \<Rightarrow> account_update \<Rightarrow> drift_user res" where
  "drift_user_update decode s update =
     bindE (of_opt (Panic ''valid user data'') (decode (au_data update))) (\<lambda>new_data.
     Inr (s\<lparr>du_data_and_slot := \<lparr>das_slot = au_slot update, das_data = new_data\<rparr>\<rparr>))"

definition get_user_account_and_slot :: "drift_user \<Rightarrow> user data_and_slot" where
  "get_user_account_and_slot s = du_data_and_slot s"

definition drift_user_account :: "drift_user \<Rightarrow> user" where
  "drift_user_account s = das_data (get_user_account_and_slot s)"

section \<open>The client\<close>

record 'st backend =
  be_program_data :: program_data
  be_perp_market_map :: "perp_market market_map"
  be_spot_market_map :: "spot_market market_map"
  be_oracle_map :: oracle_map
  be_state_account :: 'st
  be_blockhash_subscriber :: blockhash_subscriber

record 'st drift_client =
  dc_backend :: "'st backend"
  dc_wallet :: wallet
  dc_active_sub_account_id :: u16
  dc_sub_account_ids :: "u16 list"
  dc_users :: "drift_user list"

definition drift_client_new_with_opts :: "'st backend \<Rightarrow> wallet \<Rightarrow> client_opts \<Rightarrow> 'st drift_client" where
  "drift_client_new_with_opts backend wallet opts =
     \<lparr>dc_backend = backend, dc_wallet = wallet, dc_active_sub_account_id = co_active_sub_account_id opts,
      dc_sub_account_ids = co_sub_account_ids opts, dc_users = []\<rparr>"

definition drift_client_new :: "'st backend \<Rightarrow> wallet \<Rightarrow> 'st drift_client" where
  "drift_client_new backend wallet = drift_client_new_with_opts backend wallet client_opts_default"

definition add_user :: "chain_env \<Rightarrow> string option \<Rightarrow> (pubkey \<Rightarrow> sdk_error + user) \<Rightarrow> u16 \<Rightarrow>
    'st drift_client \<Rightarrow> 'st drift_client res" where
  "add_user C ws_url fetched sub_account_id s =
     (let pubkey = derive_user_account C (wl_authority (dc_wallet s)) sub_account_id (drift_ID C) in
      bindE (drift_user_new ws_url pubkey (fetched pubkey) sub_account_id) (\<lambda>user.
      Inr (s\<lparr>dc_users := dc_users s @ [drift_user_subscribe user]\<rparr>)))"

definition client_get_user :: "u16 \<Rightarrow> 'st drift_client \<Rightarrow> drift_user option" where
  "client_get_user sub_account_id s = find (\<lambda>u. du_sub_account u = sub_account_id) (dc_users s)"

definition get_sub_account_id_for_ix :: "u16 option \<Rightarrow> 'st drift_client \<Rightarrow> u16" where
  "get_sub_account_id_for_ix sub_account_id s =
     (case sub_account_id of Some i \<Rightarrow> i | None \<Rightarrow> dc_active_sub_account_id s)"

text \<open>Fetching an account: the provider's errors pass through, data that is no account is invalid.\<close>

definition get_account :: "(pubkey \<Rightarrow> sdk_error + account) \<Rightarrow> (u8 list \<Rightarrow> 'a option) \<Rightarrow> pubkey \<Rightarrow> sdk_error + 'a" where
  "get_account provider try_deserialize k =
     (case provider k of
        Inl e \<Rightarrow> Inl e
      | Inr account_data \<Rightarrow> of_opt InvalidAccount (try_deserialize (ac_data account_data)))"

definition get_order_by_id :: "sdk_error + user \<Rightarrow> u32 \<Rightarrow> sdk_error + order option" where
  "get_order_by_id user order_id = map_sum id (\<lambda>u. find (\<lambda>order. o_order_id order = order_id) (u_orders u)) user"

definition get_order_by_user_id :: "sdk_error + user \<Rightarrow> u8 \<Rightarrow> sdk_error + order option" where
  "get_order_by_user_id user user_order_id =
     map_sum id (\<lambda>u. find (\<lambda>order. o_user_order_id order = user_order_id) (u_orders u)) user"

definition all_orders :: "sdk_error + user \<Rightarrow> sdk_error + order list" where
  "all_orders user = map_sum id (\<lambda>u. filter (\<lambda>order. o_status order = order_status.Open) (u_orders u)) user"

definition all_positions :: "chain_env \<Rightarrow> sdk_error + user \<Rightarrow>
    sdk_error + spot_position list \<times> perp_position list" where
  "all_positions C user = map_sum id (\<lambda>u.
     (filter (\<lambda>s. \<not> spot_position_is_available C s) (u_spot_positions u),
      filter (\<lambda>p. perp_position_is_open_position C p) (u_perp_positions u))) user"

definition client_perp_position :: "chain_env \<Rightarrow> sdk_error + user \<Rightarrow> u16 \<Rightarrow> sdk_error + perp_position option" where
  "client_perp_position C user market_index = map_sum id (\<lambda>u.
     find (\<lambda>p. pp_market_index p = market_index \<and> \<not> perp_position_is_available C p) (u_perp_positions u)) user"

definition client_spot_position :: "chain_env \<Rightarrow> sdk_error + user \<Rightarrow> u16 \<Rightarrow> sdk_error + spot_position option" where
  "client_spot_position C user market_index = map_sum id (\<lambda>u.
     find (\<lambda>p. sp_market_index p = market_index \<and> \<not> spot_position_is_available C p) (u_spot_positions u)) user"

section \<open>Symbols\<close>

definition to_ascii_lower :: "char \<Rightarrow> char" where
  "to_ascii_lower c =
     (let n = of_char c :: nat in if 65 \<le> n \<and> n \<le> 90 then char_of (n + 32) else c)"

definition eq_ignore_ascii_case :: "string \<Rightarrow> string \<Rightarrow> bool" where
  "eq_ignore_ascii_case a b \<longleftrightarrow> map to_ascii_lower a = map to_ascii_lower b"

definition market_lookup :: "program_data \<Rightarrow> string \<Rightarrow> market_id option" where
  "market_lookup P symbol =
     (if CHR ''-'' \<in> set symbol then
        map_option (\<lambda>m. market_id_perp (pm_market_index m))
          (find (\<lambda>m. eq_ignore_ascii_case (perp_symbol m) symbol) (pd_perp_markets P))
      else
        map_option (\<lambda>m. market_id_spot (sm_market_index m))
          (find (\<lambda>m. eq_ignore_ascii_case (spot_symbol m) symbol) (pd_spot_markets P)))"

section \<open>Prices and fees\<close>

text \<open>\<open>fees\<close> is the node's answer for the addresses, the newest slot first.\<close>

definition get_recent_priority_fees :: "program_data \<Rightarrow> (pubkey list \<Rightarrow> sdk_error + u64 list) \<Rightarrow>
    market_id list \<Rightarrow> nat option \<Rightarrow> sdk_error + u64 list" where
  "get_recent_priority_fees P fees markets window =
     (let addresses = List.map_filter (\<lambda>x. case mid_kind x of
            market_type.Spot \<Rightarrow> map_option sm_pubkey (spot_market_config_by_index P (mid_index x))
          | market_type.Perp \<Rightarrow> map_option pm_pubkey (perp_market_config_by_index P (mid_index x)))
          markets;
          window = max 1 (case window of Some w \<Rightarrow> w | None \<Rightarrow> 5) in
      map_sum id (take window) (fees addresses))"

text \<open>
  The price is read at the current slot from the oracle of the market's static data. The answer of the
  provider is looked at before that of the node.
\<close>

definition oracle_price :: "oracle_env \<Rightarrow> program_data \<Rightarrow> (pubkey \<Rightarrow> sdk_error + rpc_account) \<Rightarrow>
    sdk_error + u64 \<Rightarrow> market_id \<Rightarrow> (sdk_error + i64) res" where
  "oracle_price V P provider current_slot market =
     (case (case mid_kind market of
          market_type.Perp \<Rightarrow> map_option (\<lambda>m. (pm_amm_oracle m, pm_amm_oracle_source m))
            (perp_market_config_by_index P (mid_index market))
        | market_type.Spot \<Rightarrow> map_option (\<lambda>m. (sm_oracle m, sm_oracle_source m))
            (spot_market_config_by_index P (mid_index market))) of
        None \<Rightarrow> Inr (Inl InvalidOracle)
      | Some (k, source) \<Rightarrow>
          (case provider k of
             Inl e \<Rightarrow> Inr (Inl e)
           | Inr oracle_account \<Rightarrow>
               (case current_slot of
                  Inl e \<Rightarrow> Inr (Inl e)
                | Inr slot \<Rightarrow>
                    (case get_oracle_price V source k oracle_account slot of
                       Inl _ \<Rightarrow> Inl (Panic ''called `Result::unwrap()` on an `Err` value'')
                     | Inr price_data \<Rightarrow> Inr (Inr (opd_price price_data))))))"

text \<open>
  The live oracle of a market. When the market's oracle is not the one the map knows for it, a task is
  spawned that adds it and makes it the current one.
\<close>

definition oracle_for_perp_market :: "'st backend \<Rightarrow> u16 \<Rightarrow>
    (live_oracle option \<times> (pubkey \<times> oracle_source) option) res" where
  "oracle_for_perp_market s market_index =
     (case market_map_get (be_perp_market_map s) market_index of
        None \<Rightarrow> Inr (None, None)
      | Some market \<Rightarrow>
          let k = pm_amm_oracle (das_data market) in
          bindE (of_opt (Panic ''oracle'') (current_perp_oracle (be_oracle_map s) market_index)) (\<lambda>current_oracle.
          let task = (if k \<noteq> current_oracle then Some (k, pm_amm_oracle_source (das_data market)) else None) in
          Inr (oracle_map_get (be_oracle_map s) current_oracle, task)))"

definition oracle_for_spot_market :: "'st backend \<Rightarrow> u16 \<Rightarrow>
    (live_oracle option \<times> (pubkey \<times> oracle_source) option) res" where
  "oracle_for_spot_market s market_index =
     (case market_map_get (be_spot_market_map s) market_index of
        None \<Rightarrow> Inr (None, None)
      | Some market \<Rightarrow>
          let k = sm_oracle (das_data market) in
          bindE (of_opt (Panic ''oracle'') (current_spot_oracle (be_oracle_map s) market_index)) (\<lambda>current_oracle.
          let task = (if k \<noteq> current_oracle then Some (k, sm_oracle_source (das_data market)) else None) in
          Inr (oracle_map_get (be_oracle_map s) (sm_oracle (das_data market)), task)))"

text \<open>The spawned task; the error of \<open>add_oracle\<close> is ignored.\<close>

definition switch_perp_oracle :: "string option \<Rightarrow> u16 \<Rightarrow> pubkey \<times> oracle_source \<Rightarrow> oracle_map \<Rightarrow> oracle_map res" where
  "switch_perp_oracle ws_url market_index = (\<lambda>(k, source) m.
     bindE (add_oracle ws_url k source m) (\<lambda>m. Inr (update_perp_oracle market_index k m)))"

definition switch_spot_oracle :: "string option \<Rightarrow> u16 \<Rightarrow> pubkey \<times> oracle_source \<Rightarrow> oracle_map \<Rightarrow> oracle_map res" where
  "switch_spot_oracle ws_url market_index = (\<lambda>(k, source) m.
     bindE (add_oracle ws_url k source m) (\<lambda>m. Inr (update_spot_oracle market_index k m)))"

definition state_update :: "(ui_account \<Rightarrow> 'st option) \<Rightarrow> 'st backend \<Rightarrow> account_update \<Rightarrow> 'st backend res" where
  "state_update decode s update =
     bindE (of_opt (Panic ''valid state data'') (decode (au_data update))) (\<lambda>new_data.
     Inr (s\<lparr>be_state_account := new_data\<rparr>))"

section \<open>Sending\<close>

text \<open>
  Signing takes the wallet's signer, the message and a block hash; sending answers a signature. Both
  fail with an error.
\<close>

type_synonym signature = "u8 list"

definition sign_tx :: "(pubkey \<Rightarrow> 'msg \<Rightarrow> hash \<Rightarrow> ext_error + 'tx) \<Rightarrow> wallet \<Rightarrow> 'msg \<Rightarrow> hash \<Rightarrow> sdk_error + 'tx" where
  "sign_tx try_new w message recent_block_hash =
     map_sum Signing id (try_new (wl_signer w) message recent_block_hash)"

definition backend_sign_and_send :: "(pubkey \<Rightarrow> 'msg \<Rightarrow> hash \<Rightarrow> ext_error + 'tx) \<Rightarrow>
    ('tx \<Rightarrow> sdk_error + signature) \<Rightarrow> 'st backend \<Rightarrow> wallet \<Rightarrow> 'msg \<Rightarrow> sdk_error + signature" where
  "backend_sign_and_send try_new send_transaction s w tx =
     (let recent_block_hash = get_valid_blockhash (be_blockhash_subscriber s) in
      bindE (sign_tx try_new w tx recent_block_hash) send_transaction)"

definition sign_and_send :: "(pubkey \<Rightarrow> 'msg \<Rightarrow> hash \<Rightarrow> ext_error + 'tx) \<Rightarrow>
    ('tx \<Rightarrow> sdk_error + signature) \<Rightarrow> 'st drift_client \<Rightarrow> 'msg \<Rightarrow> sdk_error + signature" where
  "sign_and_send try_new send_transaction s tx =
     map_sum (\<lambda>e. case to_out_of_sol_error e of Some e' \<Rightarrow> e' | None \<Rightarrow> e) id
       (backend_sign_and_send try_new send_transaction (dc_backend s) (dc_wallet s) tx)"

section \<open>Transactions\<close>

definition init_tx :: "pubkey \<Rightarrow> bool \<Rightarrow> 'st drift_client \<Rightarrow> tx_builder res" where
  "init_tx k delegated s =
     bindE (of_opt (Panic ''user'') (client_get_user (dc_active_sub_account_id s) s)) (\<lambda>user.
     Inr (transaction_builder_new (be_program_data (dc_backend s)) k (drift_user_account user) delegated))"

section \<open>The cache of accounts\<close>

text \<open>Updates of one account: the cached slot only grows, and the data is that of the cached slot.\<close>

lemma stream_update_keys:
  "map_of (wp_account_cache (account_stream_update k a slot s)) k' =
    (if k' = k \<and> (\<exists>c. map_of (wp_account_cache s) k = Some c \<and> snd c < slot) then Some (a, slot)
     else map_of (wp_account_cache s) k')"
  by (auto simp: account_stream_update_def update_conv' split: option.split)

definition newest :: "account \<times> u64 \<Rightarrow> (account \<times> u64) list \<Rightarrow> account \<times> u64" where
  "newest c us = foldl (\<lambda>c u. if snd c < snd u then u else c) c us"

lemma newest_slot: "snd (newest c us) = fold max (map snd us) (snd c) \<and> newest c us \<in> set (c # us)"
  by (induction us rule: rev_induct) (auto simp: newest_def max_def)

lemma stream_updates:
  assumes "map_of (wp_account_cache s) k = Some c"
  shows "map_of (wp_account_cache (foldl (\<lambda>s (a, slot). account_stream_update k a slot s) s us)) k =
    Some (newest c us)"
  using assms
proof (induction us arbitrary: s c)
  case (Cons u us)
  obtain a slot where u: "u = (a, slot)" by (cases u)
  show ?case
    using Cons.IH [of "account_stream_update k a slot s" "if snd c < slot then u else c"] Cons.prems
    by (auto simp: u stream_update_keys newest_def)
qed (simp add: newest_def)

text \<open>A client for the worked examples: one perp market, whose oracle has changed from 300 to 400.\<close>

definition sample_backend :: "unit backend" where
  "sample_backend =
     \<lparr>be_program_data = sample_data,
      be_perp_market_map = \<lparr>mm_subscribed = True, mm_subscription = program_subscriber_new ''marketmap'' ''ws://x'' [],
        mm_marketmap = [(3, \<lparr>das_slot = 9,
          das_data = (sample_perp_market 3)\<lparr>pm_amm_oracle := 400, pm_amm_oracle_source := Pyth\<rparr>\<rparr>)],
        mm_sync_lock = False, mm_latest_slot = 9, mm_synced = False\<rparr>,
      be_spot_market_map = \<lparr>mm_subscribed = False, mm_subscription = program_subscriber_new ''marketmap'' ''ws://x'' [],
        mm_marketmap = [], mm_sync_lock = False, mm_latest_slot = 0, mm_synced = False\<rparr>,
      be_oracle_map = (oracle_map_new False [(3, 300, Pyth)] [])\<lparr>om_handlers := [[(300, Pyth)]]\<rparr>,
      be_state_account = (), be_blockhash_subscriber = blockhash_subscriber_new 2\<rparr>"

definition sample_client :: "unit drift_client" where
  "sample_client = drift_client_new sample_backend (wallet_new sample_chain 5)"

end
