(* ===== verification/Jit_Client.thy ===== *)
theory Jit_Client
  imports Client Tx_Building
begin

text \<open>
  \<open>src/src/jit_client.rs\<close>: the transaction that makes against a taker's order through the jit proxy.
  Price types and post-only values of the proxy are the numbers of their variants.
\<close>

record jit_ix_params =
  jp_taker_key :: pubkey
  jp_taker_stats_key :: pubkey
  jp_taker :: user
  jp_taker_order_id :: u32
  jp_max_position :: i64
  jp_min_position :: i64
  jp_bid :: i64
  jp_ask :: i64
  jp_price_type :: "u8 option"
  jp_referrer_info :: "referrer_info option"
  jp_post_only :: "u8 option"

definition jit_ix_params_new :: "pubkey \<Rightarrow> pubkey \<Rightarrow> user \<Rightarrow> u32 \<Rightarrow> i64 \<Rightarrow> i64 \<Rightarrow> i64 \<Rightarrow> i64 \<Rightarrow>
    u8 option \<Rightarrow> referrer_info option \<Rightarrow> u8 option \<Rightarrow> jit_ix_params" where
  "jit_ix_params_new taker_key taker_stats_key taker taker_order_id max_position min_position bid ask
      price_type referrer_info post_only =
     \<lparr>jp_taker_key = taker_key, jp_taker_stats_key = taker_stats_key, jp_taker = taker,
      jp_taker_order_id = taker_order_id, jp_max_position = max_position,
      jp_min_position = min_position, jp_bid = bid, jp_ask = ask, jp_price_type = price_type,
      jp_referrer_info = referrer_info, jp_post_only = post_only\<rparr>"

record compute_budget_params =
  cb_microlamports_per_cu :: u64
  cb_cu_limit :: u32

record ('st, 'cfg) jit_proxy_client =
  jc_drift_client :: "'st drift_client"
  jc_config :: 'cfg
  jc_cu_params :: "compute_budget_params option"

definition jit_proxy_client_new :: "'cfg \<Rightarrow> 'st drift_client \<Rightarrow> 'cfg option \<Rightarrow> compute_budget_params option \<Rightarrow>
    ('st, 'cfg) jit_proxy_client" where
  "jit_proxy_client_new default_config drift_client config cu_params =
     \<lparr>jc_drift_client = drift_client,
      jc_config = (case config of Some c \<Rightarrow> c | None \<Rightarrow> default_config), jc_cu_params = cu_params\<rparr>"

definition update_config :: "'cfg \<Rightarrow> ('st, 'cfg) jit_proxy_client \<Rightarrow> ('st, 'cfg) jit_proxy_client" where
  "update_config config s = s\<lparr>jc_config := config\<rparr>"

definition update_cu_params ::
  "compute_budget_params \<Rightarrow> ('st, 'cfg) jit_proxy_client \<Rightarrow> ('st, 'cfg) jit_proxy_client" where
  "update_cu_params cu_params s = s\<lparr>jc_cu_params := Some cu_params\<rparr>"

text \<open>\<open>spot_market_info\<close> answers the requests for the vaults of the two spot markets.\<close>

definition jit_vault_metas :: "(u16 \<Rightarrow> sdk_error + spot_market) \<Rightarrow> u16 \<Rightarrow> account_meta list res" where
  "jit_vault_metas spot_market_info market_index =
     (case spot_market_info market_index of
        Inl e \<Rightarrow> Inl (Err e)
      | Inr market \<Rightarrow>
          (case spot_market_info 0 of
             Inl e \<Rightarrow> Inl (Err e)
           | Inr quote_market \<Rightarrow>
               Inr [account_meta_new_readonly (sm_vault market) False,
                    account_meta_new_readonly (sm_vault quote_market) False]))"

definition build_jit_tx :: "('l, 'v) tx_env \<Rightarrow> (u16 \<Rightarrow> sdk_error + spot_market) \<Rightarrow> jit_ix_params \<Rightarrow>
    u16 option \<Rightarrow> ('st, 'cfg) jit_proxy_client \<Rightarrow> ('l, 'v) versioned_message res" where
  "build_jit_tx T spot_market_info params sub_account_id s =
     (let C = tx_chain T; wallet = dc_wallet (jc_drift_client s) in
      bindE (of_opt (Err JitOrderNotFound)
        (find (\<lambda>order. o_order_id order = jp_taker_order_id params) (u_orders (jp_taker params)))) (\<lambda>order.
      bindE (init_tx (wallet_sub_account C wallet (case sub_account_id of Some i \<Rightarrow> i | None \<Rightarrow> 0)) False
        (jc_drift_client s)) (\<lambda>tx_builder.
      let program_data = tb_program_data tx_builder; account_data = tb_account_data tx_builder;
          writable = (case o_market_type order of
              market_type.Perp \<Rightarrow> [market_id_perp (o_market_index order)]
            | market_type.Spot \<Rightarrow> [market_id_spot (o_market_index order), QUOTE_SPOT]) in
      bindE (build_accounts C program_data
        (to_account_metas T (JitAccounts (state_account C) (wallet_default_sub_account C wallet)
          (derive_stats_account C (wl_authority wallet) (drift_ID C)) (jp_taker_key params)
          (jp_taker_stats_key params) (wl_authority wallet) (drift_ID C)))
        [jp_taker params, account_data] [] writable) (\<lambda>accounts.
      let accounts = (case jp_referrer_info params of
            Some r \<Rightarrow> accounts @ [account_meta_new (ri_referrer r) False, account_meta_new (ri_referrer_stats r) False]
          | None \<Rightarrow> accounts) in
      bindE (if o_market_type order = market_type.Spot
        then bindE (jit_vault_metas spot_market_info (o_market_index order)) (\<lambda>metas. Inr (accounts @ metas))
        else Inr accounts) (\<lambda>accounts.
      bindE (of_opt (Panic ''called `Option::unwrap()` on a `None` value'') (jp_price_type params)) (\<lambda>price_type.
      let ix = \<lparr>ix_program_id = jit_proxy_id T, ix_accounts = accounts,
            ix_data = JitData (jp_taker_order_id params) (jp_max_position params) (jp_min_position params)
              (jp_bid params) (jp_ask params) price_type (jp_post_only params)\<rparr>;
          ixs = (case jc_cu_params s of
            Some cu_params \<Rightarrow>
              [compute_budget T (SetComputeUnitPrice (cb_microlamports_per_cu cu_params)),
               compute_budget T (SetComputeUnitLimit (cb_cu_limit cu_params))]
          | None \<Rightarrow> []) @ [ix] in
      bindE (of_opt (Panic ''failed to compile message'')
        (message_try_compile T (wl_authority wallet) ixs [pd_lookup_table program_data])) (\<lambda>message.
      Inr (V0 message))))))))"

text \<open>Sending the jit transaction with the client's configuration; \<open>send\<close> is the client's method.\<close>

definition jit :: "('l, 'v) tx_env \<Rightarrow> (u16 \<Rightarrow> sdk_error + spot_market) \<Rightarrow>
    (('l, 'v) versioned_message \<Rightarrow> 'cfg \<Rightarrow> sdk_error + signature) \<Rightarrow> jit_ix_params \<Rightarrow> u16 option \<Rightarrow>
    ('st, 'cfg) jit_proxy_client \<Rightarrow> signature res" where
  "jit T spot_market_info send params sub_account_id s =
     bindE (build_jit_tx T spot_market_info params sub_account_id s) (\<lambda>tx.
     case send tx (jc_config s) of Inl e \<Rightarrow> Inl (Err e) | Inr sig \<Rightarrow> Inr sig)"

section \<open>Properties\<close>

text \<open>
  A jit transaction is the same whatever sub-account it is asked for: its user is the default
  sub-account and its account data that of the client's active one.
\<close>

theorem jit_ignores_sub_account:
  shows "build_jit_tx T spot_market_info params sub_account_id s = build_jit_tx T spot_market_info params None s"
  by (simp add: build_jit_tx_def init_tx_def transaction_builder_new_def Let_def bindE_def split: sum.split)

text \<open>
  Without the taker's order the jit transaction is refused, before anything else is looked at.
\<close>

theorem jit_needs_order:
  assumes "\<forall>order\<in>set (u_orders (jp_taker params)). o_order_id order \<noteq> jp_taker_order_id params"
  shows "jit T spot_market_info send params sub_account_id s = Inl (Err JitOrderNotFound)"
proof -
  have "find (\<lambda>order. o_order_id order = jp_taker_order_id params) (u_orders (jp_taker params)) = None"
    using assms by (auto simp: find_None_iff)
  then show ?thesis by (simp add: jit_def build_jit_tx_def Let_def)
qed

theorem jit_needs_order_witness:
  "jit sample_tx (\<lambda>_. Inl InvalidAccount) (\<lambda>_ _. Inr [])
     (jit_ix_params_new 7 8 sample_user 12 10 (- 10) 1 2 (Some 0) None None) None
     (jit_proxy_client_new () sample_client None None) = Inl (Err JitOrderNotFound)"
  by (rule jit_needs_order) (simp add: jit_ix_params_new_def sample_user_def)

end
