(* ===== verification/Text_Utils.thy ===== *)
theory Text_Utils
  imports Program_Data
begin

text \<open>
  \<open>src/src/utils.rs\<close>: URLs, keys written as text, account data and the address lookup table. Text is
  ASCII. Decoding base58 and base64, making a key pair from bytes and deserializing an account belong
  to other crates and are parameters; so is the answer of the file system.
\<close>

section \<open>Text\<close>

definition strip_prefix :: "string \<Rightarrow> string \<Rightarrow> string option" where
  "strip_prefix prefix s = (if take (length prefix) s = prefix then Some (drop (length prefix) s) else None)"

lemma strip_prefix_append [simp]: "strip_prefix p (p @ s) = Some s"
  by (simp add: strip_prefix_def)

lemma strip_prefix_Some: "strip_prefix p s = Some r \<longleftrightarrow> s = p @ r"
  by (auto simp: strip_prefix_def) (metis append_take_drop_id)

definition starts_with :: "string \<Rightarrow> string \<Rightarrow> bool" where
  "starts_with s prefix \<longleftrightarrow> strip_prefix prefix s \<noteq> None"

definition ends_with :: "string \<Rightarrow> string \<Rightarrow> bool" where
  "ends_with s suffix \<longleftrightarrow> strip_prefix (rev suffix) (rev s) \<noteq> None"

definition trim_end_matches :: "char \<Rightarrow> string \<Rightarrow> string" where
  "trim_end_matches c s = rev (dropWhile ((=) c) (rev s))"

text \<open>\<open>replacen\<close> with one replacement: the first occurrence.\<close>

fun replace_first :: "string \<Rightarrow> string \<Rightarrow> string \<Rightarrow> string" where
  "replace_first from to [] = (if from = [] then to else [])"
| "replace_first from to (c # s) =
     (case strip_prefix from (c # s) of Some r \<Rightarrow> to @ r | None \<Rightarrow> c # replace_first from to s)"

lemma replace_first_prefix [simp]: "from \<noteq> [] \<Longrightarrow> replace_first from to (from @ s) = to @ s"
  using strip_prefix_append [of "from" s] by (cases "from") simp_all

text \<open>\<open>split\<close> at a character: one piece more than there are separators.\<close>

fun split_at :: "char \<Rightarrow> string \<Rightarrow> string list" where
  "split_at c [] = [[]]"
| "split_at c (x # s) =
     (if x = c then [] # split_at c s
      else case split_at c s of p # ps \<Rightarrow> (x # p) # ps | [] \<Rightarrow> [[x]])"

definition is_digit :: "char \<Rightarrow> bool" where
  "is_digit c \<longleftrightarrow> 48 \<le> (of_char c :: nat) \<and> (of_char c :: nat) < 58"

lemma dec_all_digits: "c \<in> set (dec n) \<Longrightarrow> is_digit c"
  using dec_digits [of c n] by (simp add: is_digit_def)

lemma dec_not_Nil [simp]: "dec n \<noteq> []"
  by (subst dec.simps) simp

text \<open>\<open>parse\<close> of an unsigned integer of a given width: an optional plus sign and at least one digit.\<close>

definition parse_unsigned :: "nat \<Rightarrow> string \<Rightarrow> nat option" where
  "parse_unsigned w s =
     (let digits = (case s of c # r \<Rightarrow> if c = CHR ''+'' then r else s | [] \<Rightarrow> []) in
      if digits \<noteq> [] \<and> list_all is_digit digits \<and> undec digits < 2 ^ w then Some (undec digits) else None)"

lemma parse_unsigned_dec: "n < 2 ^ w \<Longrightarrow> parse_unsigned w (dec n) = Some n"
proof -
  assume n: "n < 2 ^ w"
  obtain c r where c: "dec n = c # r" by (cases "dec n") simp_all
  then have "is_digit c" using dec_all_digits [of c n] by simp
  then have "c \<noteq> CHR ''+''" by (auto simp: is_digit_def)
  moreover have "list_all is_digit (dec n)" by (simp add: list_all_iff dec_all_digits)
  ultimately show ?thesis
    using n c undec_dec [of n] by (simp add: parse_unsigned_def)
qed

section \<open>URLs\<close>

definition http_to_ws :: "string \<Rightarrow> string + string" where
  "http_to_ws url =
     (if starts_with url ''http://'' then
        Inr (trim_end_matches CHR ''/'' (replace_first ''http://'' ''ws://'' url) @ ''/ws'')
      else if starts_with url ''https://'' then
        Inr (trim_end_matches CHR ''/'' (replace_first ''https://'' ''wss://'' url) @ ''/ws'')
      else Inl ''Invalid URL scheme'')"

definition get_ws_url :: "string \<Rightarrow> string + string" where
  "get_ws_url url =
     (if starts_with url ''http://'' then Inr (replace_first ''http://'' ''ws://'' url)
      else if starts_with url ''https://'' then Inr (replace_first ''https://'' ''wss://'' url)
      else if starts_with url ''wss://'' \<or> starts_with url ''ws://'' then Inr url
      else Inl ''Invalid URL scheme'')"

text \<open>The fields of the subscription message, which is printed as JSON.\<close>

definition dlob_subscribe_ws_json :: "string \<Rightarrow> (string \<times> string) list" where
  "dlob_subscribe_ws_json market =
     [(''type'', ''subscribe''),
      (''marketType'', if ends_with market ''perp'' then ''perp'' else ''spot''),
      (''channel'', ''orderbook''), (''market'', market)]"

section \<open>Keys\<close>

record 'k key_env =
  keypair_from_bytes :: "u8 list \<Rightarrow> 'k option"
  base58_decode :: "string \<Rightarrow> u8 list option"
  key_base64_decode :: "string \<Rightarrow> u8 list option"

definition key_padding :: string where "key_padding = [CHR '' '', CHR 0x0A, CHR 0x0D, CHR ''['', CHR '']'']"

fun collect_opt :: "'a option list \<Rightarrow> 'a list option" where
  "collect_opt [] = Some []"
| "collect_opt (None # xs) = None"
| "collect_opt (Some x # xs) = map_option ((#) x) (collect_opt xs)"

definition read_keypair_str_multi_format :: "'k key_env \<Rightarrow> string \<Rightarrow> sdk_error + 'k" where
  "read_keypair_str_multi_format K key =
     (let key = filter (\<lambda>c. c \<notin> set key_padding) key in
      if CHR '','' \<in> set key then
        (case collect_opt (map (\<lambda>x. map_option of_nat (parse_unsigned 8 x)) (split_at CHR '','' key)) of
           Some bytes \<Rightarrow> of_opt InvalidSeed (keypair_from_bytes K bytes)
         | None \<Rightarrow> Inl InvalidSeed)
      else
        (case base58_decode K key of
           Some bytes \<Rightarrow> of_opt InvalidSeed (keypair_from_bytes K bytes)
         | None \<Rightarrow>
             (case key_base64_decode K key of
                Some bytes \<Rightarrow> of_opt InvalidSeed (keypair_from_bytes K bytes)
              | None \<Rightarrow> Inl InvalidSeed)))"

text \<open>\<open>read_to_string\<close> holds the text of the files that can be read.\<close>

definition load_keypair_multi_format ::
  "'k key_env \<Rightarrow> (string \<Rightarrow> string option) \<Rightarrow> string \<Rightarrow> sdk_error + 'k" where
  "load_keypair_multi_format K read_to_string path_or_key =
     (case read_to_string path_or_key of
        Some data \<Rightarrow> read_keypair_str_multi_format K data
      | None \<Rightarrow> read_keypair_str_multi_format K path_or_key)"

section \<open>Account data\<close>

definition LOOKUP_TABLE_META_SIZE :: nat where "LOOKUP_TABLE_META_SIZE = 56"

fun chunks32 :: "u8 list \<Rightarrow> u8 list list" where
  "chunks32 bs = (if bs = [] then [] else take 32 bs # chunks32 (drop 32 bs))"

declare chunks32.simps [simp del]

lemma chunks32_Nil [simp]: "chunks32 [] = []"
  by (simp add: chunks32.simps)

text \<open>A key is its 32 bytes, the first the most significant.\<close>

definition pubkey_of_bytes :: "u8 list \<Rightarrow> pubkey" where
  "pubkey_of_bytes bs = word_rcat bs"

definition deserialize_alt :: "pubkey \<Rightarrow> u8 list \<Rightarrow> sdk_error + lookup_table" where
  "deserialize_alt address data =
     (if length data < LOOKUP_TABLE_META_SIZE then Inl InvalidAccount
      else
        let raw_addresses_data = drop LOOKUP_TABLE_META_SIZE data in
        if length raw_addresses_data mod 32 \<noteq> 0 then Inl InvalidAccount
        else Inr \<lparr>lt_key = address, lt_addresses = map pubkey_of_bytes (chunks32 raw_addresses_data)\<rparr>)"

text \<open>Account data of an update: base64 text with its encoding, or something else.\<close>

datatype ui_account_data = Binary string | OtherAccountData

definition decode_account :: "(string \<Rightarrow> ext_error + u8 list) \<Rightarrow> (u8 list \<Rightarrow> ext_error + 'a) \<Rightarrow>
    ui_account_data \<Rightarrow> sdk_error + 'a" where
  "decode_account base64 try_deserialize data =
     (case data of
        Binary data_str \<Rightarrow>
          (case base64 data_str of
             Inl e \<Rightarrow> Inl (CouldntDecode e)
           | Inr decoded_data \<Rightarrow> map_sum Anchor id (try_deserialize decoded_data))
      | OtherAccountData \<Rightarrow> Inl UnsupportedAccountData)"

definition deserialize_account :: "(u8 list \<Rightarrow> ext_error + 'a) \<Rightarrow> u8 list \<Rightarrow> 'a option" where
  "deserialize_account try_deserialize data =
     (case try_deserialize data of Inr x \<Rightarrow> Some x | Inl _ \<Rightarrow> None)"

text \<open>The discriminator, which is eight bytes, followed by the bytes of the value.\<close>

definition zero_account_to_bytes :: "u8 list \<Rightarrow> ('a \<Rightarrow> u8 list) \<Rightarrow> 'a \<Rightarrow> u8 list" where
  "zero_account_to_bytes discriminator raw account = discriminator @ raw account"

section \<open>Facts about the utilities\<close>

lemma starts_with_iff: "starts_with s p \<longleftrightarrow> (\<exists>r. s = p @ r)"
  by (auto simp: starts_with_def strip_prefix_Some)

lemma split_at_simple: "c \<notin> set s \<Longrightarrow> split_at c s = [s]"
  by (induction s) auto

lemma split_at_append: "c \<notin> set s \<Longrightarrow> split_at c (s @ c # t) = s # split_at c t"
  by (induction s) auto

text \<open>A list of numbers as text: the numbers in decimal, with commas between them.\<close>

fun comma_list :: "u8 list \<Rightarrow> string" where
  "comma_list [] = []"
| "comma_list [b] = dec (unat b)"
| "comma_list (b # bs) = dec (unat b) @ CHR '','' # comma_list bs"

lemma no_comma_in_dec: "CHR '','' \<notin> set (dec n)"
  using dec_digits [of "CHR '',''" n] by auto

lemma split_comma_list: "bs \<noteq> [] \<Longrightarrow> split_at CHR '','' (comma_list bs) = map (\<lambda>b. dec (unat b)) bs"
  by (induction bs rule: comma_list.induct) (simp_all add: split_at_simple split_at_append no_comma_in_dec)

lemma collect_opt_Some: "collect_opt (map (\<lambda>x. Some (f x)) xs) = Some (map f xs)"
  by (induction xs) simp_all

lemma parse_byte: "parse_unsigned 8 (dec (unat (b :: u8))) = Some (unat b)"
proof -
  have "unat b < 2 ^ LENGTH(8)" by (rule unsigned_less)
  then have "unat b < 2 ^ 8" by simp
  then show ?thesis by (rule parse_unsigned_dec)
qed

lemma comma_list_has_comma: "2 \<le> length bs \<Longrightarrow> CHR '','' \<in> set (comma_list bs)"
  by (induction bs rule: comma_list.induct) simp_all

lemma chunks32_concat:
  "\<forall>b\<in>set bss. length b = 32 \<Longrightarrow> chunks32 (concat bss) = bss"
proof (induction bss)
  case (Cons b bss)
  then have "b \<noteq> []" "length b = 32" by auto
  with Cons show ?case by (subst chunks32.simps) simp
qed (simp add: chunks32.simps)

lemma bytes_of_pubkey_rev: "bytes_of_pubkey k = rev (map (\<lambda>i. ucast (drop_bit (8 * i) k)) [0..<32])"
proof -
  have "[0..<32] ! (31 - i) = 31 - i" for i :: nat
    by (subst nth_upt) simp_all
  then show ?thesis by (intro nth_equalityI) (simp_all add: bytes_of_pubkey_def rev_nth)
qed

lemma bytes_of_pubkey_length: "length (bytes_of_pubkey k) = 32"
  by (simp add: bytes_of_pubkey_def)

lemma take_bit_8: "take_bit (8 * Suc n) x = take_bit (8 * n) x + 2 ^ (8 * n) * take_bit 8 (drop_bit (8 * n) x)"
  for x :: int
proof -
  have "(2 :: int) ^ (8 * Suc n) = 2 ^ (8 * n) * 2 ^ 8" by (simp add: power_add)
  then show ?thesis
    by (simp only: take_bit_eq_mod drop_bit_eq_div) (subst zmod_zmult2_eq, simp_all)
qed

lemma horner_bytes:
  "horner_sum uint (2 ^ LENGTH(8)) (map (\<lambda>i. ucast (drop_bit (8 * i) k) :: u8) [0..<n]) =
    take_bit (8 * n) (uint (k :: pubkey))"
proof (induction n)
  case (Suc n)
  have "take_bit 256 (uint k) = uint k"
    using uint_range [of k] by (intro take_bit_int_eq_self) simp_all
  with Suc show ?case
    unfolding take_bit_8
    by (simp add: horner_sum_append unsigned_ucast_eq unsigned_drop_bit_eq power_mult)
qed simp

lemma pubkey_of_bytes_of: "pubkey_of_bytes (bytes_of_pubkey k) = k"
proof -
  have "take_bit 256 (uint k) = uint k"
    using uint_range [of k] by (intro take_bit_int_eq_self) simp_all
  then show ?thesis
    using horner_bytes [of k 32]
    by (simp add: pubkey_of_bytes_def bytes_of_pubkey_rev word_rcat_def del: upt.simps upt_rec_numeral)
qed

section \<open>Properties\<close>

text \<open>
  A key written as the numbers of its bytes is read back, whatever spaces, line breaks and brackets are
  put around or between the numbers.
\<close>

theorem keypair_text_roundtrip:
  assumes "filter (\<lambda>c. c \<notin> set key_padding) key = comma_list bytes" and "2 \<le> length bytes"
  shows "read_keypair_str_multi_format K key = of_opt InvalidSeed (keypair_from_bytes K bytes)"
proof -
  have "map (\<lambda>x. map_option of_nat (parse_unsigned 8 x)) (split_at CHR '','' (comma_list bytes)) =
      map (\<lambda>b. Some b) bytes"
    using assms(2) by (subst split_comma_list) (auto simp: parse_byte)
  then have "collect_opt (map (\<lambda>x. map_option of_nat (parse_unsigned 8 x))
      (split_at CHR '','' (comma_list bytes))) = Some bytes"
    using collect_opt_Some [of "\<lambda>b. b" bytes] by simp
  then show ?thesis
    using assms comma_list_has_comma [OF assms(2)]
    by (simp add: read_keypair_str_multi_format_def Let_def)
qed

definition sample_keys :: "u8 list key_env" where
  "sample_keys = \<lparr>keypair_from_bytes = (\<lambda>bs. if length bs = 3 then Some bs else None),
     base58_decode = (\<lambda>_. None), key_base64_decode = (\<lambda>_. None)\<rparr>"

theorem keypair_text_roundtrip_witness:
  "read_keypair_str_multi_format sample_keys ''[17, 188, 5]'' = Inr [17, 188, 5]"
proof -
  have dec: "dec 17 = ''17''" "dec 188 = ''188''" "dec 5 = ''5''"
    by code_simp+
  have "filter (\<lambda>c. c \<notin> set key_padding) ''[17, 188, 5]'' = comma_list [17, 188, 5]"
    by (simp add: key_padding_def dec)
  from keypair_text_roundtrip [OF this, of sample_keys] show ?thesis by (simp add: sample_keys_def)
qed

text \<open>A lookup table's account data gives back the addresses it was made of, after its header.\<close>

theorem lookup_table_roundtrip:
  assumes "length meta = LOOKUP_TABLE_META_SIZE"
  shows "deserialize_alt address (meta @ concat (map bytes_of_pubkey keys)) =
    Inr \<lparr>lt_key = address, lt_addresses = keys\<rparr>"
proof -
  have "length (concat (map bytes_of_pubkey keys)) = 32 * length keys"
    by (induction keys) (simp_all add: bytes_of_pubkey_length)
  moreover have "chunks32 (concat (map bytes_of_pubkey keys)) = map bytes_of_pubkey keys"
    by (rule chunks32_concat) (auto simp: bytes_of_pubkey_length)
  ultimately show ?thesis
    using assms by (simp add: deserialize_alt_def Let_def pubkey_of_bytes_of comp_def)
qed

theorem lookup_table_roundtrip_witness:
  "deserialize_alt 7 (replicate 56 0 @ concat (map bytes_of_pubkey [5, 6])) =
    Inr \<lparr>lt_key = 7, lt_addresses = [5, 6]\<rparr>"
  by (rule lookup_table_roundtrip) (simp add: LOOKUP_TABLE_META_SIZE_def)

text \<open>The websocket URL of a websocket URL is that URL itself.\<close>

lemma get_ws_url_ws:
  "get_ws_url (''ws://'' @ r) = Inr (''ws://'' @ r)" "get_ws_url (''wss://'' @ r) = Inr (''wss://'' @ r)"
  by (simp_all add: get_ws_url_def starts_with_def strip_prefix_def)

lemma get_ws_url_idempotent:
  assumes "get_ws_url url = Inr w"
  shows "get_ws_url w = Inr w"
proof -
  have "\<exists>r. w = ''ws://'' @ r \<or> w = ''wss://'' @ r"
    using assms replace_first_prefix [of "''http://''" "''ws://''"] replace_first_prefix [of "''https://''" "''wss://''"]
    unfolding get_ws_url_def starts_with_iff by (auto simp del: append.simps replace_first.simps split: if_splits)
  then show ?thesis using get_ws_url_ws by blast
qed

lemma trim_slashes:
  assumes "host \<noteq> []" and "last host \<noteq> CHR ''/''"
  shows "trim_end_matches CHR ''/'' (host @ replicate n CHR ''/'') = host"
proof -
  have "dropWhile ((=) CHR ''/'') (replicate n CHR ''/'' @ rev host) = dropWhile ((=) CHR ''/'') (rev host)"
    by (induction n) simp_all
  also have "\<dots> = rev host" using assms by (cases host rule: rev_cases) simp_all
  finally show ?thesis by (simp add: trim_end_matches_def)
qed

lemma http_to_ws_shape:
  assumes "host \<noteq> []" and "last host \<noteq> CHR ''/''"
  shows "http_to_ws (''http://'' @ host @ replicate n CHR ''/'') = Inr (''ws://'' @ host @ ''/ws'')"
    and "http_to_ws (''https://'' @ host @ replicate n CHR ''/'') = Inr (''wss://'' @ host @ ''/ws'')"
  using trim_slashes [of "''ws://'' @ host" n] trim_slashes [of "''wss://'' @ host" n] assms
  by (simp_all add: http_to_ws_def starts_with_def strip_prefix_def)

end
