(* ===== verification/Drift_Events.thy ===== *)
theory Drift_Events
  imports Event_Flow Text_Utils
begin

text \<open>
  The events of \<open>src/src/event_subscriber.rs\<close>: the event type, the conversion of the program's
  records, and parsing of a line of a transaction's log. Text is ASCII.

  The records, their discriminators and deserializers belong to the program crate; records have the
  fields that are read here. Decoding base64 belongs to another crate too.
\<close>

section \<open>Records of the program\<close>

datatype order_action = Place | Cancel | Fill | Trigger | Expire

datatype order_action_explanation = OrderExpired | OtherExplanation u8

record order_action_record =
  ar_ts :: i64
  ar_action :: order_action
  ar_action_explanation :: order_action_explanation
  ar_market_index :: u16
  ar_market_type :: market_type
  ar_filler_reward :: "u64 option"
  ar_base_asset_amount_filled :: "u64 option"
  ar_quote_asset_amount_filled :: "u64 option"
  ar_taker_fee :: "u64 option"
  ar_maker_fee :: "i64 option"
  ar_taker :: "pubkey option"
  ar_taker_order_id :: "u32 option"
  ar_taker_order_direction :: "position_direction option"
  ar_maker :: "pubkey option"
  ar_maker_order_id :: "u32 option"
  ar_maker_order_direction :: "position_direction option"
  ar_oracle_price :: i64

record order_record =
  rr_ts :: i64
  rr_user :: pubkey
  rr_order :: order

record funding_payment_record =
  fr_ts :: i64
  fr_user :: pubkey
  fr_market_index :: u16
  fr_funding_payment :: i64

record event_env =
  ev_base64_decode :: "string \<Rightarrow> u8 list option"
  oar_discriminator :: "u8 list"
  oar_deserialize :: "u8 list \<Rightarrow> order_action_record option"
  order_record_discriminator :: "u8 list"
  order_record_deserialize :: "u8 list \<Rightarrow> order_record option"
  funding_discriminator :: "u8 list"
  funding_deserialize :: "u8 list \<Rightarrow> funding_payment_record option"

section \<open>Events\<close>

datatype drift_event =
    OrderFill (de_maker: "pubkey option") (de_maker_fee: i64) (de_maker_order_id: u32)
      (de_maker_side: "position_direction option") (de_taker: "pubkey option") (de_taker_fee: u64)
      (de_taker_order_id: u32) (de_taker_side: "position_direction option")
      (de_base_asset_amount_filled: u64) (de_quote_asset_amount_filled: u64) (de_market_index: u16)
      (de_market_type: market_type) (de_oracle_price: i64) (de_signature: string) (de_tx_idx: nat)
      (de_ts: u64)
  | OrderCancel (de_taker: "pubkey option") (de_maker: "pubkey option") (de_taker_order_id: u32)
      (de_maker_order_id: u32) (de_signature: string) (de_tx_idx: nat) (de_ts: u64)
  | OrderCancelMissing (de_user_order_id: u8) (de_order_id: u32) (de_signature: string)
  | OrderCreate (de_order: order) (de_user: pubkey) (de_ts: u64) (de_signature: string) (de_tx_idx: nat)
  | OrderExpire (de_order_id: u32) (de_expired_user: "pubkey option") (de_fee: u64) (de_ts: u64)
      (de_signature: string) (de_tx_idx: nat)
  | FundingPayment (de_amount: i64) (de_market_index: u16) (de_user: pubkey) (de_ts: u64)
      (de_signature: string) (de_tx_idx: nat)

fun pertains_to :: "drift_event \<Rightarrow> pubkey \<Rightarrow> bool" where
  "pertains_to (OrderCancel taker maker _ _ _ _ _) sub_account \<longleftrightarrow>
     maker = Some sub_account \<or> taker = Some sub_account"
| "pertains_to (OrderFill maker _ _ _ taker _ _ _ _ _ _ _ _ _ _ _) sub_account \<longleftrightarrow>
     maker = Some sub_account \<or> taker = Some sub_account"
| "pertains_to (OrderCreate _ user _ _ _) sub_account \<longleftrightarrow> user = sub_account"
| "pertains_to (OrderExpire _ user _ _ _ _) sub_account \<longleftrightarrow> user = Some sub_account"
| "pertains_to (OrderCancelMissing _ _ _) sub_account \<longleftrightarrow> True"
| "pertains_to (FundingPayment _ _ user _ _ _) sub_account \<longleftrightarrow> user = sub_account"

definition unwrap_or :: "'a \<Rightarrow> 'a option \<Rightarrow> 'a" where
  "unwrap_or d x = (case x of None \<Rightarrow> d | Some v \<Rightarrow> v)"

definition opt_or :: "'a option \<Rightarrow> 'a option \<Rightarrow> 'a option" where
  "opt_or x y = (case x of None \<Rightarrow> y | Some v \<Rightarrow> Some v)"

definition from_funding_payment_record :: "funding_payment_record \<Rightarrow> string \<Rightarrow> nat \<Rightarrow> drift_event" where
  "from_funding_payment_record r signature tx_idx =
     FundingPayment (fr_funding_payment r) (fr_market_index r) (fr_user r) (unsigned_abs (fr_ts r))
       signature tx_idx"

definition from_order_record :: "order_record \<Rightarrow> string \<Rightarrow> nat \<Rightarrow> drift_event option" where
  "from_order_record r signature tx_idx =
     Some (OrderCreate (rr_order r) (rr_user r) (unsigned_abs (rr_ts r)) signature tx_idx)"

definition from_oar :: "order_action_record \<Rightarrow> string \<Rightarrow> nat \<Rightarrow> drift_event option res" where
  "from_oar r signature tx_idx =
     (case ar_action r of
        Cancel \<Rightarrow>
          if ar_action_explanation r = OrderExpired then
            bindE (of_opt (Panic ''order id set'') (opt_or (ar_maker_order_id r) (ar_taker_order_id r))) (\<lambda>order_id.
            Inr (Some (OrderExpire order_id (opt_or (ar_maker r) (ar_taker r))
              (unwrap_or 0 (ar_filler_reward r)) (unsigned_abs (ar_ts r)) signature tx_idx)))
          else Inr (Some (OrderCancel (ar_taker r) (ar_maker r) (unwrap_or 0 (ar_taker_order_id r))
            (unwrap_or 0 (ar_maker_order_id r)) signature tx_idx (unsigned_abs (ar_ts r))))
      | Fill \<Rightarrow> Inr (Some (OrderFill (ar_maker r) (unwrap_or 0 (ar_maker_fee r))
          (unwrap_or 0 (ar_maker_order_id r)) (ar_maker_order_direction r) (ar_taker r)
          (unwrap_or 0 (ar_taker_fee r)) (unwrap_or 0 (ar_taker_order_id r)) (ar_taker_order_direction r)
          (unwrap_or 0 (ar_base_asset_amount_filled r)) (unwrap_or 0 (ar_quote_asset_amount_filled r))
          (ar_market_index r) (ar_market_type r) (ar_oracle_price r) signature tx_idx
          (unsigned_abs (ar_ts r))))
      | Place \<Rightarrow> Inr None
      | Expire \<Rightarrow> Inr None
      | Trigger \<Rightarrow> Inr None)"

definition from_discriminant :: "event_env \<Rightarrow> u8 list \<Rightarrow> u8 list \<Rightarrow> string \<Rightarrow> nat \<Rightarrow> drift_event option res" where
  "from_discriminant E disc data signature tx_idx =
     (if disc = oar_discriminator E then
        bindE (of_opt (Panic ''deserializes'') (oar_deserialize E data)) (\<lambda>r. from_oar r signature tx_idx)
      else if disc = order_record_discriminator E then
        bindE (of_opt (Panic ''deserializes'') (order_record_deserialize E data)) (\<lambda>r.
        Inr (from_order_record r signature tx_idx))
      else if disc = funding_discriminator E then
        bindE (of_opt (Panic ''deserializes'') (funding_deserialize E data)) (\<lambda>r.
        Inr (Some (from_funding_payment_record r signature tx_idx)))
      else Inr None)"

section \<open>Log lines\<close>

definition PROGRAM_LOG :: string where "PROGRAM_LOG = ''Program log: ''"

definition PROGRAM_DATA :: string where "PROGRAM_DATA = ''Program data: ''"

text \<open>
  The pattern \<open>could not find( user){0,1} order id (\d+)\<close>: the leftmost match, with whether the first
  group took part and the digits of the second, as many as there are.
\<close>

definition cancel_missing_at :: "string \<Rightarrow> (bool \<times> string) option" where
  "cancel_missing_at s =
     Option.bind (strip_prefix ''could not find'' s) (\<lambda>s.
     let (user, s) = (case strip_prefix '' user'' s of Some s' \<Rightarrow> (True, s') | None \<Rightarrow> (False, s)) in
     Option.bind (strip_prefix '' order id '' s) (\<lambda>s.
     let digits = takeWhile is_digit s in if digits = [] then None else Some (user, digits)))"

fun cancel_missing_captures :: "string \<Rightarrow> (bool \<times> string) option" where
  "cancel_missing_captures [] = cancel_missing_at []"
| "cancel_missing_captures (c # s) =
     (case cancel_missing_at (c # s) of Some m \<Rightarrow> Some m | None \<Rightarrow> cancel_missing_captures s)"

definition try_parse_log :: "event_env \<Rightarrow> string \<Rightarrow> string \<Rightarrow> nat \<Rightarrow> drift_event option res" where
  "try_parse_log E raw signature tx_idx =
     (case opt_or (strip_prefix PROGRAM_LOG raw) (strip_prefix PROGRAM_DATA raw) of
        None \<Rightarrow> Inr None
      | Some log \<Rightarrow>
          (case ev_base64_decode E log of
             Some borsh_bytes \<Rightarrow>
               bindE (guardE (8 \<le> length borsh_bytes) (Panic ''mid > len'')) (\<lambda>_.
               from_discriminant E (take 8 borsh_bytes) (drop 8 borsh_bytes) signature tx_idx)
           | None \<Rightarrow>
               (case cancel_missing_captures log of
                  None \<Rightarrow> Inr None
                | Some (user, digits) \<Rightarrow>
                    bindE (guardE (undec digits < 2 ^ 32) (Panic ''<u32'')) (\<lambda>_.
                    let order_id = of_nat (undec digits) :: u32 in
                    Inr (Some (if user then OrderCancelMissing (ucast order_id) 0 signature
                      else OrderCancelMissing 0 order_id signature))))))"

end
