(* ===== verification/Event_Stream.thy ===== *)
theory Event_Stream
  imports Drift_Events
begin

text \<open>
  The two event streams of \<open>src/src/event_subscriber.rs\<close>: one fed by the node's log subscription, one
  that polls the transactions of an account. Both send to a channel of 64 events through a cache of
  transaction signatures that keeps them from sending the events of a transaction twice.

  A stream is the state of its cache and its channel: the events waiting and those the consumer has
  taken. A panic ends the task.
\<close>

section \<open>The cache of signatures\<close>

record tx_signature_cache =
  tc_capacity :: nat
  tc_entries :: "string set"
  tc_age :: "string list"

definition tx_signature_cache_new :: "nat \<Rightarrow> tx_signature_cache" where
  "tx_signature_cache_new capacity = \<lparr>tc_capacity = capacity, tc_entries = {}, tc_age = []\<rparr>"

definition cache_contains :: "tx_signature_cache \<Rightarrow> string \<Rightarrow> bool" where
  "cache_contains c x \<longleftrightarrow> x \<in> tc_entries c"

definition cache_insert :: "string \<Rightarrow> tx_signature_cache \<Rightarrow> tx_signature_cache" where
  "cache_insert x c =
     (let c = c\<lparr>tc_entries := insert x (tc_entries c), tc_age := tc_age c @ [x]\<rparr> in
      if tc_capacity c \<le> length (tc_age c) then
        (case tc_age c of
           oldest # age \<Rightarrow> c\<lparr>tc_entries := tc_entries c - {oldest}, tc_age := age\<rparr>
         | [] \<Rightarrow> c)
      else c)"

section \<open>The channel\<close>

record event_stream =
  es_cache :: tx_signature_cache
  es_queue :: "drift_event list"
  es_taken :: "drift_event list"

definition channel_capacity :: nat where "channel_capacity = 64"

definition event_stream_new :: "nat \<Rightarrow> event_stream" where
  "event_stream_new capacity =
     \<lparr>es_cache = tx_signature_cache_new capacity, es_queue = [], es_taken = []\<rparr>"

definition try_send :: "drift_event \<Rightarrow> event_stream \<Rightarrow> event_stream res" where
  "try_send event s =
     (if length (es_queue s) < channel_capacity then Inr (s\<lparr>es_queue := es_queue s @ [event]\<rparr>)
      else Inl (Panic ''sent''))"

text \<open>The consumer polls the stream.\<close>

definition poll_next :: "event_stream \<Rightarrow> event_stream" where
  "poll_next s =
     (case es_queue s of
        [] \<Rightarrow> s
      | event # queue \<Rightarrow> s\<lparr>es_queue := queue, es_taken := es_taken s @ [event]\<rparr>)"

section \<open>The log stream\<close>

record logs_response =
  lr_signature :: string
  lr_err :: bool
  lr_logs :: "string list"

definition emit_log ::
  "event_env \<Rightarrow> pubkey \<Rightarrow> string \<Rightarrow> event_stream \<Rightarrow> nat \<times> string \<Rightarrow> event_stream res" where
  "emit_log E sub_account signature s = (\<lambda>(tx_idx, log).
     bindE (try_parse_log E log signature tx_idx) (\<lambda>event.
     case event of
       None \<Rightarrow> Inr s
     | Some event \<Rightarrow> if pertains_to event sub_account then try_send event s else Inr s))"

definition process_log ::
  "event_env \<Rightarrow> pubkey \<Rightarrow> logs_response \<Rightarrow> event_stream \<Rightarrow> event_stream res" where
  "process_log E sub_account response s =
     (if lr_err response then Inr s
      else if cache_contains (es_cache s) (lr_signature response) then Inr s
      else
        let s = s\<lparr>es_cache := cache_insert (lr_signature response) (es_cache s)\<rparr> in
        foldE (emit_log E sub_account (lr_signature response)) s
          (List.enumerate 0 (lr_logs response)))"

text \<open>
  One run of the task: it subscribes with the provider it was made with and handles the responses until
  the stream ends. The provider it holds at its end is its own, and goes with it.
\<close>

datatype pubsub_error = ConnectionClosed | OtherPubsubError

definition log_stream_fn :: "event_env \<Rightarrow> pubkey \<Rightarrow> ('p \<Rightarrow> pubsub_error + logs_response list) \<Rightarrow>
    ext_error + 'p \<Rightarrow> 'p \<Rightarrow> event_stream \<Rightarrow> ('p \<times> event_stream) res" where
  "log_stream_fn E sub_account logs_subscribe reconnected provider s =
     (case logs_subscribe provider of
        Inl ConnectionClosed \<Rightarrow>
          Inr (case reconnected of Inr provider' \<Rightarrow> provider' | Inl _ \<Rightarrow> provider, s)
      | Inl OtherPubsubError \<Rightarrow> Inr (provider, s)
      | Inr log_stream \<Rightarrow>
          bindE (foldE (\<lambda>s response. process_log E sub_account response s) s log_stream) (\<lambda>s.
          Inr (provider, s)))"

text \<open>
  The retried task: every run is made from the same captured provider and the shared cache. A run is
  what the node answers: the answers to subscribing per provider, and to reconnecting.
\<close>

definition log_stream_runs :: "event_env \<Rightarrow> pubkey \<Rightarrow> 'p \<Rightarrow>
    (('p \<Rightarrow> pubsub_error + logs_response list) \<times> (ext_error + 'p)) list \<Rightarrow> event_stream \<Rightarrow> event_stream res" where
  "log_stream_runs E sub_account provider runs s =
     foldE (\<lambda>s (logs_subscribe, reconnected).
       bindE (log_stream_fn E sub_account logs_subscribe reconnected provider s) (\<lambda>(_, s). Inr s)) s runs"

definition log_stream :: event_stream where
  "log_stream = event_stream_new 256"

section \<open>The polled stream\<close>

text \<open>
  A transaction as the node returns it: the data about its execution, if any, and the static account
  keys of its message, if that can be decoded.
\<close>

record tx_meta =
  tm_err :: bool
  tm_log_messages :: "string list option"

record encoded_tx =
  et_meta :: "tx_meta option"
  et_account_keys :: "pubkey list option"

record polled_stream =
  ps_stream :: event_stream
  ps_last_seen_tx :: "string option"

definition polled_channel :: event_stream where
  "polled_channel = event_stream_new 128"

definition polled_stream_new :: "sdk_error + string list \<Rightarrow> polled_stream res" where
  "polled_stream_new initial =
     (case initial of
        Inl _ \<Rightarrow> Inl (Panic ''fetched tx'')
      | Inr signatures \<Rightarrow> Inr \<lparr>ps_stream = polled_channel,
          ps_last_seen_tx = (case signatures of [] \<Rightarrow> None | s # _ \<Rightarrow> Some s)\<rparr>)"

definition poll_tx ::
  "event_env \<Rightarrow> pubkey \<Rightarrow> pubkey \<Rightarrow> string \<Rightarrow> encoded_tx \<Rightarrow> event_stream \<Rightarrow> event_stream res" where
  "poll_tx E program_id sub_account signature tx s =
     (if cache_contains (es_cache s) signature then Inr s
      else
        let s = s\<lparr>es_cache := cache_insert signature (es_cache s)\<rparr> in
        case et_meta tx of
          None \<Rightarrow> Inr s
        | Some meta \<Rightarrow>
            if (case et_account_keys tx of Some keys \<Rightarrow> program_id \<notin> set keys | None \<Rightarrow> False) then Inr s
            else if tm_err meta then Inr s
            else
              (case tm_log_messages meta of
                 None \<Rightarrow> Inr s
               | Some logs \<Rightarrow> foldE (emit_log E sub_account signature) s (List.enumerate 0 logs)))"

text \<open>
  The transactions of a batch in chronological order. The first that cannot be fetched ends the batch;
  the next round asks again for what follows the last one seen.
\<close>

fun poll_batch :: "event_env \<Rightarrow> pubkey \<Rightarrow> pubkey \<Rightarrow> (string \<Rightarrow> sdk_error + encoded_tx) \<Rightarrow>
    string list \<Rightarrow> polled_stream \<Rightarrow> polled_stream res" where
  "poll_batch E program_id sub_account get_tx [] s = Inr s"
| "poll_batch E program_id sub_account get_tx (signature # signatures) s =
     (case get_tx signature of
        Inl _ \<Rightarrow> Inr s
      | Inr tx \<Rightarrow>
          let s = s\<lparr>ps_last_seen_tx := Some signature\<rparr> in
          bindE (poll_tx E program_id sub_account signature tx (ps_stream s)) (\<lambda>stream.
          poll_batch E program_id sub_account get_tx signatures (s\<lparr>ps_stream := stream\<rparr>)))"

text \<open>
  A round of the task, on the answers of the node: the signatures after a given one, newest first, and
  the transactions. Signatures that are no valid text of a signature do not occur.
\<close>

type_synonym poll_answers = "(string option \<Rightarrow> sdk_error + string list) \<times> (string \<Rightarrow> sdk_error + encoded_tx)"

definition poll_round ::
  "event_env \<Rightarrow> pubkey \<Rightarrow> pubkey \<Rightarrow> polled_stream \<Rightarrow> poll_answers \<Rightarrow> polled_stream res" where
  "poll_round E program_id sub_account s = (\<lambda>(get_tx_signatures, get_tx).
     case get_tx_signatures (ps_last_seen_tx s) of
       Inl _ \<Rightarrow> Inr s
     | Inr signatures \<Rightarrow> poll_batch E program_id sub_account get_tx (rev signatures) s)"

end
