(* ===== verification/Event_Delivery.thy ===== *)
theory Event_Delivery
  imports Event_Stream
begin

text \<open>
  What the event streams deliver: the cache keeps the newest signatures, the log stream sends the events
  of each transaction once, and the polled stream sends those of all transactions after the first
  answer, in the order of the chain, whatever requests fail in between.
\<close>

section \<open>The cache\<close>

lemma cache_insert_fields [simp]: "tc_capacity (cache_insert x c) = tc_capacity c"
  by (simp add: cache_insert_def Let_def split: list.split)

lemma cache_insert_entries: "tc_entries (cache_insert x c) \<subseteq> insert x (tc_entries c)"
  by (auto simp: cache_insert_def Let_def split: list.split)

lemma cache_insert_small:
  "length (tc_age c) + 1 < tc_capacity c \<Longrightarrow>
    cache_insert x c = c\<lparr>tc_entries := insert x (tc_entries c), tc_age := tc_age c @ [x]\<rparr>"
  by (simp add: cache_insert_def)

definition newest_part :: "nat \<Rightarrow> 'a list \<Rightarrow> 'a list" where
  "newest_part n xs = drop (length xs - n) xs"

lemma newest_part_snoc:
  "newest_part n (xs @ [x]) =
    (if n < length (newest_part n xs @ [x]) then tl (newest_part n xs @ [x]) else newest_part n xs @ [x])"
proof (cases "n \<le> length xs")
  case True
  then have "newest_part n (xs @ [x]) = drop 1 (drop (length xs - n) (xs @ [x]))"
    by (simp add: newest_part_def Suc_diff_le)
  also have "drop (length xs - n) (xs @ [x]) = newest_part n xs @ [x]" by (simp add: newest_part_def)
  also have "drop 1 (newest_part n xs @ [x]) = tl (newest_part n xs @ [x])" by (cases "newest_part n xs") simp_all
  finally show ?thesis using True by (simp add: newest_part_def)
qed (simp add: newest_part_def)

lemma cache_inserts:
  assumes "distinct xs" and "0 < capacity"
  shows "foldl (\<lambda>c x. cache_insert x c) (tx_signature_cache_new capacity) xs =
    \<lparr>tc_capacity = capacity, tc_entries = set (newest_part (capacity - 1) xs),
     tc_age = newest_part (capacity - 1) xs\<rparr>"
  using assms(1)
proof (induction xs rule: rev_induct)
  case (snoc x xs)
  let ?a = "newest_part (capacity - 1) xs"
  have "distinct (?a @ [x])"
    using snoc.prems by (auto simp: newest_part_def dest: in_set_dropD)
  moreover have "length ?a \<le> capacity - 1" by (simp add: newest_part_def)
  ultimately show ?case
    using snoc assms(2)
    by (cases ?a) (auto simp: newest_part_snoc cache_insert_def Let_def)
qed (simp add: tx_signature_cache_new_def newest_part_def)

section \<open>Sending\<close>

definition sent_events :: "event_stream \<Rightarrow> drift_event list" where
  "sent_events s = es_taken s @ es_queue s"

definition response_events :: "event_env \<Rightarrow> pubkey \<Rightarrow> string \<Rightarrow> string list \<Rightarrow> drift_event list res" where
  "response_events E sub_account signature logs =
     bindE (mapE (\<lambda>(tx_idx, log). try_parse_log E log signature tx_idx) (List.enumerate 0 logs)) (\<lambda>events.
     Inr (filter (\<lambda>e. pertains_to e sub_account) (List.map_filter (\<lambda>e. e) events)))"

definition send_all :: "event_stream \<Rightarrow> drift_event list \<Rightarrow> event_stream res" where
  "send_all s events =
     (if length (es_queue s) + length events \<le> channel_capacity
      then Inr (s\<lparr>es_queue := es_queue s @ events\<rparr>) else Inl (Panic ''sent''))"

lemma emit_logs:
  assumes "mapE (\<lambda>(tx_idx, log). try_parse_log E log signature tx_idx) xs = Inr events"
    and "length (es_queue s) \<le> channel_capacity"
  shows "foldE (emit_log E sub_account signature) s xs =
    send_all s (filter (\<lambda>e. pertains_to e sub_account) (List.map_filter (\<lambda>e. e) events))"
  using assms
proof (induction xs arbitrary: s events)
  case (Cons x xs)
  obtain i log where x: "x = (i, log)" by (cases x)
  with Cons.prems(1) obtain e es where e: "try_parse_log E log signature i = Inr e"
    "mapE (\<lambda>(tx_idx, log). try_parse_log E log signature tx_idx) xs = Inr es" "events = e # es"
    by (auto simp: returns)
  show ?case
  proof (cases "\<exists>ev. e = Some ev \<and> pertains_to ev sub_account")
    case False
    then have "emit_log E sub_account signature s x = Inr s"
      by (auto simp: emit_log_def x e split: option.split)
    with Cons.IH [OF e(2) Cons.prems(2)] False show ?thesis
      by (cases e) (simp_all add: e map_filter_simps)
  next
    case True
    then obtain ev where ev: "e = Some ev" "pertains_to ev sub_account" by blast
    then have emit: "emit_log E sub_account signature s x = try_send ev s"
      by (simp add: emit_log_def x e)
    show ?thesis
    proof (cases "length (es_queue s) < channel_capacity")
      case True
      with Cons.IH [OF e(2), of "s\<lparr>es_queue := es_queue s @ [ev]\<rparr>"] ev emit show ?thesis
        by (simp add: e map_filter_simps try_send_def send_all_def)
    next
      case False
      with ev emit show ?thesis by (simp add: e map_filter_simps try_send_def send_all_def)
    qed
  qed
qed (simp add: send_all_def map_filter_simps)

lemma send_response:
  assumes "response_events E sub_account signature logs = Inr events"
    and "length (es_queue s) \<le> channel_capacity"
  shows "foldE (emit_log E sub_account signature) s (List.enumerate 0 logs) = send_all s events"
  using assms emit_logs [of E signature "List.enumerate 0 logs" _ s sub_account]
  by (auto simp: response_events_def returns)

lemma send_all_cases:
  assumes "length (es_queue s) \<le> channel_capacity"
  obtains s' where "send_all s events = Inr s'" "sent_events s' = sent_events s @ events"
      "es_cache s' = es_cache s" "length (es_queue s') \<le> channel_capacity"
    | "send_all s events = Inl (Panic ''sent'')" "channel_capacity < length (sent_events s @ events)"
  using assms
  by (cases "length (es_queue s) + length events \<le> channel_capacity") (auto simp: send_all_def sent_events_def)

lemma poll_next_fields [simp]:
  "sent_events (poll_next s) = sent_events s" "es_cache (poll_next s) = es_cache s"
  "length (es_queue s) \<le> n \<Longrightarrow> length (es_queue (poll_next s)) \<le> n"
  by (auto simp: poll_next_def sent_events_def split: list.split)

section \<open>The log stream\<close>

datatype log_input = Response logs_response | Take

fun log_step :: "event_env \<Rightarrow> pubkey \<Rightarrow> event_stream \<Rightarrow> log_input \<Rightarrow> event_stream res" where
  "log_step E sub_account s (Response r) = process_log E sub_account r s"
| "log_step E sub_account s Take = Inr (poll_next s)"

text \<open>The first response of every transaction that did not fail.\<close>

fun fresh_responses :: "string set \<Rightarrow> log_input list \<Rightarrow> logs_response list" where
  "fresh_responses seen [] = []"
| "fresh_responses seen (Take # inputs) = fresh_responses seen inputs"
| "fresh_responses seen (Response r # inputs) =
     (if lr_err r \<or> lr_signature r \<in> seen then fresh_responses seen inputs
      else r # fresh_responses (insert (lr_signature r) seen) inputs)"

definition caches :: "tx_signature_cache \<Rightarrow> string set \<Rightarrow> bool" where
  "caches c seen \<longleftrightarrow> tc_entries c = seen \<and> set (tc_age c) = seen \<and> distinct (tc_age c)"

lemma log_stream_delivers:
  assumes "\<forall>r\<in>set (fresh_responses seen inputs).
      response_events E sub_account (lr_signature r) (lr_logs r) = Inr (ev r)"
    and "caches (es_cache s) seen"
    and "length (tc_age (es_cache s)) + length (fresh_responses seen inputs) < tc_capacity (es_cache s)"
    and "length (es_queue s) \<le> channel_capacity"
  shows "(\<exists>s'. foldE (log_step E sub_account) s inputs = Inr s' \<and>
      sent_events s' = sent_events s @ concat (map ev (fresh_responses seen inputs))) \<or>
    foldE (log_step E sub_account) s inputs = Inl (Panic ''sent'') \<and>
      channel_capacity < length (sent_events s @ concat (map ev (fresh_responses seen inputs)))"
  using assms
proof (induction seen inputs arbitrary: s rule: fresh_responses.induct)
  case (1 seen)
  then show ?case by simp
next
  case (2 seen inputs)
  then show ?case using "2.IH" [of "poll_next s"] by simp
next
  case (3 seen r inputs)
  show ?case
  proof (cases "lr_err r \<or> lr_signature r \<in> seen")
    case True
    then have "process_log E sub_account r s = Inr s"
      using "3.prems"(2) by (auto simp: process_log_def cache_contains_def caches_def)
    with True 3 show ?thesis by simp
  next
    case False
    define t where "t = s\<lparr>es_cache := cache_insert (lr_signature r) (es_cache s)\<rparr>"
    have t: "length (es_queue t) \<le> channel_capacity" "sent_events t = sent_events s"
      using "3.prems"(4) by (simp_all add: t_def sent_events_def)
    have c: "cache_insert (lr_signature r) (es_cache s) = (es_cache s)
        \<lparr>tc_entries := insert (lr_signature r) (tc_entries (es_cache s)), tc_age := tc_age (es_cache s) @ [lr_signature r]\<rparr>"
      using "3.prems"(3) False by (intro cache_insert_small) simp
    have p: "process_log E sub_account r s = send_all t (ev r)"
      using False "3.prems"(1,2) send_response [OF _ t(1), of E sub_account "lr_signature r" "lr_logs r" "ev r"]
      by (simp add: process_log_def cache_contains_def caches_def t_def)
    from t(1) show ?thesis
    proof (cases rule: send_all_cases [where events = "ev r"])
      case (1 s')
      have "caches (es_cache s') (insert (lr_signature r) seen)"
        using 1 "3.prems"(2) False by (auto simp: t_def c caches_def)
      then show ?thesis
        using 1 "3.IH"(2) [OF False, of s'] "3.prems" False p t
        by (simp add: t_def c)
    next
      case 2
      then show ?thesis using False p t by simp
    qed
  qed
qed

section \<open>The polled stream\<close>

datatype poll_input = Round poll_answers | TakeNext

fun poll_step :: "event_env \<Rightarrow> pubkey \<Rightarrow> pubkey \<Rightarrow> polled_stream \<Rightarrow> poll_input \<Rightarrow> polled_stream res" where
  "poll_step E program_id sub_account s (Round answers) = poll_round E program_id sub_account s answers"
| "poll_step E program_id sub_account s TakeNext = Inr (s\<lparr>ps_stream := poll_next (ps_stream s)\<rparr>)"

text \<open>What a transaction should send.\<close>

definition tx_events ::
  "event_env \<Rightarrow> pubkey \<Rightarrow> pubkey \<Rightarrow> string \<Rightarrow> encoded_tx \<Rightarrow> drift_event list res" where
  "tx_events E program_id sub_account signature tx =
     (case et_meta tx of
        None \<Rightarrow> Inr []
      | Some meta \<Rightarrow>
          if (\<exists>keys. et_account_keys tx = Some keys \<and> program_id \<notin> set keys) \<or> tm_err meta then Inr []
          else (case tm_log_messages meta of
              None \<Rightarrow> Inr []
            | Some logs \<Rightarrow> response_events E sub_account signature logs))"

lemma poll_tx_sends:
  assumes "tx_events E program_id sub_account signature tx = Inr events"
    and "\<not> cache_contains (es_cache s) signature"
    and "length (es_queue s) \<le> channel_capacity"
  shows "poll_tx E program_id sub_account signature tx s =
    send_all (s\<lparr>es_cache := cache_insert signature (es_cache s)\<rparr>) events"
proof -
  let ?s = "s\<lparr>es_cache := cache_insert signature (es_cache s)\<rparr>"
  have none: "send_all ?s [] = Inr ?s" using assms(3) by (simp add: send_all_def)
  have some: "foldE (emit_log E sub_account signature) ?s (List.enumerate 0 logs) = send_all ?s events"
    if "response_events E sub_account signature logs = Inr events" for logs
    using that assms(3) by (intro send_response) simp_all
  show ?thesis
    using assms(1,2) none some
    by (auto simp: poll_tx_def tx_events_def Let_def split: option.splits if_splits)
qed

text \<open>
  The node's answers on a chain of transactions, oldest first: the signatures after a given one that it
  knows of, newest first, and the transactions; any request may fail.
\<close>

definition after :: "string option \<Rightarrow> string list \<Rightarrow> string list" where
  "after prev chain = (case prev of None \<Rightarrow> chain | Some s \<Rightarrow> tl (dropWhile ((\<noteq>) s) chain))"

definition known_in :: "string option \<Rightarrow> string list \<Rightarrow> bool" where
  "known_in prev chain = (case prev of None \<Rightarrow> True | Some s \<Rightarrow> s \<in> set chain)"

definition serves :: "string list \<Rightarrow> (string \<Rightarrow> encoded_tx) \<Rightarrow> poll_answers \<Rightarrow> bool" where
  "serves chain txs answers \<longleftrightarrow>
     (\<forall>prev signatures. known_in prev chain \<longrightarrow> fst answers prev = Inr signatures \<longrightarrow>
        (\<exists>n. signatures = rev (after prev (take n chain)) \<and> known_in prev (take n chain))) \<and>
     (\<forall>s tx. snd answers s = Inr tx \<longrightarrow> tx = txs s)"

definition serves_all :: "string list \<Rightarrow> (string \<Rightarrow> encoded_tx) \<Rightarrow> poll_answers \<Rightarrow> bool" where
  "serves_all chain txs answers \<longleftrightarrow>
     (\<forall>prev. known_in prev chain \<longrightarrow> fst answers prev = Inr (rev (after prev chain))) \<and>
     (\<forall>s. snd answers s = Inr (txs s))"

lemma after_nth:
  assumes "distinct xs" and "i < length xs"
  shows "after (Some (xs ! i)) xs = drop (Suc i) xs"
proof -
  have xs: "xs = take i xs @ xs ! i # drop (Suc i) xs"
    using assms(2) by (rule id_take_nth_drop)
  then have "\<forall>x\<in>set (take i xs). x \<noteq> xs ! i"
    using assms(1) by (metis disjoint_iff distinct_append list.set_intros(1))
  then have "dropWhile ((\<noteq>) (xs ! i)) (take i xs @ xs ! i # drop (Suc i) xs) = xs ! i # drop (Suc i) xs"
    by (subst dropWhile_append2) auto
  with xs show ?thesis by (simp add: after_def)
qed

text \<open>The task has seen the first \<open>k\<close> transactions of the chain, and sends from the one at \<open>k0\<close> on.\<close>

definition seen_upto ::
  "string list \<Rightarrow> (string \<Rightarrow> drift_event list) \<Rightarrow> nat \<Rightarrow> nat \<Rightarrow> polled_stream \<Rightarrow> bool" where
  "seen_upto chain ev k0 k s \<longleftrightarrow> k0 \<le> k \<and> k \<le> length chain \<and>
     ps_last_seen_tx s = (if k = 0 then None else Some (chain ! (k - 1))) \<and>
     sent_events (ps_stream s) = concat (map ev (drop k0 (take k chain))) \<and>
     tc_entries (es_cache (ps_stream s)) \<subseteq> set (take k chain) \<and>
     length (es_queue (ps_stream s)) \<le> channel_capacity"

lemma seen_upto_known: "seen_upto chain ev k0 k s \<Longrightarrow> known_in (ps_last_seen_tx s) chain"
  by (auto simp: seen_upto_def known_in_def)

lemma seen_upto_take:
  "seen_upto chain ev k0 k s \<Longrightarrow> seen_upto chain ev k0 k (s\<lparr>ps_stream := poll_next (ps_stream s)\<rparr>)"
  by (simp add: seen_upto_def)

abbreviation overrun :: "string list \<Rightarrow> (string \<Rightarrow> drift_event list) \<Rightarrow> nat \<Rightarrow> polled_stream res \<Rightarrow> bool" where
  "overrun chain ev k0 r \<equiv> r = Inl (Panic ''sent'') \<and> channel_capacity < length (concat (map ev (drop k0 chain)))"

lemma batch_step:
  assumes "distinct chain" and "seen_upto chain ev k0 k s" and "k < length chain"
    and "tx_events E program_id sub_account (chain ! k) tx = Inr (ev (chain ! k))"
  defines "r \<equiv> poll_tx E program_id sub_account (chain ! k) tx (ps_stream s)"
  shows "(\<exists>stream. r = Inr stream \<and>
      seen_upto chain ev k0 (Suc k) (s\<lparr>ps_last_seen_tx := Some (chain ! k), ps_stream := stream\<rparr>)) \<or>
    r = Inl (Panic ''sent'') \<and> channel_capacity < length (concat (map ev (drop k0 chain)))"
proof -
  define t where "t = (ps_stream s)\<lparr>es_cache := cache_insert (chain ! k) (es_cache (ps_stream s))\<rparr>"
  have "chain ! k \<notin> set (take k chain)"
    using assms(1,3) by (auto simp: in_set_conv_nth nth_eq_iff_index_eq)
  then have "\<not> cache_contains (es_cache (ps_stream s)) (chain ! k)"
    using assms(2) by (auto simp: seen_upto_def cache_contains_def)
  then have r: "r = send_all t (ev (chain ! k))"
    using poll_tx_sends [OF assms(4)] assms(2) by (simp add: r_def t_def seen_upto_def)
  have take: "drop k0 (take (Suc k) chain) = drop k0 (take k chain) @ [chain ! k]"
    using assms(2,3) by (simp add: take_Suc_conv_app_nth seen_upto_def)
  then have sofar: "sent_events t @ ev (chain ! k) = concat (map ev (drop k0 (take (Suc k) chain)))"
    using assms(2) by (simp add: t_def seen_upto_def sent_events_def)
  have entries: "tc_entries (es_cache t) \<subseteq> set (take (Suc k) chain)"
    using assms(2,3) cache_insert_entries [of "chain ! k" "es_cache (ps_stream s)"]
    by (auto simp: t_def seen_upto_def take_Suc_conv_app_nth)
  have "length (es_queue t) \<le> channel_capacity" using assms(2) by (simp add: t_def seen_upto_def)
  then show ?thesis
  proof (cases rule: send_all_cases [where events = "ev (chain ! k)"])
    case (1 s')
    then show ?thesis
      using r sofar entries assms(2,3) by (auto simp: seen_upto_def)
  next
    case 2
    have "drop k0 chain = drop k0 (take (Suc k) chain) @ drop (Suc k) chain"
      using assms(2,3)
      by (metis append_take_drop_id drop_append length_take min.absorb2 diff_is_0_eq drop0 le_Suc_eq
          seen_upto_def Suc_leI)
    then have "length (concat (map ev (drop k0 (take (Suc k) chain)))) \<le> length (concat (map ev (drop k0 chain)))"
      by simp
    with 2 r sofar show ?thesis by simp
  qed
qed

lemma batch_delivers:
  assumes "distinct chain" and "seen_upto chain ev k0 k s"
    and "k + length signatures \<le> length chain" and "signatures = take (length signatures) (drop k chain)"
    and "\<forall>s tx. get_tx s = Inr tx \<longrightarrow> tx = txs s"
    and "\<forall>s\<in>set (drop k0 chain). tx_events E program_id sub_account s (txs s) = Inr (ev s)"
  defines "r \<equiv> poll_batch E program_id sub_account get_tx signatures s"
  shows "(\<exists>s' k'. r = Inr s' \<and> seen_upto chain ev k0 k' s' \<and> k \<le> k' \<and>
      ((\<forall>s\<in>set signatures. get_tx s = Inr (txs s)) \<longrightarrow> k' = k + length signatures)) \<or>
    overrun chain ev k0 r"
  unfolding r_def using assms(2-4)
proof (induction signatures arbitrary: k s)
  case Nil
  then show ?case by auto
next
  case (Cons sig sigs)
  then have k: "k < length chain" by simp
  have sig: "sig = chain ! k" and sigs: "sigs = take (length sigs) (drop (Suc k) chain)"
    using Cons.prems(3) k by (simp_all add: Cons_nth_drop_Suc [symmetric])
  show ?case
  proof (cases "get_tx sig")
    case (Inl e)
    with Cons.prems(1) show ?thesis by (intro disjI1 exI [of _ s] exI [of _ k]) simp
  next
    case (Inr tx)
    then have tx: "tx = txs sig" using assms(5) by blast
    have "k0 \<le> k" using Cons.prems(1) by (simp add: seen_upto_def)
    then have "chain ! k \<in> set (drop k0 chain)"
      using k nth_mem [of "k - k0" "drop k0 chain"] by simp
    then have ev: "tx_events E program_id sub_account (chain ! k) tx = Inr (ev (chain ! k))"
      using assms(6) tx sig by simp
    from batch_step [OF assms(1) Cons.prems(1) k ev] show ?thesis
    proof (elim disjE exE conjE)
      fix stream
      assume stream: "poll_tx E program_id sub_account (chain ! k) tx (ps_stream s) = Inr stream"
        "seen_upto chain ev k0 (Suc k) (s\<lparr>ps_last_seen_tx := Some (chain ! k), ps_stream := stream\<rparr>)"
      have rest: "poll_batch E program_id sub_account get_tx (sig # sigs) s = poll_batch E program_id sub_account
          get_tx sigs (s\<lparr>ps_last_seen_tx := Some (chain ! k), ps_stream := stream\<rparr>)"
        using stream(1) Inr sig by (simp add: Let_def)
      have "Suc k + length sigs \<le> length chain" using Cons.prems(2) by simp
      from Cons.IH [OF stream(2) this sigs] show ?thesis
      proof (elim disjE exE conjE)
        fix s' k'
        assume "poll_batch E program_id sub_account get_tx sigs
            (s\<lparr>ps_last_seen_tx := Some (chain ! k), ps_stream := stream\<rparr>) = Inr s'"
          "seen_upto chain ev k0 k' s'" "Suc k \<le> k'"
          "(\<forall>s\<in>set sigs. get_tx s = Inr (txs s)) \<longrightarrow> k' = Suc k + length sigs"
        then show ?thesis
          unfolding rest by (intro disjI1 exI [of _ s'] exI [of _ k']) simp
      qed (simp del: poll_batch.simps add: rest)
    qed (use Inr sig in \<open>simp add: Let_def\<close>)
  qed
qed

lemma round_signatures:
  assumes "distinct chain" and "seen_upto chain ev k0 k s" and "serves chain txs answers"
    and "fst answers (ps_last_seen_tx s) = Inr signatures"
  shows "k + length (rev signatures) \<le> length chain \<and>
    rev signatures = take (length (rev signatures)) (drop k chain)"
proof -
  obtain n where n: "rev signatures = after (ps_last_seen_tx s) (take n chain)"
    "known_in (ps_last_seen_tx s) (take n chain)"
    using assms(3,4) seen_upto_known [OF assms(2)] unfolding serves_def by (metis rev_rev_ident)
  have k: "k \<le> length chain" "ps_last_seen_tx s = (if k = 0 then None else Some (chain ! (k - 1)))"
    using assms(2) by (simp_all add: seen_upto_def)
  have "rev signatures = drop k (take n chain)"
  proof (cases "k = 0")
    case False
    with k n obtain i where i: "i < length (take n chain)" "take n chain ! i = chain ! (k - 1)"
      by (auto simp: in_set_conv_nth known_in_def)
    with k False assms(1) have "i = k - 1" by (simp add: nth_eq_iff_index_eq)
    with i False k n(1) after_nth [of "take n chain" "k - 1"] assms(1) show ?thesis by simp
  qed (use k n in \<open>simp add: after_def\<close>)
  moreover from this have "length signatures = length (drop k (take n chain))"
    by (metis length_rev)
  ultimately show ?thesis using k(1) by (auto simp: drop_take min_def)
qed

text \<open>One input: a batch, if it is a round whose request is answered.\<close>

lemma serves_all_signatures:
  assumes "distinct chain" and "seen_upto chain ev k0 k s" and "serves_all chain txs answers"
    and "fst answers (ps_last_seen_tx s) = Inr signatures"
  shows "k + length (rev signatures) = length chain"
proof -
  have k: "k \<le> length chain" "ps_last_seen_tx s = (if k = 0 then None else Some (chain ! (k - 1)))"
    using assms(2) by (simp_all add: seen_upto_def)
  have "rev signatures = after (ps_last_seen_tx s) chain"
    using assms(3,4) seen_upto_known [OF assms(2)] by (auto simp: serves_all_def)
  also have "\<dots> = drop k chain"
    using k after_nth [OF assms(1), of "k - 1"] by (cases "k = 0") (simp_all add: after_def)
  finally show ?thesis using k(1) by simp
qed

lemma input_delivers:
  assumes "distinct chain" and "\<forall>answers. i = Round answers \<longrightarrow> serves chain txs answers"
    and "\<forall>s\<in>set (drop k0 chain). tx_events E program_id sub_account s (txs s) = Inr (ev s)"
    and "seen_upto chain ev k0 k s"
  shows "(\<exists>s' k'. poll_step E program_id sub_account s i = Inr s' \<and> k \<le> k' \<and> seen_upto chain ev k0 k' s' \<and>
      ((\<exists>answers. i = Round answers \<and> serves_all chain txs answers) \<longrightarrow> k' = length chain)) \<or>
    overrun chain ev k0 (poll_step E program_id sub_account s i)"
proof (cases i)
  case TakeNext
  with seen_upto_take [OF assms(4)] show ?thesis by auto
next
  case (Round answers)
  obtain sigs get where a: "answers = (sigs, get)" by (cases answers)
  note serves = assms(2) [rule_format, OF Round]
  show ?thesis
  proof (cases "sigs (ps_last_seen_tx s)")
    case (Inl e)
    then have "poll_step E program_id sub_account s i = Inr s"
      by (simp add: Round a poll_round_def)
    moreover have "\<not> serves_all chain txs answers"
      using Inl seen_upto_known [OF assms(4)] by (metis Inl_Inr_False a fst_conv serves_all_def)
    ultimately show ?thesis using assms(4) Round by auto
  next
    case (Inr signatures)
    then have answer: "fst answers (ps_last_seen_tx s) = Inr signatures" by (simp add: a)
    have get: "\<forall>s tx. get s = Inr tx \<longrightarrow> tx = txs s" using serves by (simp add: serves_def a)
    have r: "poll_step E program_id sub_account s i = poll_batch E program_id sub_account get (rev signatures) s"
      by (simp add: Round a poll_round_def Inr)
    note seg = round_signatures [OF assms(1,4) serves answer]
    from batch_delivers [OF assms(1,4) conjunct1 [OF seg] conjunct2 [OF seg] get assms(3)] show ?thesis
    proof (elim disjE exE conjE)
      fix s' k'
      assume "poll_batch E program_id sub_account get (rev signatures) s = Inr s'"
        "seen_upto chain ev k0 k' s'" "k \<le> k'"
        "(\<forall>s\<in>set (rev signatures). get s = Inr (txs s)) \<longrightarrow> k' = k + length (rev signatures)"
      moreover have "get s' = Inr (txs s')" if "serves_all chain txs answers" for s'
        using that by (simp add: serves_all_def a)
      ultimately show ?thesis using serves_all_signatures [OF assms(1,4) _ answer] Round r by auto
    qed (simp add: r)
  qed
qed

lemma rounds_deliver:
  assumes "distinct chain" and "\<forall>answers. Round answers \<in> set inputs \<longrightarrow> serves chain txs answers"
    and "\<forall>s\<in>set (drop k0 chain). tx_events E program_id sub_account s (txs s) = Inr (ev s)"
    and "seen_upto chain ev k0 k s"
  shows "(\<exists>s' k'. foldE (poll_step E program_id sub_account) s inputs = Inr s' \<and> k \<le> k' \<and>
      seen_upto chain ev k0 k' s' \<and>
      ((\<exists>answers. Round answers \<in> set inputs \<and> serves_all chain txs answers) \<longrightarrow> k' = length chain)) \<or>
    overrun chain ev k0 (foldE (poll_step E program_id sub_account) s inputs)"
  using assms(2,4)
proof (induction inputs arbitrary: s k)
  case (Cons i inputs)
  have head: "\<forall>answers. i = Round answers \<longrightarrow> serves chain txs answers"
    using Cons.prems(1) by (metis list.set_intros(1))
  from input_delivers [OF assms(1) head assms(3) Cons.prems(2)] show ?case
  proof (elim disjE exE conjE)
    fix s1 k1
    assume s1: "poll_step E program_id sub_account s i = Inr s1" "k \<le> k1" "seen_upto chain ev k0 k1 s1"
      "(\<exists>answers. i = Round answers \<and> serves_all chain txs answers) \<longrightarrow> k1 = length chain"
    have bound: "k' \<le> length chain" if "seen_upto chain ev k0 k' s'" for k' s'
      using that by (simp add: seen_upto_def)
    have "\<forall>answers. Round answers \<in> set inputs \<longrightarrow> serves chain txs answers"
      using Cons.prems(1) by simp
    from Cons.IH [OF this s1(3)] show ?thesis
    proof (elim disjE exE conjE)
      fix s' k'
      assume "foldE (poll_step E program_id sub_account) s1 inputs = Inr s'" "k1 \<le> k'"
        "seen_upto chain ev k0 k' s'"
        "(\<exists>answers. Round answers \<in> set inputs \<and> serves_all chain txs answers) \<longrightarrow> k' = length chain"
      with s1 bound [of k' s'] show ?thesis
        by (intro disjI1 exI [of _ s'] exI [of _ k']) auto
    qed (use s1 in simp_all)
  qed simp_all
qed auto

lemma polled_stream_delivers:
  assumes "distinct (old @ new)"
    and "\<forall>answers. Round answers \<in> set inputs \<longrightarrow> serves (old @ new) txs answers"
    and "\<forall>s\<in>set new. tx_events E program_id sub_account s (txs s) = Inr (ev s)"
    and "polled_stream_new (Inr (if old = [] then [] else [last old])) = Inr s0"
  obtains s' k' where "foldE (poll_step E program_id sub_account) s0 inputs = Inr s'" "length old \<le> k'"
      "seen_upto (old @ new) ev (length old) k' s'"
      "(\<exists>answers. Round answers \<in> set inputs \<and> serves_all (old @ new) txs answers) \<Longrightarrow>
        k' = length (old @ new)"
    | "foldE (poll_step E program_id sub_account) s0 inputs = Inl (Panic ''sent'')"
      "64 < length (concat (map ev new))"
proof -
  have s0: "seen_upto (old @ new) ev (length old) (length old) s0"
    using assms(4) by (auto simp: polled_stream_new_def polled_channel_def seen_upto_def sent_events_def event_stream_new_def
        tx_signature_cache_new_def nth_append last_conv_nth)
  have new: "\<forall>s\<in>set (drop (length old) (old @ new)). tx_events E program_id sub_account s (txs s) = Inr (ev s)"
    using assms(3) by simp
  from rounds_deliver [OF assms(1,2) new s0] that show ?thesis
    by (elim disjE exE conjE) (auto simp: channel_capacity_def)
qed

section \<open>Parsing\<close>

lemma takeWhile_dec: "rest = [] \<or> \<not> is_digit (hd rest) \<Longrightarrow> takeWhile is_digit (dec n @ rest) = dec n"
  by (cases rest) (auto simp: takeWhile_tail dec_all_digits takeWhile_append2)

definition cancel_missing_text :: "bool \<Rightarrow> nat \<Rightarrow> string" where
  "cancel_missing_text user n = ''could not find'' @ (if user then '' user'' else []) @ '' order id '' @ dec n"

lemma cancel_missing_captures_text:
  assumes "rest = [] \<or> \<not> is_digit (hd rest)"
  shows "cancel_missing_captures (cancel_missing_text user n @ rest) = Some (user, dec n)"
proof -
  have "cancel_missing_at (cancel_missing_text user n @ rest) = Some (user, dec n)"
    using takeWhile_dec [OF assms]
    by (cases user) (simp_all add: cancel_missing_at_def cancel_missing_text_def strip_prefix_def)
  then show ?thesis by (cases "cancel_missing_text user n @ rest") simp_all
qed

lemma parse_cancel_missing:
  assumes "rest = [] \<or> \<not> is_digit (hd rest)" and "n < 2 ^ 32"
    and "ev_base64_decode E (cancel_missing_text user n @ rest) = None"
  shows "try_parse_log E (PROGRAM_LOG @ cancel_missing_text user n @ rest) signature tx_idx =
    Inr (Some (if user then OrderCancelMissing (of_nat n) 0 signature
      else OrderCancelMissing 0 (of_nat n) signature))"
proof -
  have "ucast (of_nat n :: u32) = (of_nat n :: u8)"
    by (rule bit_word_eqI) (auto simp: bit_simps)
  then show ?thesis
    using assms cancel_missing_captures_text [OF assms(1), of user n]
    by (simp add: try_parse_log_def opt_or_def undec_dec Let_def)
qed

definition sample_events :: event_env where
  "sample_events = \<lparr>ev_base64_decode = (\<lambda>s. if s = ''Done'' then Some [14, 119, 64] else None),
     oar_discriminator = [1], oar_deserialize = (\<lambda>_. None),
     order_record_discriminator = [2], order_record_deserialize = (\<lambda>_. None),
     funding_discriminator = [3], funding_deserialize = (\<lambda>_. None)\<rparr>"

definition missing_7 :: string where "missing_7 = PROGRAM_LOG @ cancel_missing_text False 7"

lemma missing_7_parsed: "try_parse_log sample_events missing_7 signature i = Inr (Some (OrderCancelMissing 0 7 signature))"
  using parse_cancel_missing [of "[]" 7 sample_events False signature i]
  by (simp add: missing_7_def sample_events_def cancel_missing_text_def)

lemma missing_7_events:
  "response_events sample_events 5 signature [missing_7] = Inr [OrderCancelMissing 0 7 signature]"
  by (simp add: response_events_def missing_7_parsed map_filter_simps)

section \<open>Properties\<close>

text \<open>
  C35. A cache of a given capacity keeps one signature less than that: after any sequence of different
  signatures it contains exactly the newest of them.
\<close>

theorem cache_holds_newest:
  assumes "distinct xs" and "0 < capacity"
  shows "cache_contains (foldl (\<lambda>c x. cache_insert x c) (tx_signature_cache_new capacity) xs) x \<longleftrightarrow>
    x \<in> set (drop (length xs - (capacity - 1)) xs)"
  by (simp add: cache_inserts [OF assms] cache_contains_def newest_part_def)

theorem cache_holds_newest_witness:
  "\<not> cache_contains (foldl (\<lambda>c x. cache_insert x c) (tx_signature_cache_new 3) [''a'', ''b'', ''c'']) ''a''"
  by (subst cache_holds_newest) simp_all

text \<open>
  C7. The log stream sends the events of every transaction that did not fail once, for its first
  response, in the order of the responses, as long as it sees at most 255 different ones; it stops
  only when more events are sent than the channel holds and the consumer has not kept up.
\<close>

theorem log_stream_exactly_once:
  assumes "\<forall>r\<in>set (fresh_responses {} inputs).
      response_events E sub_account (lr_signature r) (lr_logs r) = Inr (ev r)"
    and "length (fresh_responses {} inputs) < 256"
  shows "(\<exists>s. foldE (log_step E sub_account) log_stream inputs = Inr s \<and>
      es_taken s @ es_queue s = concat (map ev (fresh_responses {} inputs))) \<or>
    foldE (log_step E sub_account) log_stream inputs = Inl (Panic ''sent'') \<and>
      64 < length (concat (map ev (fresh_responses {} inputs)))"
proof -
  have "caches (es_cache log_stream) {}" "tc_age (es_cache log_stream) = []"
    "tc_capacity (es_cache log_stream) = 256" "es_queue log_stream = []" "sent_events log_stream = []"
    by (simp_all add: log_stream_def event_stream_new_def tx_signature_cache_new_def caches_def sent_events_def)
  with log_stream_delivers [OF assms(1), of log_stream] assms(2) show ?thesis
    by (simp add: sent_events_def channel_capacity_def)
qed

theorem log_stream_exactly_once_witness:
  "\<exists>s. foldE (log_step sample_events 5) log_stream
       [Response \<lparr>lr_signature = ''a'', lr_err = False, lr_logs = [missing_7]\<rparr>, Take,
        Response \<lparr>lr_signature = ''a'', lr_err = False, lr_logs = [missing_7]\<rparr>,
        Response \<lparr>lr_signature = ''b'', lr_err = True, lr_logs = [missing_7]\<rparr>] = Inr s \<and>
     es_taken s @ es_queue s = [OrderCancelMissing 0 7 ''a'']"
  using log_stream_exactly_once [of "[Response \<lparr>lr_signature = ''a'', lr_err = False, lr_logs = [missing_7]\<rparr>, Take,
        Response \<lparr>lr_signature = ''a'', lr_err = False, lr_logs = [missing_7]\<rparr>,
        Response \<lparr>lr_signature = ''b'', lr_err = True, lr_logs = [missing_7]\<rparr>]" sample_events 5
      "\<lambda>r. [OrderCancelMissing 0 7 (lr_signature r)]"]
  by (simp add: missing_7_events)

text \<open>
  C8. The polled stream sends the events of the transactions after the one it started from, of each one
  once and in the order of the chain: whatever requests fail, what it has sent are the events of the
  transactions up to the last one it has seen.
\<close>

theorem polled_stream_in_order:
  assumes "distinct (old @ new)"
    and "\<forall>answers. Round answers \<in> set inputs \<longrightarrow> serves (old @ new) txs answers"
    and "\<forall>s\<in>set new. tx_events E program_id sub_account s (txs s) = Inr (ev s)"
    and "polled_stream_new (Inr (if old = [] then [] else [last old])) = Inr s0"
  shows "(\<exists>s done rest. foldE (poll_step E program_id sub_account) s0 inputs = Inr s \<and> new = done @ rest \<and>
      ps_last_seen_tx s = (if old @ done = [] then None else Some (last (old @ done))) \<and>
      es_taken (ps_stream s) @ es_queue (ps_stream s) = concat (map ev done)) \<or>
    foldE (poll_step E program_id sub_account) s0 inputs = Inl (Panic ''sent'') \<and>
      64 < length (concat (map ev new))"
proof (cases rule: polled_stream_delivers [OF assms])
  case s': (1 s' k')
    let ?done = "take (k' - length old) new"
    have "take k' (old @ new) = old @ ?done" using s'(2) by simp
    moreover have "k' \<noteq> 0 \<Longrightarrow> last (take k' (old @ new)) = (old @ new) ! (k' - 1)"
      using s'(3) by (subst last_conv_nth) (auto simp: seen_upto_def simp del: take_append)
    moreover have "old @ ?done = [] \<longleftrightarrow> k' = 0"
      using s'(2,3) by (auto simp: seen_upto_def)
    ultimately show ?thesis
      using s' by (intro disjI1 exI [of _ s'] exI [of _ ?done] exI [of _ "drop (k' - length old) new"])
        (auto simp: seen_upto_def sent_events_def)
qed auto

text \<open>
  C9. The polled stream catches up: after a round in which no request fails, whatever happened before and
  happens after it, the events of all transactions have been sent, provided they fit the channel.
\<close>

theorem polled_stream_catches_up:
  assumes "distinct (old @ new)"
    and "\<forall>answers. Round answers \<in> set inputs \<longrightarrow> serves (old @ new) txs answers"
    and "\<forall>s\<in>set new. tx_events E program_id sub_account s (txs s) = Inr (ev s)"
    and "polled_stream_new (Inr (if old = [] then [] else [last old])) = Inr s0"
    and "Round answers \<in> set inputs" and "serves_all (old @ new) txs answers"
    and "length (concat (map ev new)) \<le> 64"
  shows "\<exists>s. foldE (poll_step E program_id sub_account) s0 inputs = Inr s \<and>
    es_taken (ps_stream s) @ es_queue (ps_stream s) = concat (map ev new)"
proof (cases rule: polled_stream_delivers [OF assms(1-4)])
  case (1 s' k')
  then have "k' = length (old @ new)" using assms(5,6) by blast
  with 1 show ?thesis by (auto simp: seen_upto_def sent_events_def)
qed (use assms(7) in simp)

definition sample_encoded_tx :: encoded_tx where
  "sample_encoded_tx = \<lparr>et_meta = Some \<lparr>tm_err = False, tm_log_messages = Some [missing_7]\<rparr>, et_account_keys = Some [1000]\<rparr>"

text \<open>A round that fails, one that answers up to the second transaction, and one that answers all.\<close>

definition sample_rounds :: "poll_input list" where
  "sample_rounds =
     [Round (\<lambda>_. Inl Deserializing, \<lambda>_. Inl Deserializing),
      Round (\<lambda>prev. if prev = Some ''a'' then Inr [''b''] else Inl Deserializing, \<lambda>_. Inl Deserializing),
      TakeNext, Round (\<lambda>prev. Inr (rev (after prev [''a'', ''b'', ''c''])), \<lambda>_. Inr sample_encoded_tx)]"

lemma serves_all_serves: "serves_all chain txs answers \<Longrightarrow> serves chain txs answers"
  unfolding serves_all_def serves_def by (metis Inr_inject order_refl take_all)

lemma sample_rounds_serve:
  "Round answers \<in> set sample_rounds \<Longrightarrow> serves ([''a''] @ [''b'', ''c'']) (\<lambda>_. sample_encoded_tx) answers"
  "serves_all ([''a''] @ [''b'', ''c'']) (\<lambda>_. sample_encoded_tx)
     (\<lambda>prev. Inr (rev (after prev [''a'', ''b'', ''c''])), \<lambda>_. Inr sample_encoded_tx)"
proof -
  show all: "serves_all ([''a''] @ [''b'', ''c'']) (\<lambda>_. sample_encoded_tx)
     (\<lambda>prev. Inr (rev (after prev [''a'', ''b'', ''c''])), \<lambda>_. Inr sample_encoded_tx)"
    by (simp add: serves_all_def)
  have two: "\<exists>n. [''b''] = rev (after (Some ''a'') (take n [''a'', ''b'', ''c''])) \<and>
      known_in (Some ''a'') (take n [''a'', ''b'', ''c''])"
    by (rule exI [of _ 2]) (simp add: after_def known_in_def)
  show "serves ([''a''] @ [''b'', ''c'']) (\<lambda>_. sample_encoded_tx) answers" if "Round answers \<in> set sample_rounds"
    using that serves_all_serves [OF all] two
    by (auto simp: sample_rounds_def serves_def split: if_splits) metis
qed

lemma sample_tx_events:
  "tx_events sample_events 1000 5 s sample_encoded_tx = Inr [OrderCancelMissing 0 7 s]"
  by (simp add: tx_events_def sample_encoded_tx_def missing_7_events)

theorem polled_stream_in_order_witness:
  "\<exists>s0. polled_stream_new (Inr [''a'']) = Inr s0 \<and>
     (\<exists>s done. foldE (poll_step sample_events 1000 5) s0 sample_rounds = Inr s \<and>
       ps_last_seen_tx s = Some (last (''a'' # done)) \<and>
       es_taken (ps_stream s) @ es_queue (ps_stream s) = map (OrderCancelMissing 0 7) done)"
proof -
  obtain s0 where s0: "polled_stream_new (Inr [''a'']) = Inr s0" by (simp add: polled_stream_new_def)
  have one: "concat (map (\<lambda>s. [f s]) xs) = map f xs" for f :: "string \<Rightarrow> drift_event" and xs
    by (induction xs) simp_all
  show ?thesis
    using polled_stream_in_order [of "[''a'']" "[''b'', ''c'']" sample_rounds "\<lambda>_. sample_encoded_tx" sample_events 1000 5
        "\<lambda>s. [OrderCancelMissing 0 7 s]" s0] sample_rounds_serve(1) s0
    by (auto simp: sample_tx_events one)
qed

theorem polled_stream_catches_up_witness:
  "\<exists>s0 s. polled_stream_new (Inr [''a'']) = Inr s0 \<and>
     foldE (poll_step sample_events 1000 5) s0 sample_rounds = Inr s \<and>
     es_taken (ps_stream s) @ es_queue (ps_stream s) =
       [OrderCancelMissing 0 7 ''b'', OrderCancelMissing 0 7 ''c'']"
proof -
  obtain s0 where s0: "polled_stream_new (Inr [''a'']) = Inr s0" by (simp add: polled_stream_new_def)
  have "Round (\<lambda>prev. Inr (rev (after prev [''a'', ''b'', ''c''])), \<lambda>_. Inr sample_encoded_tx) \<in> set sample_rounds"
    by (simp add: sample_rounds_def)
  then show ?thesis
    using polled_stream_catches_up [of "[''a'']" "[''b'', ''c'']" sample_rounds "\<lambda>_. sample_encoded_tx" sample_events 1000 5
        "\<lambda>s. [OrderCancelMissing 0 7 s]" s0, OF _ _ _ _ _ sample_rounds_serve(2)]
      sample_rounds_serve s0
    by (auto simp: sample_tx_events)
qed

text \<open>
  A message of the program about a cancelled order that is missing gives the event with the order's
  number; a user order number is cut to eight bits.
\<close>

theorem cancel_missing_parsed:
  assumes "rest = [] \<or> \<not> is_digit (hd rest)" and "n < 2 ^ 32"
    and "ev_base64_decode E (cancel_missing_text user n @ rest) = None"
  shows "try_parse_log E (PROGRAM_LOG @ cancel_missing_text user n @ rest) signature tx_idx =
    Inr (Some (if user then OrderCancelMissing (of_nat n) 0 signature
      else OrderCancelMissing 0 (of_nat n) signature))"
  using assms by (rule parse_cancel_missing)

theorem cancel_missing_parsed_witness:
  "try_parse_log sample_events (PROGRAM_LOG @ cancel_missing_text True 300 @ '' (x)'') ''a'' 0 =
    Inr (Some (OrderCancelMissing 44 0 ''a''))"
  using cancel_missing_parsed [of "'' (x)''" 300 sample_events True "''a''" 0]
  by (simp add: is_digit_def sample_events_def cancel_missing_text_def)

text \<open>
  A log line that happens to be base64 text of fewer than eight bytes ends the stream with a panic:
  the handler of a response with such a line, sent by whatever program, does not return.
\<close>

theorem short_payload_panics:
  assumes "\<not> lr_err r" and "\<not> cache_contains (es_cache s) (lr_signature r)"
    and "lr_logs r = (PROGRAM_LOG @ line) # logs"
    and "ev_base64_decode E line = Some bytes" and "length bytes < 8"
  shows "process_log E sub_account r s = Inl (Panic ''mid > len'')"
  using assms
  by (simp add: process_log_def emit_log_def try_parse_log_def opt_or_def)

theorem short_payload_panics_witness:
  "process_log sample_events 5 \<lparr>lr_signature = ''a'', lr_err = False, lr_logs = [PROGRAM_LOG @ ''Done'']\<rparr> log_stream =
    Inl (Panic ''mid > len'')"
  by (rule short_payload_panics [where line = "''Done''" and logs = "[]" and bytes = "[14, 119, 64]"])
     (simp_all add: log_stream_def event_stream_new_def tx_signature_cache_new_def cache_contains_def
       sample_events_def)

text \<open>
  Reconnecting has no effect: once the captured provider's connection is closed, every further run of
  the task finds it closed again, whatever the reconnections give, and no event is sent any more.
\<close>

theorem log_stream_never_reconnects:
  assumes "\<forall>(logs_subscribe, reconnected)\<in>set runs. logs_subscribe provider = Inl ConnectionClosed"
  shows "log_stream_runs E sub_account provider runs s = Inr s"
  using assms by (induction runs) (auto simp: log_stream_runs_def log_stream_fn_def)

theorem log_stream_never_reconnects_witness:
  "log_stream_runs sample_events 5 (0 :: nat)
     [(\<lambda>p. if p = 0 then Inl ConnectionClosed
        else Inr [\<lparr>lr_signature = ''a'', lr_err = False, lr_logs = [missing_7]\<rparr>], Inr 1)] log_stream = Inr log_stream"
  by (rule log_stream_never_reconnects) simp

end
