(* ===== verification/Backend.thy ===== *)
theory Backend
  imports Client Text_Utils
begin

text \<open>
  The backend of the client in \<open>src/src/lib.rs\<close>: how it is made and filled, subscribing and
  unsubscribing, and the queries the client passes on to it.

  Requests that the code runs concurrently are made one after the other; where one of several fails
  the first error in the order of the code is the result. Answers of the node and of the account
  provider are arguments.
\<close>

section \<open>Market accounts\<close>

record 'st program_env =
  deserialize_state :: "u8 list \<Rightarrow> 'st option"
  number_of_spot_markets :: "'st \<Rightarrow> u16"
  number_of_markets :: "'st \<Rightarrow> u16"
  deserialize_spot_market :: "u8 list \<Rightarrow> spot_market option"
  deserialize_perp_market :: "u8 list \<Rightarrow> perp_market option"

definition indexes_below :: "u16 \<Rightarrow> u16 list" where
  "indexes_below n = map of_nat [0..<unat n]"

definition unwrap_account :: "(u8 list \<Rightarrow> 'm option) \<Rightarrow> u8 list option \<Rightarrow> 'm res" where
  "unwrap_account deserialize x =
     bindE (of_opt (Panic ''called `Option::unwrap()` on a `None` value'') x) (\<lambda>data.
     of_opt (Panic ''called `Result::unwrap()` on an `Err` value'') (deserialize data))"

definition get_market_accounts :: "chain_env \<Rightarrow> 'st program_env \<Rightarrow> u8 list option \<Rightarrow>
    (pubkey list \<Rightarrow> sdk_error + u8 list option list) \<Rightarrow> (spot_market list \<times> perp_market list) res" where
  "get_market_accounts C P state_data get_multiple_accounts =
     bindE (of_opt (Panic ''state account fetch'') state_data) (\<lambda>state_data.
     bindE (of_opt (Panic ''state deserializes'') (deserialize_state P state_data)) (\<lambda>state.
     let spot_market_pdas = map (derive_spot_market_account C) (indexes_below (number_of_spot_markets P state));
         perp_market_pdas = map (derive_perp_market_account C) (indexes_below (number_of_markets P state)) in
     case get_multiple_accounts spot_market_pdas of
       Inl e \<Rightarrow> Inl (Err e)
     | Inr spot_accounts \<Rightarrow>
         bindE (mapE (unwrap_account (deserialize_spot_market P)) spot_accounts) (\<lambda>spot_markets.
         case get_multiple_accounts perp_market_pdas of
           Inl e \<Rightarrow> Inl (Err e)
         | Inr perp_accounts \<Rightarrow>
             bindE (mapE (unwrap_account (deserialize_perp_market P)) perp_accounts) (\<lambda>perp_markets.
             Inr (spot_markets, perp_markets)))))"

section \<open>Making a backend\<close>

text \<open>What the node and the provider answer while a backend is made.\<close>

record ('a, 'b) setup_answers =
  sa_perp_markets :: "sdk_error + 'a response"
  sa_spot_markets :: "sdk_error + 'b response"
  sa_provider :: "pubkey \<Rightarrow> sdk_error + account"
  sa_state_data :: "u8 list option"
  sa_multiple_accounts :: "pubkey list \<Rightarrow> sdk_error + u8 list option list"

definition of_sdk :: "sdk_error + 'a \<Rightarrow> 'a res" where
  "of_sdk r = (case r of Inl e \<Rightarrow> Inl (Err e) | Inr x \<Rightarrow> Inr x)"

text \<open>An account as it is: the provider's answer.\<close>

definition get_account_raw :: "(pubkey \<Rightarrow> sdk_error + account) \<Rightarrow> pubkey \<Rightarrow> sdk_error + account" where
  "get_account_raw provider k = provider k"

definition synced_map :: "'m market_kind \<Rightarrow> discriminators \<Rightarrow> (string \<Rightarrow> string option) \<Rightarrow> string \<Rightarrow>
    ('a \<Rightarrow> sdk_error + 'm) \<Rightarrow> sdk_error + 'a response \<Rightarrow> 'm market_map res" where
  "synced_map K D ws_url endpoint decode response =
     bindE (market_map_new K D ws_url endpoint True) (\<lambda>m.
     bindE (market_map_sync K decode False response m) (\<lambda>(m, e).
     case e of Some e \<Rightarrow> Inl (Err e) | None \<Rightarrow> Inr m))"

definition backend_new :: "chain_env \<Rightarrow> 'st program_env \<Rightarrow> discriminators \<Rightarrow> (string \<Rightarrow> string option) \<Rightarrow>
    string \<Rightarrow> drift_context \<Rightarrow> ('a \<Rightarrow> sdk_error + perp_market) \<Rightarrow> ('b \<Rightarrow> sdk_error + spot_market) \<Rightarrow>
    ('a, 'b) setup_answers \<Rightarrow> 'st backend res" where
  "backend_new C P D ws_url endpoint context decode_perp decode_spot A =
     bindE (synced_map perp_market_kind D ws_url endpoint decode_perp (sa_perp_markets A)) (\<lambda>perp_market_map.
     bindE (synced_map spot_market_kind D ws_url endpoint decode_spot (sa_spot_markets A)) (\<lambda>spot_market_map.
     let perp_oracles = market_map_oracles perp_market_kind perp_market_map;
         spot_oracles = market_map_oracles spot_market_kind spot_market_map;
         oracle_map = oracle_map_new True perp_oracles spot_oracles in
     bindE (case sa_provider A (state_account C) of
         Inl _ \<Rightarrow> Inl (Panic ''state account'') | Inr state \<Rightarrow> Inr state) (\<lambda>state.
     bindE (of_opt (Panic ''valid state'') (deserialize_state P (ac_data state))) (\<lambda>state_account.
     let this = \<lparr>be_program_data = uninitialized, be_perp_market_map = perp_market_map,
           be_spot_market_map = spot_market_map, be_oracle_map = oracle_map,
           be_state_account = state_account, be_blockhash_subscriber = blockhash_subscriber_new 2\<rparr>;
         lookup_table_address = market_lookup_table C context in
     bindE (get_market_accounts C P (sa_state_data A) (sa_multiple_accounts A)) (\<lambda>(spot, perp).
     bindE (of_sdk (get_account_raw (sa_provider A) lookup_table_address)) (\<lambda>lookup_table_account.
     bindE (of_sdk (deserialize_alt lookup_table_address (ac_data lookup_table_account))) (\<lambda>lookup_table.
     bindE (program_data_new spot perp lookup_table) (\<lambda>program_data.
     Inr (this\<lparr>be_program_data := program_data\<rparr>)))))))))"

section \<open>Subscribing\<close>

text \<open>
  Besides the maps the state account and the block hashes are subscribed. These two only start a task;
  the url of the state's subscription must be valid.
\<close>

text \<open>
  The subscriber of the state account is a value of the method that is dropped when it returns: nobody can
  unsubscribe it. The flag tells that its task was started.
\<close>

definition state_subscribe :: "string option \<Rightarrow> (ws_subscriber \<times> bool) res" where
  "state_subscribe ws_url =
     bindE (of_opt (Panic ''valid url'') ws_url) (\<lambda>url. Inr (ws_subscribe (ws_subscriber_new ''state'' url)))"

definition backend_subscribe :: "oracle_env \<Rightarrow> string option \<Rightarrow> ('a \<Rightarrow> sdk_error + perp_market) \<Rightarrow>
    ('b \<Rightarrow> sdk_error + spot_market) \<Rightarrow> sdk_error + 'a response \<Rightarrow> sdk_error + 'b response \<Rightarrow>
    (pubkey list \<Rightarrow> sdk_error + u64 \<times> rpc_account option list) \<Rightarrow> 'st backend \<Rightarrow>
    ('st backend \<times> sdk_error option) res" where
  "backend_subscribe V ws_url decode_perp decode_spot perp_markets spot_markets oracles s =
     bindE (market_map_subscribe perp_market_kind decode_perp False perp_markets (be_perp_market_map s)) (\<lambda>(m, e).
     let s = s\<lparr>be_perp_market_map := m\<rparr> in
     case e of Some e \<Rightarrow> Inr (s, Some e) | None \<Rightarrow>
     bindE (market_map_subscribe spot_market_kind decode_spot False spot_markets (be_spot_market_map s)) (\<lambda>(m, e).
     let s = s\<lparr>be_spot_market_map := m\<rparr> in
     case e of Some e \<Rightarrow> Inr (s, Some e) | None \<Rightarrow>
     bindE (oracle_map_subscribe V ws_url False oracles (be_oracle_map s)) (\<lambda>(m, e).
     let s = s\<lparr>be_oracle_map := m\<rparr> in
     case e of Some e \<Rightarrow> Inr (s, Some e) | None \<Rightarrow>
     bindE (state_subscribe ws_url) (\<lambda>_. Inr (s, None)))))"

definition backend_unsubscribe :: "bool \<Rightarrow> bool \<Rightarrow> (pubkey \<Rightarrow> bool) \<Rightarrow> 'st backend \<Rightarrow>
    'st backend \<times> sdk_error option" where
  "backend_unsubscribe perp_alive spot_alive alive s =
     (case market_map_unsubscribe perp_alive (be_perp_market_map s) of
        (m, Some e) \<Rightarrow> (s\<lparr>be_perp_market_map := m\<rparr>, Some e)
      | (m, None) \<Rightarrow>
          let s = s\<lparr>be_perp_market_map := m\<rparr> in
          (case market_map_unsubscribe spot_alive (be_spot_market_map s) of
             (m, Some e) \<Rightarrow> (s\<lparr>be_spot_market_map := m\<rparr>, Some e)
           | (m, None) \<Rightarrow>
               let s = s\<lparr>be_spot_market_map := m\<rparr> in
               (case oracle_map_unsubscribe alive (be_oracle_map s) of
                  (m, e) \<Rightarrow> (s\<lparr>be_oracle_map := m\<rparr>, e))))"

section \<open>Queries\<close>

definition get_perp_market_account_and_slot :: "'st backend \<Rightarrow> u16 \<Rightarrow> perp_market data_and_slot option" where
  "get_perp_market_account_and_slot s market_index = market_map_get (be_perp_market_map s) market_index"

definition get_spot_market_account_and_slot :: "'st backend \<Rightarrow> u16 \<Rightarrow> spot_market data_and_slot option" where
  "get_spot_market_account_and_slot s market_index = market_map_get (be_spot_market_map s) market_index"

definition num_perp_markets :: "'st backend \<Rightarrow> nat" where
  "num_perp_markets s = market_map_size (be_perp_market_map s)"

definition num_spot_markets :: "'st backend \<Rightarrow> nat" where
  "num_spot_markets s = market_map_size (be_spot_market_map s)"

definition get_oracle_price_data_and_slot :: "'st backend \<Rightarrow> pubkey \<Rightarrow> live_oracle option" where
  "get_oracle_price_data_and_slot s oracle_pubkey = oracle_map_get (be_oracle_map s) oracle_pubkey"

definition get_perp_market_account :: "'st drift_client \<Rightarrow> u16 \<Rightarrow> perp_market option" where
  "get_perp_market_account s market_index =
     map_option das_data (get_perp_market_account_and_slot (dc_backend s) market_index)"

definition get_spot_market_account :: "'st drift_client \<Rightarrow> u16 \<Rightarrow> spot_market option" where
  "get_spot_market_account s market_index =
     map_option das_data (get_spot_market_account_and_slot (dc_backend s) market_index)"

definition get_user_stats :: "chain_env \<Rightarrow> (pubkey \<Rightarrow> sdk_error + account) \<Rightarrow> (u8 list \<Rightarrow> user_stats option) \<Rightarrow>
    pubkey \<Rightarrow> sdk_error + user_stats" where
  "get_user_stats C provider try_deserialize authority =
     (let user_stats_pubkey = derive_stats_account C authority (drift_ID C) in
      get_account provider try_deserialize user_stats_pubkey)"

definition get_spot_market_info :: "chain_env \<Rightarrow> (pubkey \<Rightarrow> sdk_error + account) \<Rightarrow>
    (u8 list \<Rightarrow> spot_market option) \<Rightarrow> u16 \<Rightarrow> sdk_error + spot_market" where
  "get_spot_market_info C provider try_deserialize market_index =
     (let market = derive_spot_market_account C market_index in get_account provider try_deserialize market)"

definition get_perp_market_info :: "chain_env \<Rightarrow> (pubkey \<Rightarrow> sdk_error + account) \<Rightarrow>
    (u8 list \<Rightarrow> perp_market option) \<Rightarrow> u16 \<Rightarrow> sdk_error + perp_market" where
  "get_perp_market_info C provider try_deserialize market_index =
     (let market = derive_perp_market_account C market_index in get_account provider try_deserialize market)"

text \<open>All accounts of a type: the first that cannot be read is the error.\<close>

definition get_program_accounts :: "(u8 list \<Rightarrow> ext_error + 'a) \<Rightarrow> sdk_error + (pubkey \<times> u8 list) list \<Rightarrow>
    sdk_error + 'a list" where
  "get_program_accounts try_deserialize accounts =
     bindE accounts (\<lambda>accounts. mapE (\<lambda>(_, account_data). map_sum Anchor id (try_deserialize account_data)) accounts)"

definition sign_and_send_with_config :: "(pubkey \<Rightarrow> 'msg \<Rightarrow> hash \<Rightarrow> ext_error + 'tx) \<Rightarrow>
    ('tx \<Rightarrow> 'cfg \<Rightarrow> sdk_error + signature) \<Rightarrow> 'st backend \<Rightarrow> wallet \<Rightarrow> 'msg \<Rightarrow> 'cfg \<Rightarrow> sdk_error + signature" where
  "sign_and_send_with_config try_new send_transaction_with_config s w tx config =
     (let recent_block_hash = get_valid_blockhash (be_blockhash_subscriber s) in
      bindE (sign_tx try_new w tx recent_block_hash) (\<lambda>tx. send_transaction_with_config tx config))"

definition client_sign_and_send_with_config :: "(pubkey \<Rightarrow> 'msg \<Rightarrow> hash \<Rightarrow> ext_error + 'tx) \<Rightarrow>
    ('tx \<Rightarrow> 'cfg \<Rightarrow> sdk_error + signature) \<Rightarrow> 'st drift_client \<Rightarrow> 'msg \<Rightarrow> 'cfg \<Rightarrow> sdk_error + signature" where
  "client_sign_and_send_with_config try_new send_transaction_with_config s tx config =
     map_sum (\<lambda>e. case to_out_of_sol_error e of Some e' \<Rightarrow> e' | None \<Rightarrow> e) id
       (sign_and_send_with_config try_new send_transaction_with_config (dc_backend s) (dc_wallet s) tx config)"

definition wallet_try_from_str :: "chain_env \<Rightarrow> 'k key_env \<Rightarrow> ('k \<Rightarrow> pubkey) \<Rightarrow> (string \<Rightarrow> string option) \<Rightarrow>
    string \<Rightarrow> sdk_error + wallet" where
  "wallet_try_from_str C K pubkey read_to_string path_or_key =
     map_sum id (\<lambda>keypair. wallet_new C (pubkey keypair)) (load_keypair_multi_format K read_to_string path_or_key)"

definition wallet_from_seed :: "chain_env \<Rightarrow> (u8 list \<Rightarrow> 'k option) \<Rightarrow> ('k \<Rightarrow> pubkey) \<Rightarrow> u8 list \<Rightarrow>
    sdk_error + wallet" where
  "wallet_from_seed C keypair_from_seed pubkey seed =
     bindE (of_opt InvalidSeed (keypair_from_seed seed)) (\<lambda>keypair. Inr (wallet_new C (pubkey keypair)))"

section \<open>A new backend\<close>

lemma collect_map_of: "map_of (collect_map kvs) k = map_of (rev kvs) k"
proof (induction kvs rule: rev_induct)
  case (snoc kv kvs)
  then show ?case by (cases kv) (simp add: collect_map_def update_conv')
qed (simp add: collect_map_def)

lemma map_of_rev_distinct: "distinct (map fst kvs) \<Longrightarrow> map_of (rev kvs) = map_of kvs"
  by (induction kvs) (auto simp: map_add_def fun_eq_iff map_of_eq_None_iff [THEN iffD2] split: option.splits)

definition keyed_by_index :: "'m market_kind \<Rightarrow> 'm market_map \<Rightarrow> bool" where
  "keyed_by_index K s \<longleftrightarrow> distinct (map fst (mm_marketmap s)) \<and>
     (\<forall>i d. map_of (mm_marketmap s) i = Some d \<longrightarrow> mt_market_index K (das_data d) = i)"

lemma sync_keyed:
  "market_sync_accounts K decode slot accounts s = (s', e) \<Longrightarrow> keyed_by_index K s \<Longrightarrow> keyed_by_index K s'"
proof (induction K decode slot accounts s rule: market_sync_accounts.induct)
  case (2 K decode slot account accounts s)
  show ?case
  proof (cases "decode account")
    case (Inr data)
    have "keyed_by_index K (s\<lparr>mm_marketmap := AList.update (mt_market_index K data)
        \<lparr>das_slot = slot, das_data = data\<rparr> (mm_marketmap s)\<rparr>)"
      using 2 by (auto simp: keyed_by_index_def update_conv' distinct_update)
    with 2 Inr show ?thesis by simp
  qed (use 2 in simp)
qed (auto simp: keyed_by_index_def)

lemma map_sync_keyed:
  "market_map_sync K decode locked response s = Inr (s', e) \<Longrightarrow> keyed_by_index K s \<Longrightarrow> keyed_by_index K s'"
  by (auto simp: market_map_sync_def returns split: option.splits sum.splits prod.splits if_splits
      dest: sync_keyed)

lemma keyed_other_fields:
  "mm_marketmap s' = mm_marketmap s \<Longrightarrow> keyed_by_index K s \<Longrightarrow> keyed_by_index K s'"
  by (simp add: keyed_by_index_def)

text \<open>The states of a market map: every operation that changes it, in any order, from a new one on.\<close>

inductive market_map_state :: "'m market_kind \<Rightarrow> ('a \<Rightarrow> sdk_error + 'm) \<Rightarrow> 'm market_map \<Rightarrow> bool" for K decode where
  New: "market_map_new K D ws_url endpoint sync = Inr s \<Longrightarrow> market_map_state K decode s"
| Sync: "market_map_state K decode s \<Longrightarrow> market_map_sync K decode locked response s = Inr (s', e) \<Longrightarrow>
    market_map_state K decode s'"
| Subscribe: "market_map_state K decode s \<Longrightarrow> market_map_subscribe K decode locked response s = Inr (s', e) \<Longrightarrow>
    market_map_state K decode s'"
| Update: "market_map_state K decode s \<Longrightarrow> market_map_state K decode (market_update K s u)"
| Unsubscribe: "market_map_state K decode s \<Longrightarrow> market_map_unsubscribe task_alive s = (s', e) \<Longrightarrow>
    market_map_state K decode s'"

lemma market_map_state_keyed: "market_map_state K decode s \<Longrightarrow> keyed_by_index K s"
proof (induction rule: market_map_state.induct)
  case (New D ws_url endpoint sync s)
  then show ?case by (auto simp: market_map_new_def returns keyed_by_index_def)
next
  case (Sync s locked response s' e)
  then show ?case by (blast intro: map_sync_keyed)
next
  case (Subscribe s locked response s' e)
  then obtain s1 e1 where s1: "(if mm_sync_lock s then market_map_sync K decode locked response s else Inr (s, None)) =
      Inr (s1, e1)" "mm_marketmap s' = mm_marketmap s1"
    by (auto simp: market_map_subscribe_def returns split: option.splits if_splits)
  then have "keyed_by_index K s1"
    using Subscribe.IH by (auto split: if_splits dest: map_sync_keyed)
  with s1(2) show ?case by (rule keyed_other_fields)
next
  case (Update s u)
  then show ?case
    by (auto simp: market_update_def keyed_by_index_def update_conv' distinct_update Let_def)
next
  case (Unsubscribe s task_alive s' e)
  then show ?case
    by (auto simp: market_map_unsubscribe_def keyed_by_index_def split: if_splits option.splits prod.splits)
qed

text \<open>
  In every state a market map can reach, a market looked up by an index carries that index, and no two
  of its values carry the same one.
\<close>

theorem market_map_well_keyed:
  assumes "market_map_state K decode s"
  shows "(\<forall>i d. market_map_get s i = Some d \<longrightarrow> mt_market_index K (das_data d) = i) \<and>
    distinct (map (mt_market_index K) (market_map_values s))"
proof -
  have k: "keyed_by_index K s" using assms by (rule market_map_state_keyed)
  then have "map (mt_market_index K) (market_map_values s) = map fst (mm_marketmap s)"
    by (auto simp: market_map_values_def keyed_by_index_def)
  with k show ?thesis by (simp add: keyed_by_index_def market_map_get_def)
qed

definition sample_live_map :: "perp_market market_map" where
  "sample_live_map = \<lparr>mm_subscribed = False,
     mm_subscription = program_subscriber_new ''marketmap'' ''ws://x''
       [get_market_filter \<lparr>disc_user = [1], disc_perp_market = [2], disc_spot_market = [3]\<rparr> market_type.Perp],
     mm_marketmap = [], mm_sync_lock = True, mm_latest_slot = 0, mm_synced = False\<rparr>"

theorem market_map_well_keyed_witness:
  "market_map_get (market_update perp_market_kind sample_live_map
      \<lparr>das_slot = 4, das_data = sample_perp_market 3\<rparr>) 3 = Some \<lparr>das_slot = 4, das_data = sample_perp_market 3\<rparr> \<and>
   pm_market_index (sample_perp_market 3) = 3"
proof -
  have "market_map_new perp_market_kind \<lparr>disc_user = [1], disc_perp_market = [2], disc_spot_market = [3]\<rparr>
      (\<lambda>_. Some ''ws://x'') ''http://x'' True = Inr sample_live_map"
    by (simp add: market_map_new_def sample_live_map_def perp_market_kind_def)
  then have "market_map_state perp_market_kind (Inr :: perp_market \<Rightarrow> _) sample_live_map"
    by (rule market_map_state.New)
  note keyed = market_map_well_keyed [OF market_map_state.Update [OF this]]
  have "market_map_get (market_update perp_market_kind sample_live_map
      \<lparr>das_slot = 4, das_data = sample_perp_market 3\<rparr>) 3 = Some \<lparr>das_slot = 4, das_data = sample_perp_market 3\<rparr>"
    by (simp add: market_map_get_def market_update_def sample_live_map_def perp_market_kind_def
        sample_perp_market_def Let_def)
  with keyed show ?thesis by (fastforce simp: perp_market_kind_def)
qed

lemma synced_map_keyed: "synced_map K D ws_url endpoint decode response = Inr m \<Longrightarrow> keyed_by_index K m"
  by (auto simp: synced_map_def market_map_new_def market_map_sync_def returns
      split: option.splits sum.splits prod.splits dest!: sync_keyed)
    (auto simp: keyed_by_index_def)

lemma keyed_oracles:
  assumes "keyed_by_index K m" and "market_map_get m i = Some d"
    and "\<And>x. mt_oracle_info K x = (mt_market_index K x, key x, source x)"
  shows "map_of (collect_map (map (\<lambda>(market_index, pubkey, _). (market_index, pubkey)) (market_map_oracles K m))) i =
      Some (key (das_data d))"
    and "key (das_data d) \<in> fst ` set (map (\<lambda>(_, pubkey, source). (pubkey, source)) (market_map_oracles K m))"
proof -
  let ?kvs = "map (\<lambda>(i, x). (i, key (das_data x))) (mm_marketmap m)"
  have mem: "map_of (mm_marketmap m) j = Some x" if "(j, x) \<in> set (mm_marketmap m)" for j x
    using that assms(1) by (simp add: keyed_by_index_def)
  have "map (\<lambda>(market_index, pubkey, _). (market_index, pubkey)) (market_map_oracles K m) =
      map (\<lambda>(_, x). (mt_market_index K (das_data x), key (das_data x))) (mm_marketmap m)"
    by (simp add: market_map_oracles_def market_map_values_def assms(3) case_prod_beta)
  also have "\<dots> = ?kvs"
    using assms(1) mem by (intro map_cong refl) (auto simp: keyed_by_index_def)
  finally have "map (\<lambda>(market_index, pubkey, _). (market_index, pubkey)) (market_map_oracles K m) = ?kvs" .
  moreover have "distinct (map fst ?kvs)"
    using assms(1) by (simp add: keyed_by_index_def comp_def case_prod_beta)
  moreover have "map_of ?kvs i = Some (key (das_data d))"
    using assms(2) by (simp add: map_of_map market_map_get_def)
  ultimately show "map_of (collect_map (map (\<lambda>(market_index, pubkey, _). (market_index, pubkey))
      (market_map_oracles K m))) i = Some (key (das_data d))"
    by (simp add: collect_map_of map_of_rev_distinct)
  have "(i, d) \<in> set (mm_marketmap m)" using assms(2) by (auto simp: market_map_get_def dest: map_of_SomeD)
  then show "key (das_data d) \<in> fst ` set (map (\<lambda>(_, pubkey, source). (pubkey, source)) (market_map_oracles K m))"
    by (force simp: market_map_oracles_def market_map_values_def assms(3))
qed

lemma oracle_sync_fields:
  "oracle_sync_accounts V slot xs s = (s', e) \<Longrightarrow>
    om_oracle_infos s' = om_oracle_infos s \<and> om_perp_oracles s' = om_perp_oracles s \<and>
    om_spot_oracles s' = om_spot_oracles s"
  by (induction V slot xs s rule: oracle_sync_accounts.induct) (auto split: sum.splits)

lemma oracle_sync_all:
  assumes "oracle_sync_accounts V slot xs s = (s', None)" and "\<forall>x\<in>set xs. fst x \<noteq> None"
    and "k \<in> fst ` snd ` set xs \<or> (\<exists>r. oracle_map_get s k = Some r \<and> or_slot r = slot)"
  shows "\<exists>r. oracle_map_get s' k = Some r \<and> or_slot r = slot"
  using assms
proof (induction V slot xs s rule: oracle_sync_accounts.induct)
  case (3 V slot account oracle_pubkey source rest s)
  show ?case
  proof (cases "get_oracle_price V source oracle_pubkey account slot")
    case (Inr price_data)
    let ?o = "\<lparr>or_pubkey = oracle_pubkey, or_data = price_data, or_source = source, or_slot = slot,
      or_raw = ra_data account\<rparr>"
    let ?s = "s\<lparr>om_oraclemap := AList.update oracle_pubkey ?o (om_oraclemap s)\<rparr>"
    have get: "oracle_map_get ?s k = (if k = oracle_pubkey then Some ?o else oracle_map_get s k)"
      by (simp add: oracle_map_get_def update_conv')
    have "k \<in> fst ` snd ` set rest \<or> (\<exists>r. oracle_map_get ?s k = Some r \<and> or_slot r = slot)"
      unfolding get using "3.prems"(3) by (cases "k = oracle_pubkey") simp_all
    with "3.IH" [OF Inr] "3.prems"(1,2) Inr show ?thesis by simp
  qed (use "3.prems" in simp)
qed (auto simp: oracle_map_get_def)

lemma new_backend_maps:
  assumes "backend_new C P D ws_url endpoint context decode_perp decode_spot A = Inr b"
  shows "keyed_by_index perp_market_kind (be_perp_market_map b)"
    and "keyed_by_index spot_market_kind (be_spot_market_map b)"
    and "be_oracle_map b = oracle_map_new True (market_map_oracles perp_market_kind (be_perp_market_map b))
      (market_map_oracles spot_market_kind (be_spot_market_map b))"
  using assms by (auto simp: backend_new_def returns Let_def dest!: synced_map_keyed split: prod.splits)

lemma new_backend_perp:
  assumes "backend_new C P D ws_url endpoint context decode_perp decode_spot A = Inr b"
    and "market_map_get (be_perp_market_map b) i = Some d"
  shows "current_perp_oracle (be_oracle_map b) i = Some (pm_amm_oracle (das_data d))"
    and "oracle_map_contains (be_oracle_map b) (pm_amm_oracle (das_data d))"
proof -
  note maps = new_backend_maps [OF assms(1)]
  have info: "mt_oracle_info perp_market_kind x =
      (mt_market_index perp_market_kind x, pm_amm_oracle x, pm_amm_oracle_source x)" for x
    by (simp add: perp_market_kind_def)
  show "current_perp_oracle (be_oracle_map b) i = Some (pm_amm_oracle (das_data d))"
    using keyed_oracles(1) [OF maps(1) assms(2) info]
    by (simp add: maps(3) current_perp_oracle_def oracle_map_new_def Let_def)
  show "oracle_map_contains (be_oracle_map b) (pm_amm_oracle (das_data d))"
    using keyed_oracles(2) [OF maps(1) assms(2) info]
    by (simp add: maps(3) oracle_map_contains_def oracle_map_new_def Let_def collect_map_of map_of_eq_None_iff
        image_Un)
qed

text \<open>
  A new backend whose oracle map has been synchronized with an account for every oracle has a live
  price, of the slot of the answer, for every perp market it knows; the lookup starts no task.
\<close>

theorem new_backend_has_prices:
  assumes "backend_new C P D ws_url endpoint context decode_perp decode_spot A = Inr b"
    and "oracle_map_sync V False fetched (be_oracle_map b) = Inr (m, None)"
    and "\<And>keys. fetched keys = Inr (slot, accounts keys) \<and> None \<notin> set (accounts keys)"
    and "market_map_get (be_perp_market_map b) i = Some d"
  shows "\<exists>r. oracle_for_perp_market (b\<lparr>be_oracle_map := m\<rparr>) i = Inr (Some r, None) \<and> or_slot r = slot"
proof -
  let ?k = "pm_amm_oracle (das_data d)"
  let ?infos = "sort_key fst (om_oracle_infos (be_oracle_map b))"
  let ?keys = "sort_key (\<lambda>k. k) (map fst (om_oracle_infos (be_oracle_map b)))"
  have sync: "oracle_sync_accounts V slot (zip (accounts ?keys) ?infos) (be_oracle_map b) = (m, None)"
    "length (accounts ?keys) = length ?infos"
    using assms(2,3) by (auto simp: oracle_map_sync_def returns Let_def split: if_splits)
  have "?k \<in> fst ` set ?infos"
    using new_backend_perp(2) [OF assms(1,4)] by (auto simp: oracle_map_contains_def map_of_eq_None_iff)
  also have "set ?infos = snd ` set (zip (accounts ?keys) ?infos)"
    using sync(2) by (metis map_snd_zip set_map)
  finally have k: "?k \<in> fst ` snd ` set (zip (accounts ?keys) ?infos)" .
  have "\<forall>x\<in>set (zip (accounts ?keys) ?infos). fst x \<noteq> None"
    using assms(3) by (metis in_set_zipE prod.collapse)
  from oracle_sync_all [OF sync(1) this, of ?k] k obtain r where
    r: "oracle_map_get m ?k = Some r" "or_slot r = slot" by blast
  moreover have "current_perp_oracle m i = Some ?k"
    using new_backend_perp(1) [OF assms(1,4)] oracle_sync_fields [OF sync(1)]
    by (simp add: current_perp_oracle_def)
  ultimately show ?thesis
    using assms(4) by (simp add: oracle_for_perp_market_def Let_def)
qed

definition sample_program :: "unit program_env" where
  "sample_program = \<lparr>deserialize_state = (\<lambda>_. Some ()), number_of_spot_markets = (\<lambda>_. 0),
     number_of_markets = (\<lambda>_. 0), deserialize_spot_market = (\<lambda>_. None), deserialize_perp_market = (\<lambda>_. None)\<rparr>"

definition sample_setup :: "(perp_market, spot_market) setup_answers" where
  "sample_setup = \<lparr>sa_perp_markets = Inr (Some (9, [sample_perp_market 3])), sa_spot_markets = Inr (Some (9, [])),
     sa_provider = (\<lambda>_. Inr \<lparr>ac_data = replicate 56 0, ac_owner = 2\<rparr>), sa_state_data = Some [],
     sa_multiple_accounts = (\<lambda>_. Inr [])\<rparr>"

definition sample_discriminators :: discriminators where
  "sample_discriminators = \<lparr>disc_user = [1], disc_perp_market = [2], disc_spot_market = [3]\<rparr>"

abbreviation sample_new_backend :: "unit backend res" where
  "sample_new_backend \<equiv> backend_new sample_chain sample_program sample_discriminators (\<lambda>_. Some ''ws://x'')
     ''http://x'' MainNet Inr Inr sample_setup"

lemma sample_synced:
  "\<exists>m. synced_map perp_market_kind sample_discriminators (\<lambda>_. Some ''ws://x'') ''http://x'' Inr
      (Inr (Some (9, [sample_perp_market 3]))) = Inr m \<and>
    mm_marketmap m = [(3, \<lparr>das_slot = 9, das_data = sample_perp_market 3\<rparr>)]"
  "\<exists>m. synced_map spot_market_kind sample_discriminators (\<lambda>_. Some ''ws://x'') ''http://x'' Inr
      (Inr (Some (9, []))) = Inr m \<and> mm_marketmap m = []"
  by (simp_all add: synced_map_def market_map_new_def market_map_sync_def perp_market_kind_def
      sample_perp_market_def)

lemma sample_markets_empty:
  "get_market_accounts sample_chain sample_program (Some []) (\<lambda>_. Inr []) = Inr ([], [])"
  by (simp add: get_market_accounts_def sample_program_def Let_def)

lemma sample_program_data: "\<exists>P. program_data_new [] [] lookup_table = Inr P"
  by (simp add: program_data_new_def sort_byE_def indexes_aligned_def)

lemma sample_new_backend: "\<exists>b. sample_new_backend = Inr b \<and>
    market_map_get (be_perp_market_map b) 3 = Some \<lparr>das_slot = 9, das_data = sample_perp_market 3\<rparr> \<and>
    om_sync_lock (be_oracle_map b) \<and> map fst (om_oracle_infos (be_oracle_map b)) = [300] \<and>
    map fst (mm_marketmap (be_perp_market_map b)) = [3]"
proof -
  obtain pm where pm: "synced_map perp_market_kind sample_discriminators (\<lambda>_. Some ''ws://x'') ''http://x'' Inr
      (Inr (Some (9, [sample_perp_market 3]))) = Inr pm"
    "mm_marketmap pm = [(3, \<lparr>das_slot = 9, das_data = sample_perp_market 3\<rparr>)]"
    using sample_synced(1) by (elim exE conjE)
  obtain sm where sm: "synced_map spot_market_kind sample_discriminators (\<lambda>_. Some ''ws://x'') ''http://x'' Inr
      (Inr (Some (9, []))) = Inr sm" "mm_marketmap sm = []"
    using sample_synced(2) by (elim exE conjE)
  obtain P where P: "program_data_new [] []
      \<lparr>lt_key = market_lookup_table sample_chain MainNet, lt_addresses = []\<rparr> = Inr P"
    using sample_program_data [of "\<lparr>lt_key = market_lookup_table sample_chain MainNet, lt_addresses = []\<rparr>"]
    by (elim exE)
  note m = pm sm P
  have "deserialize_alt k (replicate 56 0) = Inr \<lparr>lt_key = k, lt_addresses = []\<rparr>" for k
    by (simp add: deserialize_alt_def LOOKUP_TABLE_META_SIZE_def)
  with m have "sample_new_backend = Inr \<lparr>be_program_data = P, be_perp_market_map = pm, be_spot_market_map = sm,
      be_oracle_map = oracle_map_new True (market_map_oracles perp_market_kind pm)
        (market_map_oracles spot_market_kind sm),
      be_state_account = (), be_blockhash_subscriber = blockhash_subscriber_new 2\<rparr>"
    unfolding backend_new_def get_account_raw_def
    by (simp add: sample_setup_def sample_markets_empty of_sdk_def Let_def) (simp add: sample_program_def)
  then show ?thesis
    using m by (simp add: market_map_get_def oracle_map_new_def market_map_oracles_def market_map_values_def
        collect_map_def perp_market_kind_def sample_perp_market_def Let_def)
qed

theorem new_backend_has_prices_witness:
  "\<exists>b m r. sample_new_backend = Inr b \<and>
     oracle_map_sync sample_oracle_env False
       (\<lambda>keys. Inr (12, map (\<lambda>k. Some \<lparr>ra_data = [1], ra_owner = k, ra_lamports = 1, ra_rent_epoch = 0\<rparr>) keys))
       (be_oracle_map b) = Inr (m, None) \<and>
     oracle_for_perp_market (b\<lparr>be_oracle_map := m\<rparr>) 3 = Inr (Some r, None) \<and> or_slot r = 12"
proof -
  obtain b where b: "sample_new_backend = Inr b"
    "market_map_get (be_perp_market_map b) 3 = Some \<lparr>das_slot = 9, das_data = sample_perp_market 3\<rparr>"
    "om_sync_lock (be_oracle_map b)" "map fst (om_oracle_infos (be_oracle_map b)) = [300]"
    using sample_new_backend by (elim exE conjE)
  let ?fetched = "\<lambda>keys. Inr (12, map (\<lambda>k. Some \<lparr>ra_data = [1], ra_owner = k, ra_lamports = 1, ra_rent_epoch = 0\<rparr>) keys)"
  obtain source where "om_oracle_infos (be_oracle_map b) = [(300, source)]"
    using b(4) by (cases "om_oracle_infos (be_oracle_map b)") auto
  then have "\<exists>m. oracle_map_sync sample_oracle_env False ?fetched (be_oracle_map b) = Inr (m, None)"
    using b(3) by (simp add: oracle_map_sync_def sample_oracle_env_def)
  then obtain m where m: "oracle_map_sync sample_oracle_env False ?fetched (be_oracle_map b) = Inr (m, None)" ..
  from new_backend_has_prices [OF b(1) m _ b(2), where slot = 12 and
      accounts = "map (\<lambda>k. Some \<lparr>ra_data = [1], ra_owner = k, ra_lamports = 1, ra_rent_epoch = 0\<rparr>)"] b(1) m
  show ?thesis by auto
qed

end
