(* ===== verification/Account_Map.thy ===== *)
theory Account_Map
  imports Backend
begin

text \<open>
  \<open>src/src/math/account_map_builder.rs\<close>: the accounts that the program's margin calculation needs for a
  user, made from the live maps. Loading the program's own maps from the accounts, the bytes of a market
  and the order in which a hash set is iterated are parameters.
\<close>

record account_info =
  ai_key :: pubkey
  ai_data :: "u8 list"
  ai_owner :: pubkey

record ('pm, 'sm, 'om) account_maps =
  am_perp_market_map :: 'pm
  am_spot_market_map :: 'sm
  am_oracle_map :: 'om

record ('st, 'pm, 'sm, 'om) map_env =
  spot_market_discriminator :: "u8 list"
  perp_market_discriminator :: "u8 list"
  spot_market_bytes :: "spot_market \<Rightarrow> u8 list"
  perp_market_bytes :: "perp_market \<Rightarrow> u8 list"
  pyth_program :: pubkey
  switchboard_program :: pubkey
  hash_order :: "pubkey list \<Rightarrow> pubkey list"
  load_perp_markets :: "account_info list \<Rightarrow> ext_error + 'pm"
  load_spot_markets :: "account_info list \<Rightarrow> ext_error + 'sm"
  load_oracles :: "account_info list \<Rightarrow> u64 \<Rightarrow> 'st \<Rightarrow> ext_error + 'om"

text \<open>The builder keeps the keys of the accounts it has placed.\<close>

type_synonym account_map_builder = "pubkey list"

definition account_map_builder_default :: account_map_builder where
  "account_map_builder_default = []"

definition oracle_owner :: "chain_env \<Rightarrow> ('st, 'pm, 'sm, 'om) map_env \<Rightarrow> oracle_source \<Rightarrow> pubkey" where
  "oracle_owner C X source = (case source of
     Pyth \<Rightarrow> pyth_program X
   | Pyth1K \<Rightarrow> pyth_program X
   | Pyth1M \<Rightarrow> pyth_program X
   | PythStableCoin \<Rightarrow> pyth_program X
   | Switchboard \<Rightarrow> switchboard_program X
   | QuoteAsset \<Rightarrow> DEFAULT_PUBKEY C
   | Prelaunch \<Rightarrow> drift_ID C)"

record account_needs =
  na_spot_markets :: "spot_market list"
  na_perp_markets :: "perp_market list"
  na_oracles :: "pubkey list"

text \<open>The markets of the user's positions and their oracles, with that of the quote market.\<close>

definition needed_accounts ::
  "chain_env \<Rightarrow> ('st, 'pm, 'sm, 'om) map_env \<Rightarrow> 'st drift_client \<Rightarrow> user \<Rightarrow> account_needs res" where
  "needed_accounts C X client user =
     bindE (mapE (\<lambda>p. of_opt (Panic ''spot market'') (get_spot_market_account client (sp_market_index p)))
       (filter (\<lambda>p. \<not> spot_position_is_available C p) (u_spot_positions user))) (\<lambda>spot_markets.
     bindE (of_opt (Panic ''spot market'') (get_spot_market_account client 0)) (\<lambda>quote_market.
     bindE (mapE (\<lambda>p. of_opt (Panic ''perp market'') (get_perp_market_account client (pp_market_index p)))
       (filter (\<lambda>p. \<not> perp_position_is_available C p) (u_perp_positions user))) (\<lambda>perp_markets.
     Inr \<lparr>na_spot_markets = spot_markets, na_perp_markets = perp_markets,
       na_oracles = hash_order X (remdups (map sm_oracle spot_markets @ [sm_oracle quote_market] @
         map pm_amm_oracle perp_markets))\<rparr>)))"

definition oracle_account ::
  "chain_env \<Rightarrow> ('st, 'pm, 'sm, 'om) map_env \<Rightarrow> 'st drift_client \<Rightarrow> pubkey \<times> pubkey \<Rightarrow> account_info res" where
  "oracle_account C X client = (\<lambda>(placed_key, oracle_key).
     bindE (of_opt (Panic ''oracle exists'') (oracle_map_get (be_oracle_map (dc_backend client)) oracle_key)) (\<lambda>live.
     Inr \<lparr>ai_key = placed_key, ai_data = or_raw live, ai_owner = oracle_owner C X (or_source live)\<rparr>))"

text \<open>
  Spot, perp and oracle accounts in turn take the keys placed by the builder, from its first one on.
\<close>

definition placed_accounts :: "chain_env \<Rightarrow> ('st, 'pm, 'sm, 'om) map_env \<Rightarrow> 'st drift_client \<Rightarrow> user \<Rightarrow>
    account_map_builder \<Rightarrow> (account_map_builder \<times> account_info list \<times> account_info list \<times> account_info list) res" where
  "placed_accounts C X client user accounts =
     bindE (needed_accounts C X client user) (\<lambda>N.
     let accounts = accounts @ map sm_pubkey (na_spot_markets N) @ map pm_pubkey (na_perp_markets N) @ na_oracles N;
         n = length (na_spot_markets N); m = length (na_perp_markets N);
         spot_accounts = map (\<lambda>(key, market). \<lparr>ai_key = key,
           ai_data = zero_account_to_bytes (spot_market_discriminator X) (spot_market_bytes X) market,
           ai_owner = drift_ID C\<rparr>) (zip accounts (na_spot_markets N));
         perp_accounts = map (\<lambda>(key, market). \<lparr>ai_key = key,
           ai_data = zero_account_to_bytes (perp_market_discriminator X) (perp_market_bytes X) market,
           ai_owner = drift_ID C\<rparr>) (zip (drop n accounts) (na_perp_markets N)) in
     bindE (mapE (oracle_account C X client) (zip (drop (n + m) accounts) (na_oracles N))) (\<lambda>oracle_accounts.
     Inr (accounts, spot_accounts, perp_accounts, oracle_accounts)))"

definition of_anchor :: "ext_error + 'a \<Rightarrow> 'a res" where
  "of_anchor r = (case r of Inl e \<Rightarrow> Inl (Err (Anchor e)) | Inr x \<Rightarrow> Inr x)"

definition account_map_build :: "chain_env \<Rightarrow> ('st, 'pm, 'sm, 'om) map_env \<Rightarrow> 'st drift_client \<Rightarrow> user \<Rightarrow>
    account_map_builder \<Rightarrow> (account_map_builder \<times> ('pm, 'sm, 'om) account_maps) res" where
  "account_map_build C X client user accounts =
     bindE (placed_accounts C X client user accounts) (\<lambda>(accounts, spot_accounts, perp_accounts, oracle_accounts).
     let b = dc_backend client;
         perp_slot = market_map_latest_slot (be_perp_market_map b);
         spot_slot = market_map_latest_slot (be_spot_market_map b);
         oracle_slot = oracle_map_latest_slot (be_oracle_map b);
         slot = max oracle_slot (max perp_slot spot_slot) in
     bindE (of_anchor (load_perp_markets X perp_accounts)) (\<lambda>perp_market_map.
     bindE (of_anchor (load_spot_markets X spot_accounts)) (\<lambda>spot_market_map.
     bindE (of_anchor (load_oracles X oracle_accounts slot (be_state_account b))) (\<lambda>oracle_map.
     Inr (accounts, \<lparr>am_perp_market_map = perp_market_map, am_spot_market_map = spot_market_map,
       am_oracle_map = oracle_map\<rparr>)))))"

section \<open>The accounts of a user\<close>

lemma mapE_Inr_iff: "mapE f xs = Inr ys \<longleftrightarrow> list_all2 (\<lambda>x y. f x = Inr y) xs ys"
  by (induction xs arbitrary: ys) (auto simp: returns list_all2_Cons1)

lemma mapE_of_opt: "\<forall>x\<in>set xs. f x \<noteq> None \<Longrightarrow> mapE (\<lambda>x. of_opt e (f x)) xs = Inr (map (\<lambda>x. the (f x)) xs)"
  by (rule mapE_Inr) auto

text \<open>The markets and oracles that must be live for the accounts of a user.\<close>

definition spot_indexes :: "chain_env \<Rightarrow> user \<Rightarrow> u16 list" where
  "spot_indexes C user = map sp_market_index (filter (\<lambda>p. \<not> spot_position_is_available C p) (u_spot_positions user))"

definition perp_indexes :: "chain_env \<Rightarrow> user \<Rightarrow> u16 list" where
  "perp_indexes C user = map pp_market_index (filter (\<lambda>p. \<not> perp_position_is_available C p) (u_perp_positions user))"

definition live_spot :: "'st drift_client \<Rightarrow> u16 \<Rightarrow> spot_market" where
  "live_spot client i = the (get_spot_market_account client i)"

definition live_perp :: "'st drift_client \<Rightarrow> u16 \<Rightarrow> perp_market" where
  "live_perp client i = the (get_perp_market_account client i)"

definition user_oracles :: "chain_env \<Rightarrow> 'st drift_client \<Rightarrow> user \<Rightarrow> pubkey set" where
  "user_oracles C client user = sm_oracle ` live_spot client ` set (spot_indexes C user) \<union>
     {sm_oracle (live_spot client 0)} \<union> pm_amm_oracle ` live_perp client ` set (perp_indexes C user)"

definition markets_live :: "chain_env \<Rightarrow> 'st drift_client \<Rightarrow> user \<Rightarrow> bool" where
  "markets_live C client user \<longleftrightarrow>
     (\<forall>i\<in>insert 0 (set (spot_indexes C user)). get_spot_market_account client i \<noteq> None) \<and>
     (\<forall>i\<in>set (perp_indexes C user). get_perp_market_account client i \<noteq> None)"

lemma needed_live:
  assumes "markets_live C client user"
  shows "needed_accounts C X client user = Inr
    \<lparr>na_spot_markets = map (live_spot client) (spot_indexes C user),
     na_perp_markets = map (live_perp client) (perp_indexes C user),
     na_oracles = hash_order X (remdups (map sm_oracle (map (live_spot client) (spot_indexes C user)) @
       [sm_oracle (live_spot client 0)] @ map pm_amm_oracle (map (live_perp client) (perp_indexes C user))))\<rparr>"
proof -
  have "mapE (\<lambda>p. of_opt (Panic ''spot market'') (get_spot_market_account client (sp_market_index p)))
      (filter (\<lambda>p. \<not> spot_position_is_available C p) (u_spot_positions user)) =
      (Inr (map (live_spot client) (spot_indexes C user)) :: spot_market list res)"
    using assms by (subst mapE_of_opt) (auto simp: markets_live_def spot_indexes_def live_spot_def)
  moreover have "mapE (\<lambda>p. of_opt (Panic ''perp market'') (get_perp_market_account client (pp_market_index p)))
      (filter (\<lambda>p. \<not> perp_position_is_available C p) (u_perp_positions user)) =
      (Inr (map (live_perp client) (perp_indexes C user)) :: perp_market list res)"
    using assms by (subst mapE_of_opt) (auto simp: markets_live_def perp_indexes_def live_perp_def)
  moreover obtain q where "get_spot_market_account client 0 = Some q"
    using assms by (auto simp: markets_live_def)
  ultimately show ?thesis by (simp add: needed_accounts_def live_spot_def)
qed

lemma zip_placed: "zip (map f xs @ zs) xs = map (\<lambda>x. (f x, x)) xs"
  by (induction xs) simp_all

text \<open>
  C24. With every market and oracle live, the accounts of a user are those of the markets of the positions
  in use, in their order and with their own keys and data, and one account per oracle of these markets
  and of the quote market, with the oracle's data and the program its source names.
\<close>

theorem account_map_accounts:
  assumes "markets_live C client user"
    and "\<And>ks. mset (hash_order X ks) = mset ks"
    and "\<forall>k\<in>user_oracles C client user. oracle_map_get (be_oracle_map (dc_backend client)) k = Some (live k)"
  shows "\<exists>keys oracles. placed_accounts C X client user account_map_builder_default = Inr (keys,
      map (\<lambda>i. \<lparr>ai_key = sm_pubkey (live_spot client i),
        ai_data = spot_market_discriminator X @ spot_market_bytes X (live_spot client i), ai_owner = drift_ID C\<rparr>)
        (spot_indexes C user),
      map (\<lambda>i. \<lparr>ai_key = pm_pubkey (live_perp client i),
        ai_data = perp_market_discriminator X @ perp_market_bytes X (live_perp client i), ai_owner = drift_ID C\<rparr>)
        (perp_indexes C user),
      map (\<lambda>k. \<lparr>ai_key = k, ai_data = or_raw (live k), ai_owner = oracle_owner C X (or_source (live k))\<rparr>) oracles) \<and>
    distinct oracles \<and> set oracles = user_oracles C client user"
proof -
  let ?spot = "map (live_spot client) (spot_indexes C user)"
  let ?perp = "map (live_perp client) (perp_indexes C user)"
  let ?ks = "remdups (map sm_oracle ?spot @ [sm_oracle (live_spot client 0)] @ map pm_amm_oracle ?perp)"
  let ?oracles = "hash_order X ?ks"
  have oracles: "set ?oracles = user_oracles C client user" "distinct ?oracles"
    using assms(2) [of ?ks] mset_eq_setD [OF assms(2) [of ?ks]]
    by (auto simp: user_oracles_def dest: mset_eq_imp_distinct_iff)
  have infos: "mapE (oracle_account C X client) (zip ?oracles ?oracles) =
      Inr (map (\<lambda>k. \<lparr>ai_key = k, ai_data = or_raw (live k), ai_owner = oracle_owner C X (or_source (live k))\<rparr>) ?oracles)"
    using assms(3) oracles(1)
    by (subst mapE_Inr [where g = "\<lambda>(k, _). \<lparr>ai_key = k, ai_data = or_raw (live k),
        ai_owner = oracle_owner C X (or_source (live k))\<rparr>"])
      (auto simp: oracle_account_def zip_same_conv_map)
  have zips: "zip (map sm_pubkey ?spot @ zs) ?spot = map (\<lambda>m. (sm_pubkey m, m)) ?spot"
    "zip (map pm_pubkey ?perp @ zs) ?perp = map (\<lambda>m. (pm_pubkey m, m)) ?perp" for zs
    by (rule zip_placed)+
  show ?thesis
    by (intro exI [of _ "map sm_pubkey ?spot @ map pm_pubkey ?perp @ ?oracles"] exI [of _ ?oracles])
      (use infos oracles zips in \<open>simp add: placed_accounts_def needed_live [OF assms(1)] Let_def
        account_map_builder_default_def zero_account_to_bytes_def comp_def\<close>)
qed

end
