(* ===== verification/Margin.thy ===== *)
theory Margin
  imports Account_Map Order_Math
begin

text \<open>
  \<open>src/src/math/leverage.rs\<close> and \<open>src/src/math/liquidation.rs\<close>: leverage, net asset value, unrealized
  profit and liquidation price of a user. The margin calculation itself, the lookups in the program's
  maps, the methods of its positions and markets and its precision constants are parameters; so is the
  quotient of the leverage, which the code computes in floating point.

  Signed values are integers whose range is checked after every operation; \<open>as\<close> casts wrap.
\<close>

section \<open>Parameters\<close>

type_synonym u128 = "128 word"
type_synonym i128 = "128 word"

record margin_calculation =
  mc_total_collateral :: i128
  mc_total_spot_asset_value :: i128
  mc_total_spot_liability_value :: u128
  mc_total_perp_liability_value :: u128

record ('pm, 'sm, 'om) margin_env =
  QUOTE_PRECISION :: int
  MARGIN_PRECISION :: int
  BASE_PRECISION :: int
  AMM_RESERVE_PRECISION :: int
  SPOT_WEIGHT_PRECISION :: int
  margin_requirement :: "user \<Rightarrow> 'pm \<Rightarrow> 'sm \<Rightarrow> 'om \<Rightarrow> ext_error + margin_calculation"
  get_free_collateral :: "margin_calculation \<Rightarrow> u128 option"
  perp_get_ref :: "'pm \<Rightarrow> u16 \<Rightarrow> ext_error + perp_market"
  spot_market_entries :: "'sm \<Rightarrow> (u16 \<times> spot_market option) list"
  max_confidence_multiplier :: "perp_market \<Rightarrow> ext_error + u64"
  get_price_data_and_validity :: "'om \<Rightarrow> perp_market \<Rightarrow> u64 \<Rightarrow> ext_error + oracle_price_data"
  get_price_data :: "'om \<Rightarrow> pubkey \<Rightarrow> ext_error + oracle_price_data"
  get_perp_position :: "user \<Rightarrow> u16 \<Rightarrow> perp_position option"
  get_spot_position :: "user \<Rightarrow> u16 \<Rightarrow> spot_position option"
  simulate_settled_lp_position :: "perp_position \<Rightarrow> perp_market \<Rightarrow> i64 \<Rightarrow> ext_error + perp_position"
  worst_case_base_asset_amount :: "perp_position \<Rightarrow> i128 option"
  get_margin_ratio :: "perp_market \<Rightarrow> u128 \<Rightarrow> u32 option"
  get_signed_token_amount :: "spot_position \<Rightarrow> spot_market \<Rightarrow> i128 option"
  get_asset_weight :: "spot_market \<Rightarrow> u128 \<Rightarrow> u32 option"
  get_liability_weight :: "spot_market \<Rightarrow> u128 \<Rightarrow> u32 option"
  scaled_ratio :: "u128 \<Rightarrow> i128 \<Rightarrow> u128"

abbreviation unwrap :: "'a option \<Rightarrow> 'a res" where
  "unwrap x \<equiv> of_opt (Panic ''called `Result::unwrap()` on an `Err` value'') x"

definition wrap64 :: "int \<Rightarrow> int" where
  "wrap64 x = sint (word_of_int x :: i64)"

definition mul_i :: "nat \<Rightarrow> int \<Rightarrow> int \<Rightarrow> int res" where
  "mul_i n x y = chk_i n (x * y)"

section \<open>Leverage\<close>

definition calculate_net_asset_value :: "i128 \<Rightarrow> u128 \<Rightarrow> int res" where
  "calculate_net_asset_value total_collateral total_spot_liability_value =
     (if uint total_spot_liability_value \<le> 2 ^ 127 - 1 then
        chk_i 128 (sint total_collateral - uint total_spot_liability_value)
      else
        let overflow = uint total_spot_liability_value - (2 ^ 127 - 1) in
        bindE (chk_u 128 (uint total_collateral + 1)) (\<lambda>limit.
        if overflow \<le> limit then
          chk_i 128 (sint total_collateral - ((2 ^ 127 - 1) - (overflow - 1)))
        else Inr (- (2 ^ 127))))"

text \<open>A negative sign is cast to an unsigned number: all ones.\<close>

definition calculate_leverage :: "('pm, 'sm, 'om) margin_env \<Rightarrow> u128 \<Rightarrow> int \<Rightarrow> u128 res" where
  "calculate_leverage M total_liability_value net_asset_value =
     (let sign = (if net_asset_value < 0 then - 1 else 1 :: i128) in
      bindE (chk_i 128 \<bar>net_asset_value\<bar>) (\<lambda>magnitude.
      umul sign (scaled_ratio M total_liability_value (word_of_int magnitude))))"

definition build_maps :: "chain_env \<Rightarrow> ('st, 'pm, 'sm, 'om) map_env \<Rightarrow> 'st drift_client \<Rightarrow> user \<Rightarrow>
    ('pm, 'sm, 'om) account_maps res" where
  "build_maps C X client user =
     bindE (account_map_build C X client user account_map_builder_default) (\<lambda>(_, maps). Inr maps)"

definition maps_margin :: "('pm, 'sm, 'om) margin_env \<Rightarrow> user \<Rightarrow> ('pm, 'sm, 'om) account_maps \<Rightarrow>
    margin_calculation res" where
  "maps_margin M user maps =
     of_anchor (margin_requirement M user (am_perp_market_map maps) (am_spot_market_map maps) (am_oracle_map maps))"

definition get_leverage :: "chain_env \<Rightarrow> ('st, 'pm, 'sm, 'om) map_env \<Rightarrow> ('pm, 'sm, 'om) margin_env \<Rightarrow>
    'st drift_client \<Rightarrow> user \<Rightarrow> u128 res" where
  "get_leverage C X M client user =
     bindE (build_maps C X client user) (\<lambda>account_maps.
     bindE (maps_margin M user account_maps) (\<lambda>margin_calculation.
     bindE (calculate_net_asset_value (mc_total_collateral margin_calculation)
       (mc_total_spot_liability_value margin_calculation)) (\<lambda>net_asset_value.
     if net_asset_value = - (2 ^ 127)
     then Inl (Err (MathError ''Net asset value is less than i128::MIN''))
     else
       bindE (uadd (mc_total_perp_liability_value margin_calculation)
         (mc_total_spot_liability_value margin_calculation)) (\<lambda>total_liability_value.
       calculate_leverage M total_liability_value net_asset_value))))"

definition get_spot_asset_value :: "chain_env \<Rightarrow> ('st, 'pm, 'sm, 'om) map_env \<Rightarrow> ('pm, 'sm, 'om) margin_env \<Rightarrow>
    'st drift_client \<Rightarrow> user \<Rightarrow> int res" where
  "get_spot_asset_value C X M client user =
     bindE (build_maps C X client user) (\<lambda>account_maps.
     bindE (maps_margin M user account_maps) (\<lambda>margin_calculation.
     chk_i 128 (sint (mc_total_spot_asset_value margin_calculation) -
       sint (mc_total_spot_liability_value margin_calculation))))"

section \<open>Unrealized profit\<close>

definition calculate_unrealized_pnl_inner :: "('pm, 'sm, 'om) margin_env \<Rightarrow> perp_position \<Rightarrow> u16 \<Rightarrow>
    ('pm, 'sm, 'om) account_maps \<Rightarrow> int res" where
  "calculate_unrealized_pnl_inner M position market_index account_maps =
     bindE (case perp_get_ref M (am_perp_market_map account_maps) market_index of
         Inl _ \<Rightarrow> Inl (Err InvalidAccount) | Inr m \<Rightarrow> Inr m) (\<lambda>perp_market.
     bindE (case get_price_data M (am_oracle_map account_maps) (pm_amm_oracle perp_market) of
         Inl _ \<Rightarrow> Inl (Err InvalidOracle) | Inr d \<Rightarrow> Inr d) (\<lambda>price_data.
     bindE (mul_i 128 (sint (pp_base_asset_amount position)) (max (sint (opd_price price_data)) 0)) (\<lambda>value.
     bindE (div_i 128 value (AMM_RESERVE_PRECISION M)) (\<lambda>base_asset_value.
     chk_i 128 (base_asset_value + sint (pp_quote_entry_amount position))))))"

definition calculate_unrealized_pnl :: "chain_env \<Rightarrow> ('st, 'pm, 'sm, 'om) map_env \<Rightarrow>
    ('pm, 'sm, 'om) margin_env \<Rightarrow> 'st drift_client \<Rightarrow> user \<Rightarrow> u16 \<Rightarrow> int res" where
  "calculate_unrealized_pnl C X M client user market_index =
     (case get_perp_position M user market_index of
        Some position \<Rightarrow>
          bindE (build_maps C X client user) (\<lambda>account_maps.
          calculate_unrealized_pnl_inner M position market_index account_maps)
      | None \<Rightarrow> Inl (Err (NoPosiiton market_index)))"

section \<open>Liquidation price\<close>

definition calculate_perp_free_collateral_delta :: "('pm, 'sm, 'om) margin_env \<Rightarrow> perp_position \<Rightarrow>
    perp_market \<Rightarrow> int res" where
  "calculate_perp_free_collateral_delta M position market =
     (let current = sint (pp_base_asset_amount position) in
      bindE (unwrap (worst_case_base_asset_amount M position)) (\<lambda>worst.
      bindE (unwrap (get_margin_ratio M market (word_of_int \<bar>sint worst\<bar>))) (\<lambda>ratio.
      bindE (mul_i 64 (uint ratio) (QUOTE_PRECISION M)) (\<lambda>scaled.
      bindE (div_i 64 scaled (MARGIN_PRECISION M)) (\<lambda>margin_ratio.
      if worst = 0 then Inr 0
      else
        bindE (if 0 < current then
            bindE (chk_i 64 (QUOTE_PRECISION M - margin_ratio)) (\<lambda>factor.
            bindE (mul_i 128 factor current) (\<lambda>value. div_i 128 value (BASE_PRECISION M)))
          else
            bindE (chk_i 64 (- QUOTE_PRECISION M - margin_ratio)) (\<lambda>factor.
            bindE (chk_i 64 \<bar>current\<bar>) (\<lambda>size.
            bindE (mul_i 128 factor size) (\<lambda>value. div_i 128 value (BASE_PRECISION M))))) (\<lambda>fcd.
        let fcd = wrap64 fcd in
        bindE (chk_i 128 (sint worst - current)) (\<lambda>order_base_amount.
        if order_base_amount \<noteq> 0 then
          bindE (chk_i 128 \<bar>order_base_amount\<bar>) (\<lambda>size.
          bindE (mul_i 128 margin_ratio size) (\<lambda>value.
          bindE (div_i 128 value (BASE_PRECISION M)) (\<lambda>order_delta.
          chk_i 64 (fcd - wrap64 order_delta))))
        else Inr fcd)))))))"

definition calculate_spot_free_collateral_delta :: "('pm, 'sm, 'om) margin_env \<Rightarrow> spot_position \<Rightarrow>
    spot_market \<Rightarrow> int res" where
  "calculate_spot_free_collateral_delta M position market =
     bindE (chk_i 128 (10 ^ unat (sm_decimals market))) (\<lambda>market_precision.
     bindE (unwrap (get_signed_token_amount M position market)) (\<lambda>amount.
     let signed_token_amount = sint amount; size = word_of_int \<bar>signed_token_amount\<bar> in
     bindE (if 0 < signed_token_amount then
         bindE (unwrap (get_asset_weight M market size)) (\<lambda>weight.
         bindE (mul_i 128 (QUOTE_PRECISION M) (uint weight)) (\<lambda>value.
         bindE (div_i 128 value (SPOT_WEIGHT_PRECISION M)) (\<lambda>value.
         bindE (mul_i 128 value signed_token_amount) (\<lambda>value. div_i 128 value market_precision))))
       else
         bindE (unwrap (get_liability_weight M market size)) (\<lambda>weight.
         bindE (mul_i 128 (- QUOTE_PRECISION M) (uint weight)) (\<lambda>value.
         bindE (div_i 128 value (SPOT_WEIGHT_PRECISION M)) (\<lambda>value.
         bindE (chk_i 128 \<bar>signed_token_amount\<bar>) (\<lambda>magnitude.
         bindE (mul_i 128 value magnitude) (\<lambda>value. div_i 128 value market_precision)))))) (\<lambda>delta.
     if fits_i 64 delta then Inr delta else Inl (Panic ''ftis i64''))))"

text \<open>The price at which the free collateral is used up, or -1 when there is none.\<close>

definition liquidation_price_from :: "int \<Rightarrow> u128 \<Rightarrow> int \<Rightarrow> int res \<Rightarrow> int res" where
  "liquidation_price_from quote_precision free_collateral free_collateral_delta live_price =
     (if free_collateral = 0 then Inr (- 1)
      else
        bindE (mul_i 64 (wrap64 (uint free_collateral)) quote_precision) (\<lambda>value.
        bindE (div_i 64 value free_collateral_delta) (\<lambda>liquidation_price_delta.
        bindE live_price (\<lambda>price.
        bindE (chk_i 64 (price - liquidation_price_delta)) (\<lambda>liquidation_price.
        if liquidation_price < 0 then Inr (- 1) else Inr liquidation_price)))))"

definition spot_delta_for :: "chain_env \<Rightarrow> ('pm, 'sm, 'om) margin_env \<Rightarrow> user \<Rightarrow> perp_market \<Rightarrow> 'sm \<Rightarrow> int res" where
  "spot_delta_for C M user perp_market spot_market_map =
     (case find (\<lambda>(_, m). \<exists>x. m = Some x \<and> sm_oracle x = pm_amm_oracle perp_market)
         (spot_market_entries M spot_market_map) of
        Some (spot_market_index, Some market) \<Rightarrow>
          (case get_spot_position M user spot_market_index of
             Some position \<Rightarrow>
               if \<not> spot_position_is_available C position
               then calculate_spot_free_collateral_delta M position market else Inr 0
           | None \<Rightarrow> Inr 0)
      | _ \<Rightarrow> Inr 0)"

definition calculate_liquidation_price_inner :: "chain_env \<Rightarrow> ('pm, 'sm, 'om) margin_env \<Rightarrow> user \<Rightarrow> u16 \<Rightarrow>
    ('pm, 'sm, 'om) account_maps \<Rightarrow> int res" where
  "calculate_liquidation_price_inner C M user market_index account_maps =
     bindE (maps_margin M user account_maps) (\<lambda>margin_calculation.
     bindE (of_anchor (perp_get_ref M (am_perp_market_map account_maps) market_index)) (\<lambda>perp_market.
     bindE (of_anchor (max_confidence_multiplier M perp_market)) (\<lambda>multiplier.
     bindE (of_anchor (get_price_data_and_validity M (am_oracle_map account_maps) perp_market multiplier)) (\<lambda>price_data.
     bindE (of_opt (Err (NoPosiiton market_index)) (get_perp_position M user market_index)) (\<lambda>position.
     bindE (of_anchor (simulate_settled_lp_position M position perp_market (opd_price price_data))) (\<lambda>with_lp.
     bindE (calculate_perp_free_collateral_delta M with_lp perp_market) (\<lambda>perp_delta.
     bindE (spot_delta_for C M user perp_market (am_spot_market_map account_maps)) (\<lambda>spot_delta.
     bindE (unwrap (get_free_collateral M margin_calculation)) (\<lambda>free_collateral.
     bindE (chk_i 64 (perp_delta + spot_delta)) (\<lambda>free_collateral_delta.
     liquidation_price_from (QUOTE_PRECISION M) free_collateral free_collateral_delta
       (case get_price_data M (am_oracle_map account_maps) (pm_amm_oracle perp_market) of
          Inl _ \<Rightarrow> Inl (Panic ''called `Result::unwrap()` on an `Err` value'')
        | Inr d \<Rightarrow> Inr (sint (opd_price d)))))))))))))"

definition calculate_liquidation_price :: "chain_env \<Rightarrow> ('st, 'pm, 'sm, 'om) map_env \<Rightarrow>
    ('pm, 'sm, 'om) margin_env \<Rightarrow> 'st drift_client \<Rightarrow> user \<Rightarrow> u16 \<Rightarrow> int res" where
  "calculate_liquidation_price C X M client user market_index =
     bindE (build_maps C X client user) (\<lambda>account_maps.
     calculate_liquidation_price_inner C M user market_index account_maps)"

record liquidation_and_pnl_info =
  lp_liquidation_price :: int
  lp_unrealized_pnl :: int

definition calculate_liquidation_price_and_unrealized_pnl :: "chain_env \<Rightarrow> ('st, 'pm, 'sm, 'om) map_env \<Rightarrow>
    ('pm, 'sm, 'om) margin_env \<Rightarrow> 'st drift_client \<Rightarrow> user \<Rightarrow> u16 \<Rightarrow> liquidation_and_pnl_info res" where
  "calculate_liquidation_price_and_unrealized_pnl C X M client user market_index =
     bindE (build_maps C X client user) (\<lambda>account_maps.
     bindE (of_opt (Err (NoPosiiton market_index)) (get_perp_position M user market_index)) (\<lambda>position.
     bindE (calculate_unrealized_pnl_inner M position market_index account_maps) (\<lambda>unrealized_pnl.
     bindE (calculate_liquidation_price_inner C M user market_index account_maps) (\<lambda>liquidation_price.
     Inr \<lparr>lp_liquidation_price = liquidation_price, lp_unrealized_pnl = unrealized_pnl\<rparr>))))"

section \<open>Properties\<close>

text \<open>
  C39. The unrealized profit of a position never overflows: it is the value of the base amount at the oracle
  price, a negative price counting as zero, rounded towards zero, plus the quote entry amount.
\<close>

theorem unrealized_pnl_value:
  assumes "perp_get_ref M (am_perp_market_map maps) market_index = Inr market"
    and "get_price_data M (am_oracle_map maps) (pm_amm_oracle market) = Inr d"
    and "0 < AMM_RESERVE_PRECISION M"
  shows "calculate_unrealized_pnl_inner M position market_index maps = Inr
    ((sint (pp_base_asset_amount position) * max (sint (opd_price d)) 0) sdiv AMM_RESERVE_PRECISION M +
      sint (pp_quote_entry_amount position))"
proof -
  let ?b = "sint (pp_base_asset_amount position)" and ?p = "max (sint (opd_price d)) 0"
  let ?v = "?b * ?p"
  have b: "\<bar>?b\<bar> \<le> 2 ^ 63" "\<bar>?p\<bar> \<le> 2 ^ 63"
    using i64_range [of "pp_base_asset_amount position"] i64_range [of "opd_price d"] by auto
  have "\<bar>?v\<bar> = \<bar>?b\<bar> * \<bar>?p\<bar>" by (simp only: abs_mult)
  also have "\<dots> \<le> 2 ^ 63 * 2 ^ 63" using b by (intro mult_mono) auto
  finally have v: "\<bar>?v\<bar> \<le> 2 ^ 126" by simp
  have "\<bar>?v sdiv AMM_RESERVE_PRECISION M\<bar> \<le> \<bar>?v\<bar>" by (rule abs_sdiv_le)
  with v have q: "\<bar>?v sdiv AMM_RESERVE_PRECISION M\<bar> \<le> 2 ^ 126" by linarith
  have "fits_i 128 ?v" using v by (auto simp: fits_i_def abs_le_iff)
  moreover have "fits_i 128 (?v sdiv AMM_RESERVE_PRECISION M)" using q by (auto simp: fits_i_def abs_le_iff)
  moreover have "fits_i 128 (?v sdiv AMM_RESERVE_PRECISION M + sint (pp_quote_entry_amount position))"
    using q i64_range [of "pp_quote_entry_amount position"] by (auto simp: fits_i_def abs_le_iff)
  ultimately show ?thesis
    using assms by (simp add: calculate_unrealized_pnl_inner_def mul_i_def)
qed

lemma wrap64_small: "0 \<le> x \<Longrightarrow> x < 2 ^ 63 \<Longrightarrow> wrap64 x = x"
  using sint_small [of "word_of_int x"] by (simp add: wrap64_def uint_word_of_int)

text \<open>
  C38. The liquidation price is where the free collateral is used up, to within less than the change of
  collateral per price unit; it lies below the oracle price when collateral grows with the price and above
  it when it falls.
\<close>

theorem liquidation_price_crossing:
  assumes "liquidation_price_from quote_precision free_collateral delta (Inr price) = Inr p" and "p \<noteq> - 1"
    and "uint free_collateral < 2 ^ 63" and "0 < quote_precision"
  shows "\<bar>uint free_collateral * quote_precision - (price - p) * delta\<bar> < \<bar>delta\<bar> \<and>
    (0 < delta \<longrightarrow> p \<le> price) \<and> (delta < 0 \<longrightarrow> price \<le> p)"
proof -
  let ?v = "uint free_collateral * quote_precision"
  have w: "wrap64 (uint free_collateral) = uint free_collateral"
    using assms(3) by (intro wrap64_small) simp_all
  have d: "delta \<noteq> 0" "p = price - ?v sdiv delta"
    using assms(1,2) by (auto simp: liquidation_price_from_def returns mul_i_def w split: if_splits)
  have nonneg: "0 \<le> ?v" using assms(4) by simp
  have "?v - (?v sdiv delta) * delta = ?v smod delta"
    by (simp add: minus_sdiv_mult_eq_smod)
  moreover have "\<bar>?v smod delta\<bar> < \<bar>delta\<bar>" using d(1) by (simp add: smod_int_alt_def abs_mult abs_mod_less)
  moreover have "0 < delta \<Longrightarrow> 0 \<le> ?v sdiv delta" "delta < 0 \<Longrightarrow> ?v sdiv delta \<le> 0"
    using nonneg by (simp_all add: signed_divide_int_def sgn_if div_int_pos_iff)
  ultimately show ?thesis using d by simp
qed

text \<open>
  The liquidation price of a user whose collateral does not depend on the oracle, as that of a position
  without base amount, is no value: the computation divides by zero.
\<close>

theorem flat_position_panics:
  assumes "uint free_collateral \<noteq> 0" and "uint free_collateral * quote_precision < 2 ^ 63"
    and "uint free_collateral < 2 ^ 63" and "0 < quote_precision"
  shows "liquidation_price_from quote_precision free_collateral 0 live_price =
    Inl (Panic ''attempt to divide by zero'')"
proof -
  have "wrap64 (uint free_collateral) = uint free_collateral"
    using assms(3) by (intro wrap64_small) simp_all
  moreover have "- (2 ^ 63) \<le> uint free_collateral * quote_precision"
    using assms(4) by (meson mult_nonneg_nonneg neg_le_0_iff_le order.strict_implies_order order_trans
        uint_range(1) zero_le_numeral zero_le_power)
  moreover have "free_collateral \<noteq> 0" using assms(1) by auto
  ultimately show ?thesis
    using assms by (simp add: liquidation_price_from_def mul_i_def fits_i_def div_i_def)
qed

text \<open>
  Free collateral of more than about nine million quote units overflows the computation of the
  liquidation price, whatever the position.
\<close>

theorem large_collateral_overflows:
  assumes "uint free_collateral < 2 ^ 63" and "2 ^ 63 \<le> uint free_collateral * quote_precision"
  shows "liquidation_price_from quote_precision free_collateral delta live_price = overflow"
proof -
  have "wrap64 (uint free_collateral) = uint free_collateral"
    using assms(1) by (intro wrap64_small) simp_all
  moreover have "free_collateral \<noteq> 0" using assms(2) by auto
  ultimately show ?thesis
    using assms(2) by (simp add: liquidation_price_from_def mul_i_def chk_i_def fits_i_def)
qed

text \<open>
  The leverage of a user with negative net asset value is no value: the sign is cast to an unsigned
  number, and the product with a ratio of at least two overflows.
\<close>

theorem negative_value_panics:
  assumes "net_asset_value < 0" and "- (2 ^ 127) < net_asset_value"
    and "2 \<le> uint (scaled_ratio M total_liability_value (word_of_int (- net_asset_value)))"
  shows "calculate_leverage M total_liability_value net_asset_value = overflow"
proof -
  have "uint (- 1 :: i128) = 2 ^ 128 - 1"
    by (simp add: unsigned_minus_1_eq_mask mask_eq_exp_minus_1)
  then show ?thesis using assms by (simp add: calculate_leverage_def fits_i_def umul_def Let_def)
qed

text \<open>
  The net asset value is the collateral minus the liabilities as long as these fit a signed number. Beyond
  that the excess is subtracted with the wrong sign: for liabilities of one more than that bound, or two,
  the result is larger than the true difference.
\<close>

theorem net_asset_value_excess:
  assumes "uint liability = 2 ^ 127 - 1 + excess" and "0 < excess" and "0 \<le> sint collateral"
    and "excess \<le> sint collateral + 1"
  shows "calculate_net_asset_value collateral liability =
    Inr (sint collateral - uint liability + (2 * excess - 1))"
proof -
  have m: "sint collateral < 2 ^ 127" using sint_lt [of collateral] by simp
  have s: "uint collateral = sint collateral"
    using assms(3) m by (simp add: uint_sint take_bit_int_eq_self)
  have "fits_u 128 (uint collateral + 1)" "fits_i 128 (sint collateral - (2 ^ 127 - 1 - (excess - 1)))"
    using assms s m by (auto simp: fits_u_def fits_i_def)
  then show ?thesis
    using assms(1,2,4) s by (simp add: calculate_net_asset_value_def Let_def)
qed

lemma net_asset_value_exact:
  "uint liability < 2 ^ 127 \<Longrightarrow> calculate_net_asset_value collateral liability =
    chk_i 128 (sint collateral - uint liability)"
  by (simp add: calculate_net_asset_value_def)

text \<open>A client with one perp position, whose market and the quote market share an oracle.\<close>

definition sample_margin_client :: "unit drift_client" where
  "sample_margin_client = sample_client\<lparr>dc_backend := sample_backend
     \<lparr>be_perp_market_map := (be_perp_market_map sample_backend)
        \<lparr>mm_marketmap := [(3, \<lparr>das_slot = 9, das_data = sample_perp_market 3\<rparr>)]\<rparr>,
      be_spot_market_map := (be_spot_market_map sample_backend)
        \<lparr>mm_marketmap := [(0, \<lparr>das_slot = 9, das_data = sample_spot_market 0\<rparr>)]\<rparr>,
      be_oracle_map := (be_oracle_map sample_backend)\<lparr>om_oraclemap := [(300,
        \<lparr>or_pubkey = 300, or_data = \<lparr>opd_price = 5, opd_confidence = 0, opd_delay = 0,
          opd_has_sufficient_number_of_data_points = True\<rparr>, or_source = Pyth, or_slot = 9, or_raw = [8]\<rparr>)]\<rparr>\<rparr>\<rparr>"

definition sample_holder :: user where
  "sample_holder = sample_user\<lparr>u_perp_positions := [\<lparr>pp_market_index = 3, pp_base_asset_amount = 2000000000,
     pp_quote_entry_amount = - 7, pp_open_orders = 0\<rparr>]\<rparr>"

definition sample_map_env :: "(unit, perp_market list, spot_market list, account_info list) map_env" where
  "sample_map_env = \<lparr>spot_market_discriminator = [1], perp_market_discriminator = [2],
     spot_market_bytes = (\<lambda>_. [3]), perp_market_bytes = (\<lambda>_. [4]), pyth_program = 50, switchboard_program = 51,
     hash_order = rev, load_perp_markets = (\<lambda>_. Inr [sample_perp_market 3]),
     load_spot_markets = (\<lambda>_. Inr []), load_oracles = (\<lambda>infos _ _. Inr infos)\<rparr>"

lemma sample_live:
  "get_perp_market_account sample_margin_client 3 = Some (sample_perp_market 3)"
  "get_spot_market_account sample_margin_client 0 = Some (sample_spot_market 0)"
  "spot_indexes sample_chain sample_holder = []" "perp_indexes sample_chain sample_holder = [3]"
  by (simp_all add: get_perp_market_account_def get_perp_market_account_and_slot_def
      get_spot_market_account_def get_spot_market_account_and_slot_def market_map_get_def
      sample_margin_client_def sample_holder_def sample_user_def spot_indexes_def perp_indexes_def sample_chain_def)

definition sample_margin_env :: "(perp_market list, spot_market list, account_info list) margin_env" where
  "sample_margin_env = \<lparr>QUOTE_PRECISION = 1000000, MARGIN_PRECISION = 10000, BASE_PRECISION = 1000000000,
     AMM_RESERVE_PRECISION = 1000000000, SPOT_WEIGHT_PRECISION = 10000,
     margin_requirement = (\<lambda>_ _ _ _. Inl ''none''), get_free_collateral = (\<lambda>_. None),
     perp_get_ref = (\<lambda>ms i. case find (\<lambda>m. pm_market_index m = i) ms of Some m \<Rightarrow> Inr m | None \<Rightarrow> Inl ''none''),
     spot_market_entries = (\<lambda>_. []), max_confidence_multiplier = (\<lambda>_. Inr 1),
     get_price_data_and_validity = (\<lambda>_ _ _. Inl ''none''),
     get_price_data = (\<lambda>_ _. Inr \<lparr>opd_price = 5, opd_confidence = 0, opd_delay = 0,
       opd_has_sufficient_number_of_data_points = True\<rparr>),
     get_perp_position = (\<lambda>u i. find (\<lambda>p. pp_market_index p = i) (u_perp_positions u)),
     get_spot_position = (\<lambda>_ _. None), simulate_settled_lp_position = (\<lambda>p _ _. Inr p),
     worst_case_base_asset_amount = (\<lambda>_. Some 0), get_margin_ratio = (\<lambda>_ _. Some 500),
     get_signed_token_amount = (\<lambda>_ _. Some 0), get_asset_weight = (\<lambda>_ _. Some 0),
     get_liability_weight = (\<lambda>_ _. Some 0), scaled_ratio = (\<lambda>_ _. 3)\<rparr>"

theorem unrealized_pnl_value_witness:
  "calculate_unrealized_pnl_inner sample_margin_env \<lparr>pp_market_index = 3, pp_base_asset_amount = 2000000000,
     pp_quote_entry_amount = - 7, pp_open_orders = 0\<rparr> 3
     \<lparr>am_perp_market_map = [sample_perp_market 3], am_spot_market_map = [], am_oracle_map = []\<rparr> = Inr 3"
  by (subst unrealized_pnl_value [where market = "sample_perp_market 3"])
    (simp_all add: sample_margin_env_def sample_perp_market_def, simp add: signed_divide_int_def)

theorem liquidation_price_crossing_witness:
  "liquidation_price_from 1000000 50 (- 2000000) (Inr 100) = Inr 125 \<and> (100 :: int) \<le> 125"
proof -
  have "liquidation_price_from 1000000 50 (- 2000000) (Inr 100) = Inr 125"
    by (simp add: liquidation_price_from_def mul_i_def fits_i_def wrap64_small signed_divide_int_def)
  with liquidation_price_crossing [OF this] show ?thesis by simp
qed

theorem large_collateral_overflows_witness:
  "liquidation_price_from 1000000 10000000000000 5 (Inr 100) = overflow"
  by (rule large_collateral_overflows) simp_all

theorem flat_position_panics_witness:
  "liquidation_price_from 1000000 50 0 (Inr 100) = Inl (Panic ''attempt to divide by zero'')"
  by (rule flat_position_panics) simp_all

theorem negative_value_panics_witness: "calculate_leverage sample_margin_env 10 (- 5) = overflow"
  by (rule negative_value_panics) (simp_all add: sample_margin_env_def)

theorem net_asset_value_excess_witness:
  "calculate_net_asset_value 5 (2 ^ 127) = Inr (6 - 2 ^ 127)"
  by (subst net_asset_value_excess [where excess = 1]) simp_all

theorem account_map_accounts_witness:
  "\<exists>keys. placed_accounts sample_chain sample_map_env sample_margin_client sample_holder
      account_map_builder_default = Inr (keys, [], [\<lparr>ai_key = 203, ai_data = [2, 4], ai_owner = 1000\<rparr>],
      [\<lparr>ai_key = 300, ai_data = [8], ai_owner = 50\<rparr>])"
proof -
  let ?live = "\<lparr>or_pubkey = 300, or_data = \<lparr>opd_price = 5, opd_confidence = 0, opd_delay = 0,
    opd_has_sufficient_number_of_data_points = True\<rparr>, or_source = Pyth, or_slot = 9, or_raw = [8]\<rparr> :: live_oracle"
  have live: "markets_live sample_chain sample_margin_client sample_holder"
    by (simp add: markets_live_def sample_live)
  have oracles: "user_oracles sample_chain sample_margin_client sample_holder = {300}"
    by (simp add: user_oracles_def sample_live live_spot_def live_perp_def sample_spot_market_def sample_perp_market_def)
  have get: "\<forall>k\<in>user_oracles sample_chain sample_margin_client sample_holder.
      oracle_map_get (be_oracle_map (dc_backend sample_margin_client)) k = Some ?live"
    unfolding oracles by (simp add: oracle_map_get_def sample_margin_client_def)
  have "mset (hash_order sample_map_env ks) = mset ks" for ks by (simp add: sample_map_env_def)
  from account_map_accounts [OF live this get] obtain keys os where
    p: "placed_accounts sample_chain sample_map_env sample_margin_client sample_holder account_map_builder_default =
      Inr (keys, [], [\<lparr>ai_key = 203, ai_data = [2, 4], ai_owner = 1000\<rparr>],
      map (\<lambda>k. \<lparr>ai_key = k, ai_data = [8], ai_owner = 50\<rparr>) os)" and os: "distinct os" "set os = {300}"
    by (auto simp: sample_live oracles live_perp_def sample_map_env_def oracle_owner_def)
      (auto simp: sample_perp_market_def sample_chain_def)
  have "length os = 1" using distinct_card [OF os(1)] os(2) by simp
  then have "os = [300]" using os(2) by (cases os) auto
  with p show ?thesis by simp
qed

end
