(* ===== verification/Dlob_Client.thy ===== *)
theory Dlob_Client
  imports Text_Utils
begin

text \<open>
  The client of the order book server, \<open>src/src/dlob_client.rs\<close>: its requests and the books it reads
  from the answers. What the server answers for a URL, and parsing a text as JSON, are parameters;
  reading a book from JSON is modelled, as the structs' derived code and \<open>parse_int_str\<close> do it.
\<close>

section \<open>JSON\<close>

text \<open>
  The members of an object are in the order of the text. A string carries whether the text has it
  without escapes, so that it can be borrowed from there.
\<close>

datatype json =
    JNull
  | JBool bool
  | JInt int
  | JFloat
  | JStr bool string
  | JArr "json list"
  | JObj "(string \<times> json) list"

text \<open>The field of a struct: its name must not be given twice.\<close>

definition json_field :: "string \<Rightarrow> (string \<times> json) list \<Rightarrow> json option" where
  "json_field name members =
     (case filter (\<lambda>(k, _). k = name) members of [(_, v)] \<Rightarrow> Some v | _ \<Rightarrow> None)"

text \<open>The values of a struct's fields: from an object by name or from an array by position.\<close>

definition json_fields :: "string list \<Rightarrow> json \<Rightarrow> json list option" where
  "json_fields names v =
     (case v of
        JObj members \<Rightarrow> collect_opt (map (\<lambda>name. json_field name members) names)
      | JArr vs \<Rightarrow> if length vs = length names then Some vs else None
      | _ \<Rightarrow> None)"

definition json_u64 :: "json \<Rightarrow> u64 option" where
  "json_u64 v = (case v of JInt n \<Rightarrow> if fits_u 64 n then Some (word_of_int n) else None | _ \<Rightarrow> None)"

definition json_string :: "json \<Rightarrow> string option" where
  "json_string v = (case v of JStr _ s \<Rightarrow> Some s | _ \<Rightarrow> None)"

definition json_vec :: "(json \<Rightarrow> 'a option) \<Rightarrow> json \<Rightarrow> 'a list option" where
  "json_vec element v = (case v of JArr vs \<Rightarrow> collect_opt (map element vs) | _ \<Rightarrow> None)"

text \<open>\<open>Value::get\<close> and \<open>as_str\<close> on a parsed value: of members with the same name the last counts.\<close>

definition value_get_str :: "string \<Rightarrow> json \<Rightarrow> string option" where
  "value_get_str name v =
     (case v of JObj members \<Rightarrow> Option.bind (map_of (rev members) name) json_string | _ \<Rightarrow> None)"

section \<open>Order books\<close>

text \<open>\<open>parse\<close> of a signed integer: a minus sign, or what an unsigned integer may have.\<close>

definition parse_signed :: "nat \<Rightarrow> string \<Rightarrow> int option" where
  "parse_signed w s =
     (case s of
        c # digits \<Rightarrow>
          if c = CHR ''-'' then
            if digits \<noteq> [] \<and> list_all is_digit digits \<and> undec digits \<le> 2 ^ (w - 1)
            then Some (- int (undec digits)) else None
          else map_option int (parse_unsigned (w - 1) s)
      | [] \<Rightarrow> None)"

definition parse_int_str :: "json \<Rightarrow> i64 option" where
  "parse_int_str v =
     (case v of JStr True s \<Rightarrow> map_option word_of_int (parse_signed 64 s) | _ \<Rightarrow> None)"

record l2_level =
  l2_price :: i64
  l2_size :: i64

record l3_level =
  l3_price :: i64
  l3_size :: i64
  l3_maker :: string
  l3_order_id :: u64

record 'level orderbook =
  ob_bids :: "'level list"
  ob_asks :: "'level list"
  ob_slot :: u64

type_synonym l2_orderbook = "l2_level orderbook"
type_synonym l3_orderbook = "l3_level orderbook"

definition l2_level_of_json :: "json \<Rightarrow> l2_level option" where
  "l2_level_of_json v =
     (case json_fields [''price'', ''size''] v of
        Some [pv, sv] \<Rightarrow>
          (case (parse_int_str pv, parse_int_str sv) of
             (Some p, Some s) \<Rightarrow> Some \<lparr>l2_price = p, l2_size = s\<rparr>
           | _ \<Rightarrow> None)
      | _ \<Rightarrow> None)"

definition l3_level_of_json :: "json \<Rightarrow> l3_level option" where
  "l3_level_of_json v =
     (case json_fields [''price'', ''size'', ''maker'', ''orderId''] v of
        Some [pv, sv, mv, iv] \<Rightarrow>
          (case (parse_int_str pv, parse_int_str sv, json_string mv, json_u64 iv) of
             (Some p, Some s, Some m, Some i) \<Rightarrow>
               Some \<lparr>l3_price = p, l3_size = s, l3_maker = m, l3_order_id = i\<rparr>
           | _ \<Rightarrow> None)
      | _ \<Rightarrow> None)"

definition orderbook_of_json :: "(json \<Rightarrow> 'level option) \<Rightarrow> json \<Rightarrow> 'level orderbook option" where
  "orderbook_of_json level v =
     (case json_fields [''bids'', ''asks'', ''slot''] v of
        Some [bv, av, sv] \<Rightarrow>
          (case (json_vec level bv, json_vec level av, json_u64 sv) of
             (Some b, Some a, Some s) \<Rightarrow> Some \<lparr>ob_bids = b, ob_asks = a, ob_slot = s\<rparr>
           | _ \<Rightarrow> None)
      | _ \<Rightarrow> None)"

definition l2_orderbook_of_json :: "json \<Rightarrow> l2_orderbook option" where
  "l2_orderbook_of_json = orderbook_of_json l2_level_of_json"

definition l3_orderbook_of_json :: "json \<Rightarrow> l3_orderbook option" where
  "l3_orderbook_of_json = orderbook_of_json l3_level_of_json"

text \<open>The derived \<open>Serialize\<close>: integers are written as numbers.\<close>

definition l2_level_to_json :: "l2_level \<Rightarrow> json" where
  "l2_level_to_json l = JObj [(''price'', JInt (sint (l2_price l))), (''size'', JInt (sint (l2_size l)))]"

definition l3_level_to_json :: "(string \<Rightarrow> bool) \<Rightarrow> l3_level \<Rightarrow> json" where
  "l3_level_to_json plain l =
     JObj [(''price'', JInt (sint (l3_price l))), (''size'', JInt (sint (l3_size l))),
       (''maker'', JStr (plain (l3_maker l)) (l3_maker l)), (''orderId'', JInt (uint (l3_order_id l)))]"

definition orderbook_to_json :: "('level \<Rightarrow> json) \<Rightarrow> 'level orderbook \<Rightarrow> json" where
  "orderbook_to_json level book =
     JObj [(''bids'', JArr (map level (ob_bids book))), (''asks'', JArr (map level (ob_asks book))),
       (''slot'', JInt (uint (ob_slot book)))]"

section \<open>Requests\<close>

record json_env =
  je_value :: "string \<Rightarrow> json option"
  je_tree :: "string \<Rightarrow> json option"

record dlob_client =
  dc_url :: string

definition dlob_client_new :: "string \<Rightarrow> dlob_client" where
  "dlob_client_new url = \<lparr>dc_url = trim_end_matches CHR ''/'' url\<rparr>"

definition l2_url :: "dlob_client \<Rightarrow> market_id \<Rightarrow> u8 option \<Rightarrow> string" where
  "l2_url c market depth =
     dc_url c @ ''/l2?marketType='' @
     (case mid_kind market of market_type.Perp \<Rightarrow> ''perp'' | market_type.Spot \<Rightarrow> ''spot'') @
     ''&marketIndex='' @ dec (unat (mid_index market)) @
     (case depth of None \<Rightarrow> [] | Some d \<Rightarrow> ''&depth='' @ dec (unat d))"

definition l3_url :: "dlob_client \<Rightarrow> market_id \<Rightarrow> string" where
  "l3_url c market =
     dc_url c @ ''/l3?marketType='' @
     (case mid_kind market of market_type.Perp \<Rightarrow> ''perp'' | market_type.Spot \<Rightarrow> ''spot'') @
     ''&marketIndex='' @ dec (unat (mid_index market))"

text \<open>The server: a failed request or the body it sends for a URL.\<close>

type_synonym book_server = "string \<Rightarrow> ext_error + string"

definition get_l2 :: "json_env \<Rightarrow> book_server \<Rightarrow> dlob_client \<Rightarrow> market_id \<Rightarrow> u8 option \<Rightarrow>
    sdk_error + l2_orderbook" where
  "get_l2 E server c market depth =
     (case server (l2_url c market depth) of
        Inl e \<Rightarrow> Inl (Http e)
      | Inr body \<Rightarrow> of_opt Deserializing (Option.bind (je_tree E body) l2_orderbook_of_json))"

definition get_l3 :: "json_env \<Rightarrow> book_server \<Rightarrow> dlob_client \<Rightarrow> market_id \<Rightarrow> sdk_error + l3_orderbook" where
  "get_l3 E server c market =
     (case server (l3_url c market) of
        Inl e \<Rightarrow> Inl (Http e)
      | Inr body \<Rightarrow> of_opt Deserializing (Option.bind (je_tree E body) l3_orderbook_of_json))"

section \<open>Integers as text\<close>

text \<open>How the server writes an integer: in decimal, in a string.\<close>

definition int_text :: "i64 \<Rightarrow> string" where
  "int_text w = (if 0 \<le> sint w then dec (nat (sint w)) else CHR ''-'' # dec (nat (- sint w)))"

lemma parse_signed_text: "parse_signed 64 (int_text w) = Some (sint w)"
proof (cases "0 \<le> sint w")
  case True
  obtain c r where c: "dec (nat (sint w)) = c # r" by (cases "dec (nat (sint w))") simp_all
  then have "c \<noteq> CHR ''-''" using dash_not_in_dec [of "nat (sint w)"] by auto
  moreover have "nat (sint w) < 2 ^ 63" using i64_range [of w] True by simp
  then have "parse_unsigned 63 (c # r) = Some (nat (sint w))"
    unfolding c [symmetric] by (rule parse_unsigned_dec)
  ultimately show ?thesis using True by (simp add: int_text_def parse_signed_def c)
next
  case False
  have "nat (- sint w) \<le> 2 ^ 63" using i64_range [of w] by simp
  then show ?thesis
    using False by (simp add: int_text_def parse_signed_def undec_dec list_all_iff dec_all_digits)
qed

lemma parse_int_str_text: "parse_int_str (JStr True (int_text w)) = Some w"
  by (simp add: parse_int_str_def parse_signed_text)

definition server_l2_level :: "l2_level \<Rightarrow> json" where
  "server_l2_level l = JObj [(''price'', JStr True (int_text (l2_price l))), (''size'', JStr True (int_text (l2_size l)))]"

definition server_l3_level :: "l3_level \<Rightarrow> json" where
  "server_l3_level l =
     JObj [(''maker'', JStr True (l3_maker l)), (''orderId'', JInt (uint (l3_order_id l))),
       (''price'', JStr True (int_text (l3_price l))), (''size'', JStr True (int_text (l3_size l)))]"

lemma json_u64_uint [simp]: "json_u64 (JInt (uint w)) = Some w"
  using u64_range [of w] by (simp add: json_u64_def fits_u_def)

lemma server_levels:
  "l2_level_of_json (server_l2_level a) = Some a" "l3_level_of_json (server_l3_level b) = Some b"
  by (simp_all add: l2_level_of_json_def server_l2_level_def l3_level_of_json_def server_l3_level_def
      json_fields_def json_field_def parse_int_str_text json_string_def)

lemma collect_opt_map_Some [simp]: "collect_opt (map Some xs) = Some xs"
  by (induction xs) simp_all

lemma orderbook_of_json_to:
  assumes "\<And>l. level (to_json l) = Some l"
  shows "orderbook_of_json level (orderbook_to_json to_json book) = Some book"
  by (simp add: assms orderbook_of_json_def orderbook_to_json_def json_fields_def json_field_def json_vec_def comp_def)

lemma l2_level_to_json_rejected: "l2_level_of_json (l2_level_to_json l) = None"
  by (simp add: l2_level_of_json_def l2_level_to_json_def json_fields_def json_field_def parse_int_str_def)

lemma collect_opt_Nones: "collect_opt (map (\<lambda>_. None) xs) = (if xs = [] then Some [] else None)"
  by (cases xs) simp_all

section \<open>Properties\<close>

text \<open>
  C37. A book is read from the server's JSON as it is, the prices and sizes in strings and over the whole
  range of the integers.
\<close>

theorem server_book_roundtrip:
  "l2_orderbook_of_json (orderbook_to_json server_l2_level a) = Some a \<and>
   l3_orderbook_of_json (orderbook_to_json server_l3_level b) = Some b"
  using orderbook_of_json_to [of l2_level_of_json server_l2_level]
    orderbook_of_json_to [of l3_level_of_json server_l3_level]
  by (simp add: l2_orderbook_of_json_def l3_orderbook_of_json_def server_levels)

text \<open>
  A book the crate itself has written as JSON cannot be read back by it, unless it has no level: prices
  are written as numbers and read from strings only.
\<close>

theorem written_book_unreadable:
  "l2_orderbook_of_json (orderbook_to_json l2_level_to_json book) =
    (if ob_bids book = [] \<and> ob_asks book = [] then Some book else None)"
  by (cases "ob_bids book = []"; cases "ob_asks book = []")
    (simp_all add: l2_orderbook_of_json_def orderbook_of_json_def orderbook_to_json_def json_fields_def
      json_field_def json_vec_def comp_def l2_level_to_json_rejected collect_opt_Nones split: option.split)

end
