(* ===== verification/Dlob_Streams.thy ===== *)
theory Dlob_Streams
  imports Dlob_Client "HOL-Library.Sublist"
begin

text \<open>
  The streams of \<open>src/src/dlob_client.rs\<close>: books asked for at an interval, and books sent over a
  websocket. Each is a task that sends to a channel of 16 items; what the task, its clock and the
  consumer do is a sequence of steps. The polling task gives up when the channel is full; the websocket
  task waits for a free place, and while it waits it reads no message.
\<close>

section \<open>The channel and its task\<close>

datatype task_state = Running | Stopped | Crashed string

record 'a book_stream =
  bs_queue :: "'a list"
  bs_taken :: "'a list"
  bs_open :: bool
  bs_task :: task_state

definition book_capacity :: nat where "book_capacity = 16"

definition book_stream_new :: "'a book_stream" where
  "book_stream_new = \<lparr>bs_queue = [], bs_taken = [], bs_open = True, bs_task = Running\<rparr>"

text \<open>The consumer: \<open>poll_next\<close>, or the stream is dropped.\<close>

definition rx_poll :: "('a, 'z) book_stream_scheme \<Rightarrow> ('a, 'z) book_stream_scheme" where
  "rx_poll s = (case bs_queue s of
     [] \<Rightarrow> s | x # q \<Rightarrow> if bs_open s then s\<lparr>bs_queue := q, bs_taken := bs_taken s @ [x]\<rparr> else s)"

definition rx_drop :: "('a, 'z) book_stream_scheme \<Rightarrow> ('a, 'z) book_stream_scheme" where
  "rx_drop s = s\<lparr>bs_open := False, bs_queue := []\<rparr>"

text \<open>What a finished poll returns: an item, the end of the stream, or \<open>None\<close> if it has to wait.\<close>

definition rx_ready :: "('a, 'z) book_stream_scheme \<Rightarrow> 'a option option" where
  "rx_ready s = (case bs_queue s of
     x # _ \<Rightarrow> Some (Some x) | [] \<Rightarrow> if bs_task s = Running then None else Some None)"

section \<open>Polling\<close>

text \<open>One turn of the loop, after the tick of the interval and the answer to the request.\<close>

definition book_tick :: "'a book_stream \<Rightarrow> 'a \<Rightarrow> 'a book_stream" where
  "book_tick s book =
     (if bs_task s \<noteq> Running then s
      else if bs_open s \<and> length (bs_queue s) < book_capacity then s\<lparr>bs_queue := bs_queue s @ [book]\<rparr>
      else s\<lparr>bs_task := Stopped\<rparr>)"

text \<open>What the request of a tick gets is known with the tick.\<close>

datatype 'i stream_input = Tick 'i | Poll | Drop

fun stream_step :: "('i \<Rightarrow> 'a) \<Rightarrow> 'a book_stream \<Rightarrow> 'i stream_input \<Rightarrow> 'a book_stream" where
  "stream_step ask s (Tick server) = book_tick s (ask server)"
| "stream_step ask s Poll = rx_poll s"
| "stream_step ask s Drop = rx_drop s"

definition interval_period :: "u64 option \<Rightarrow> u64" where
  "interval_period interval_s = (case interval_s of None \<Rightarrow> 1 | Some s \<Rightarrow> s)"

text \<open>The timer is made first; its period must not be zero.\<close>

definition subscribe_l2_book :: "json_env \<Rightarrow> dlob_client \<Rightarrow> market_id \<Rightarrow> u64 option \<Rightarrow>
    book_server stream_input list \<Rightarrow> (sdk_error + l2_orderbook) book_stream res" where
  "subscribe_l2_book E c market interval_s inputs =
     bindE (guardE (interval_period interval_s \<noteq> 0) (Panic ''`period` must be non-zero.'')) (\<lambda>_.
     Inr (foldl (stream_step (\<lambda>server. get_l2 E server c market None)) book_stream_new inputs))"

definition subscribe_l3_book :: "json_env \<Rightarrow> dlob_client \<Rightarrow> market_id \<Rightarrow> u64 option \<Rightarrow>
    book_server stream_input list \<Rightarrow> (sdk_error + l3_orderbook) book_stream res" where
  "subscribe_l3_book E c market interval_s inputs =
     bindE (guardE (interval_period interval_s \<noteq> 0) (Panic ''`period` must be non-zero.'')) (\<lambda>_.
     Inr (foldl (stream_step (\<lambda>server. get_l3 E server c market)) book_stream_new inputs))"

section \<open>The websocket\<close>

datatype feed_message = FeedText string | FeedClose | FeedOther

definition heartbeat_interval :: nat where "heartbeat_interval = 5000000000"

fun contains_text :: "string \<Rightarrow> string \<Rightarrow> bool" where
  "contains_text pattern [] \<longleftrightarrow> pattern = []"
| "contains_text pattern (c # s) \<longleftrightarrow> starts_with (c # s) pattern \<or> contains_text pattern s"

text \<open>What the loop does with a message read \<open>elapsed\<close> nanoseconds after the last heartbeat.\<close>

datatype 'a reaction = Beat | Send 'a | SendLast 'a | Ignore | Quit | Crash string

definition handle_message :: "json_env \<Rightarrow> nat \<Rightarrow> ext_error + feed_message \<Rightarrow>
    (sdk_error + l2_orderbook) reaction" where
  "handle_message E elapsed message =
     (if heartbeat_interval < elapsed then SendLast (Inl MissedHeartbeat)
      else
        case message of
          Inr (FeedText text_msg) \<Rightarrow>
            let v = (case je_value E text_msg of Some v \<Rightarrow> v | None \<Rightarrow> JObj []) in
            (case value_get_str ''channel'' v of
               None \<Rightarrow> Ignore
             | Some channel \<Rightarrow>
                 if channel = ''heartbeat'' then Beat
                 else if contains_text ''orderbook'' channel then
                   (case value_get_str ''data'' v of
                      None \<Rightarrow> Crash ''called `Option::unwrap()` on a `None` value''
                    | Some orderbook_data \<Rightarrow>
                        Send (of_opt Deserializing
                          (Option.bind (je_tree E orderbook_data) l2_orderbook_of_json)))
                 else Ignore)
        | Inr FeedClose \<Rightarrow> Quit
        | Inr FeedOther \<Rightarrow> Ignore
        | Inl _ \<Rightarrow> SendLast (Inl WebsocketError))"

text \<open>
  The task with its clock in nanoseconds, the time of the last heartbeat, and the item it waits to send,
  with whether it stops after that.
\<close>

record feed_book_stream = "(sdk_error + l2_orderbook) book_stream" +
  feed_clock :: nat
  feed_last_heartbeat :: nat
  feed_pending :: "((sdk_error + l2_orderbook) \<times> bool) option"

text \<open>
  A send that fails, because the stream was dropped, ends the task if the item was a book; the failure
  to send an error is ignored.
\<close>

definition feed_put :: "(sdk_error + l2_orderbook) \<Rightarrow> bool \<Rightarrow> feed_book_stream \<Rightarrow> feed_book_stream" where
  "feed_put item final s =
     (if \<not> bs_open s then (if final \<or> \<not> isl item then s\<lparr>bs_task := Stopped\<rparr> else s)
      else if length (bs_queue s) < book_capacity then
        s\<lparr>bs_queue := bs_queue s @ [item], bs_task := (if final then Stopped else Running)\<rparr>
      else s\<lparr>feed_pending := Some (item, final)\<rparr>)"

definition feed_frame :: "json_env \<Rightarrow> ext_error + feed_message \<Rightarrow> feed_book_stream \<Rightarrow> feed_book_stream" where
  "feed_frame E message s =
     (case handle_message E (feed_clock s - feed_last_heartbeat s) message of
        Beat \<Rightarrow> s\<lparr>feed_last_heartbeat := feed_clock s\<rparr>
      | Send item \<Rightarrow> feed_put item False s
      | SendLast item \<Rightarrow> feed_put item True s
      | Ignore \<Rightarrow> s
      | Quit \<Rightarrow> s\<lparr>bs_task := Stopped\<rparr>
      | Crash msg \<Rightarrow> s\<lparr>bs_task := Crashed msg\<rparr>)"

text \<open>
  Connecting and sending the subscription come first; a URL that is neither http nor https panics. The
  task then starts at the clock's time.
\<close>

definition subscribe_ws :: "dlob_client \<Rightarrow> (string \<Rightarrow> ext_error option) \<Rightarrow>
    ((string \<times> string) list \<Rightarrow> ext_error option) \<Rightarrow> nat \<Rightarrow> string \<Rightarrow> feed_book_stream res" where
  "subscribe_ws c connect send now market_symbol =
     (case http_to_ws (dc_url c) of
        Inl e \<Rightarrow> Inl (Panic e)
      | Inr feed_url \<Rightarrow>
          (case connect feed_url of
             Some e \<Rightarrow> Inl (Err (ConnectionError e))
           | None \<Rightarrow>
               (case send (dlob_subscribe_ws_json market_symbol) of
                  Some e \<Rightarrow> Inl (Err (SubscriptionFailure e))
                | None \<Rightarrow> Inr \<lparr>bs_queue = [], bs_taken = [], bs_open = True, bs_task = Running,
                    feed_clock = now, feed_last_heartbeat = now, feed_pending = None\<rparr>)))"

datatype feed_event =
    Elapse nat
  | Frame "ext_error + feed_message"
  | SocketEnd
  | Resume
  | Consume
  | Release

inductive feed_step :: "json_env \<Rightarrow> feed_book_stream \<Rightarrow> feed_event \<Rightarrow> feed_book_stream \<Rightarrow> bool" for E where
  Elapse: "feed_step E s (Elapse d) (s\<lparr>feed_clock := feed_clock s + d\<rparr>)"
| Frame: "bs_task s = Running \<Longrightarrow> feed_pending s = None \<Longrightarrow> feed_step E s (Frame m) (feed_frame E m s)"
| SocketEnd: "bs_task s = Running \<Longrightarrow> feed_pending s = None \<Longrightarrow>
    feed_step E s SocketEnd (s\<lparr>bs_task := Stopped\<rparr>)"
| Resume: "bs_task s = Running \<Longrightarrow> feed_pending s = Some (item, final) \<Longrightarrow>
    \<not> bs_open s \<or> length (bs_queue s) < book_capacity \<Longrightarrow>
    feed_step E s Resume (feed_put item final (s\<lparr>feed_pending := None\<rparr>))"
| Consume: "bs_open s \<Longrightarrow> bs_queue s \<noteq> [] \<Longrightarrow> feed_step E s Consume (rx_poll s)"
| Release: "bs_open s \<Longrightarrow> feed_step E s Release (rx_drop s)"

inductive_cases feed_step_cases: "feed_step E s ev t"

text \<open>A run, with the messages the task has handled and the time it read each.\<close>

inductive feed_run :: "json_env \<Rightarrow> feed_book_stream \<Rightarrow> (nat \<times> (ext_error + feed_message)) list \<Rightarrow>
    feed_book_stream \<Rightarrow> bool" for E s where
  Start: "feed_run E s [] s"
| Step: "feed_run E s fs t \<Longrightarrow> feed_step E t ev u \<Longrightarrow>
    feed_run E s (fs @ (case ev of Frame m \<Rightarrow> [(feed_clock t, m)] | _ \<Rightarrow> [])) u"

section \<open>What the polled stream delivers\<close>

fun tick_of :: "'i stream_input \<Rightarrow> 'i option" where
  "tick_of (Tick i) = Some i"
| "tick_of _ = None"

definition sent_books :: "('a, 'z) book_stream_scheme \<Rightarrow> 'a list" where
  "sent_books s = bs_taken s @ bs_queue s"

definition polled_ok :: "'a list \<Rightarrow> 'a book_stream \<Rightarrow> bool" where
  "polled_ok books s \<longleftrightarrow>
     bs_open s \<and> length (bs_queue s) \<le> book_capacity \<and> prefix (sent_books s) books \<and>
     (if sent_books s = books then bs_task s = Running
      else bs_task s = Stopped \<and> book_capacity \<le> length (sent_books s))"

lemma polled_ok_tick: "polled_ok books s \<Longrightarrow> polled_ok (books @ [b]) (book_tick s b)"
  by (auto simp: polled_ok_def book_tick_def sent_books_def split: if_splits)

lemma polled_ok_poll: "polled_ok books s \<Longrightarrow> polled_ok books (rx_poll s)"
  by (auto simp: polled_ok_def rx_poll_def sent_books_def split: list.split)

lemma polled_stream_ok:
  assumes "Drop \<notin> set inputs"
  shows "polled_ok (map ask (List.map_filter tick_of inputs)) (foldl (stream_step ask) book_stream_new inputs)"
  using assms
proof (induction inputs rule: rev_induct)
  case Nil
  then show ?case by (simp add: polled_ok_def book_stream_new_def sent_books_def map_filter_simps)
next
  case (snoc i inputs)
  then show ?case
    by (cases i) (auto simp: map_filter_def intro: polled_ok_tick polled_ok_poll)
qed

text \<open>
  A stream of polled books delivers the answers in order and without a gap; it runs for as long as the
  consumer leaves room and stops at the first answer that finds the channel full.
\<close>

theorem polled_books_in_order:
  assumes "subscribe_l2_book E c market interval_s inputs = Inr s" and "Drop \<notin> set inputs"
  shows "let books = map (\<lambda>server. get_l2 E server c market None) (List.map_filter tick_of inputs)
    in prefix (bs_taken s @ bs_queue s) books \<and> length (bs_queue s) \<le> book_capacity \<and>
       (bs_task s = Running \<longleftrightarrow> bs_taken s @ bs_queue s = books)"
  using polled_stream_ok [OF assms(2), of "\<lambda>server. get_l2 E server c market None"] assms(1)
  by (auto simp: polled_ok_def sent_books_def subscribe_l2_book_def Let_def returns split: if_splits)

lemma unread_taken: "bs_taken (foldl (stream_step ask) s (map Tick servers)) = bs_taken s"
  by (induction servers arbitrary: s) (auto simp: book_tick_def)

text \<open>A stream nobody reads holds the first sixteen answers and has stopped.\<close>

lemma unread_stream_stops:
  assumes "subscribe_l3_book E c market interval_s (map Tick servers) = Inr s"
    and "book_capacity < length servers"
  shows "bs_queue s = take book_capacity (map (\<lambda>server. get_l3 E server c market) servers) \<and> bs_task s = Stopped"
proof -
  let ?ask = "\<lambda>server. get_l3 E server c market"
  let ?s = "foldl (stream_step ?ask) book_stream_new (map Tick servers)"
  have taken: "bs_taken ?s = []" by (simp add: unread_taken) (simp add: book_stream_new_def)
  have "List.map_filter tick_of (map Tick servers) = servers"
    by (induction servers) (simp_all add: map_filter_simps)
  then have ok: "polled_ok (map ?ask servers) ?s"
    using polled_stream_ok [of "map Tick servers" ?ask] by fastforce
  with taken have q: "prefix (bs_queue ?s) (map ?ask servers)" "length (bs_queue ?s) \<le> book_capacity"
    by (auto simp: polled_ok_def sent_books_def)
  with assms(2) have "bs_queue ?s \<noteq> map ?ask servers" by auto
  with ok taken have "bs_task ?s = Stopped" "length (bs_queue ?s) = book_capacity"
    by (auto simp: polled_ok_def sent_books_def)
  with q(1) assms(1) show ?thesis by (auto simp: subscribe_l3_book_def prefix_def returns)
qed

theorem polled_books_in_order_witness:
  "\<exists>s. subscribe_l2_book \<lparr>je_value = (\<lambda>_. None), je_tree = (\<lambda>_. None)\<rparr> (dlob_client_new ''http://x/'')
        (market_id_perp 0) None [Tick (\<lambda>_. Inr ''?''), Poll] = Inr s \<and>
     prefix (bs_taken s @ bs_queue s) [Inl Deserializing] \<and> length (bs_queue s) \<le> book_capacity \<and>
     (bs_task s = Running \<longleftrightarrow> bs_taken s @ bs_queue s = [Inl Deserializing])"
proof -
  let ?E = "\<lparr>je_value = (\<lambda>_. None), je_tree = (\<lambda>_. None)\<rparr>"
  obtain s where s: "subscribe_l2_book ?E (dlob_client_new ''http://x/'') (market_id_perp 0) None
      [Tick (\<lambda>_. Inr ''?''), Poll] = Inr s"
    by (auto simp: subscribe_l2_book_def interval_period_def)
  show ?thesis
    using polled_books_in_order [OF s] s by (simp add: map_filter_simps get_l2_def Let_def)
qed

section \<open>What the websocket stream delivers\<close>

text \<open>
  The messages alone say what the stream delivers: the books of the messages in their order, up to the
  message that ends it. The time of the last heartbeat is \<open>None\<close> after the end.
\<close>

fun feed_after :: "json_env \<Rightarrow> nat option \<Rightarrow> (nat \<times> (ext_error + feed_message)) list \<Rightarrow> nat option" where
  "feed_after E heartbeat [] = heartbeat"
| "feed_after E None (f # fs) = None"
| "feed_after E (Some heartbeat) ((now, m) # fs) =
     (case handle_message E (now - heartbeat) m of
        Beat \<Rightarrow> feed_after E (Some now) fs
      | Send item \<Rightarrow> feed_after E (Some heartbeat) fs
      | Ignore \<Rightarrow> feed_after E (Some heartbeat) fs
      | _ \<Rightarrow> None)"

fun feed_outputs :: "json_env \<Rightarrow> nat option \<Rightarrow> (nat \<times> (ext_error + feed_message)) list \<Rightarrow>
    (sdk_error + l2_orderbook) list" where
  "feed_outputs E heartbeat [] = []"
| "feed_outputs E None (f # fs) = []"
| "feed_outputs E (Some heartbeat) ((now, m) # fs) =
     (case handle_message E (now - heartbeat) m of
        Beat \<Rightarrow> feed_outputs E (Some now) fs
      | Send item \<Rightarrow> item # feed_outputs E (Some heartbeat) fs
      | Ignore \<Rightarrow> feed_outputs E (Some heartbeat) fs
      | SendLast item \<Rightarrow> [item]
      | _ \<Rightarrow> [])"

lemma feed_after_None [simp]: "feed_after E None fs = None"
  by (cases fs) simp_all

lemma feed_outputs_None [simp]: "feed_outputs E None fs = []"
  by (cases fs) simp_all

lemma feed_after_append: "feed_after E heartbeat (fs @ gs) = feed_after E (feed_after E heartbeat fs) gs"
  by (induction E heartbeat fs rule: feed_after.induct) (simp_all split: reaction.split)

lemma feed_outputs_append:
  "feed_outputs E heartbeat (fs @ gs) = feed_outputs E heartbeat fs @ feed_outputs E (feed_after E heartbeat fs) gs"
  by (induction E heartbeat fs rule: feed_outputs.induct) (simp_all split: reaction.split)

definition feed_pending_items :: "feed_book_stream \<Rightarrow> (sdk_error + l2_orderbook) list" where
  "feed_pending_items s = (case feed_pending s of None \<Rightarrow> [] | Some (item, _) \<Rightarrow> [item])"

definition feed_continues :: "feed_book_stream \<Rightarrow> bool" where
  "feed_continues s \<longleftrightarrow> bs_task s = Running \<and> (\<forall>item. feed_pending s \<noteq> Some (item, True))"

definition feed_delivers :: "json_env \<Rightarrow> nat \<Rightarrow> (nat \<times> (ext_error + feed_message)) list \<Rightarrow> feed_book_stream \<Rightarrow> bool"
  where
  "feed_delivers E start fs s \<longleftrightarrow>
     length (bs_queue s) \<le> book_capacity \<and> prefix (bs_taken s) (feed_outputs E (Some start) fs) \<and>
     (bs_open s \<longrightarrow> sent_books s @ feed_pending_items s = feed_outputs E (Some start) fs) \<and>
     (feed_continues s \<longrightarrow> feed_after E (Some start) fs = Some (feed_last_heartbeat s)) \<and>
     (feed_pending s \<noteq> None \<longrightarrow> bs_task s = Running)"

lemma prefix_outputs: "prefix xs (feed_outputs E h fs) \<Longrightarrow> prefix xs (feed_outputs E h (fs @ gs))"
  by (simp add: feed_outputs_append)

lemma feed_delivers_frame:
  assumes "feed_delivers E start fs s" and "bs_task s = Running" and "feed_pending s = None"
  shows "feed_delivers E start (fs @ [(feed_clock s, m)]) (feed_frame E m s)"
proof -
  have "feed_after E (Some start) fs = Some (feed_last_heartbeat s)"
    using assms by (simp add: feed_delivers_def feed_continues_def)
  then show ?thesis
    using assms
    by (cases "handle_message E (feed_clock s - feed_last_heartbeat s) m")
      (auto simp: feed_delivers_def feed_frame_def feed_put_def feed_continues_def feed_after_append feed_outputs_append
        sent_books_def feed_pending_items_def)
qed

lemma feed_delivers_resume:
  assumes "feed_delivers E start fs s" and "bs_task s = Running" and "feed_pending s = Some (item, final)"
    and "\<not> bs_open s \<or> length (bs_queue s) < book_capacity"
  shows "feed_delivers E start fs (feed_put item final (s\<lparr>feed_pending := None\<rparr>))"
  using assms by (auto simp: feed_delivers_def feed_put_def feed_continues_def sent_books_def feed_pending_items_def)

lemma feed_delivers_step:
  assumes "feed_step E s ev t" and "feed_delivers E start fs s"
  shows "feed_delivers E start (fs @ (case ev of Frame m \<Rightarrow> [(feed_clock s, m)] | _ \<Rightarrow> [])) t"
  using assms
proof (cases rule: feed_step.cases)
  case (Frame m)
  then show ?thesis using feed_delivers_frame [OF assms(2)] by simp
next
  case (Resume item final)
  then show ?thesis using feed_delivers_resume [OF assms(2)] by simp
next
  case Consume
  then obtain x q where q: "bs_queue s = x # q" by (cases "bs_queue s") simp_all
  with Consume assms(2) have "feed_outputs E (Some start) fs = (bs_taken s @ [x]) @ q @ feed_pending_items s"
    by (simp add: feed_delivers_def sent_books_def)
  then have "prefix (bs_taken s @ [x]) (feed_outputs E (Some start) fs)" by (metis prefixI)
  with Consume assms(2) q show ?thesis
    by (auto simp: feed_delivers_def feed_continues_def sent_books_def feed_pending_items_def rx_poll_def)
qed (auto simp: feed_delivers_def feed_continues_def sent_books_def feed_pending_items_def rx_drop_def)

lemma feed_delivers_run:
  assumes "feed_run E s fs t" and "feed_delivers E start [] s"
  shows "feed_delivers E start fs t"
  using assms by (induction rule: feed_run.induct) (auto intro: feed_delivers_step)

text \<open>
  C5. Over every run of the websocket task, with its waiting for room and the consumer's polls in any order,
  the consumer gets the books of the messages in their order, none twice and none left out, up to the
  message that ends the stream; at most sixteen wait, and one more is on its way.
\<close>

theorem feed_books_in_order:
  assumes "subscribe_ws c connect send start market = Inr s" and "feed_run E s fs t"
  shows "prefix (bs_taken t) (feed_outputs E (Some start) fs) \<and> length (bs_queue t) \<le> book_capacity \<and>
    (bs_open t \<longrightarrow> bs_taken t @ bs_queue t @ feed_pending_items t = feed_outputs E (Some start) fs)"
proof -
  have "feed_delivers E start [] s"
    using assms(1) by (auto simp: subscribe_ws_def feed_delivers_def feed_continues_def sent_books_def
        feed_pending_items_def split: sum.splits option.splits)
  from feed_delivers_run [OF assms(2) this] show ?thesis by (simp add: feed_delivers_def sent_books_def)
qed

definition sample_json_env :: json_env where
  "sample_json_env =
     \<lparr>je_value = (\<lambda>text_msg. Some (JObj [(''channel'', JStr True text_msg), (''data'', JStr True ''book'')])),
      je_tree = (\<lambda>_. Some (JObj [(''bids'', JArr []), (''asks'', JArr []), (''slot'', JInt 3)]))\<rparr>"

definition sample_l2_book :: l2_orderbook where
  "sample_l2_book = \<lparr>ob_bids = [], ob_asks = [], ob_slot = 3\<rparr>"

lemma sample_handled:
  "handle_message sample_json_env 0 (Inr (FeedText ''orderbook'')) = Send (Inr sample_l2_book)"
  by (simp add: handle_message_def sample_json_env_def value_get_str_def json_string_def starts_with_def
      strip_prefix_def l2_orderbook_of_json_def orderbook_of_json_def json_fields_def json_field_def json_vec_def
      json_u64_def fits_u_def sample_l2_book_def)

theorem feed_books_in_order_witness:
  "\<exists>s t. subscribe_ws (dlob_client_new ''http://x/'') (\<lambda>_. None) (\<lambda>_. None) 7 ''sol-perp'' = Inr s \<and>
     feed_run sample_json_env s [(7, Inr (FeedText ''orderbook''))] t \<and>
     bs_taken t @ bs_queue t @ feed_pending_items t = [Inr sample_l2_book]"
proof -
  let ?m = "Inr (FeedText ''orderbook'')"
  obtain s where s: "subscribe_ws (dlob_client_new ''http://x/'') (\<lambda>_. None) (\<lambda>_. None) 7 ''sol-perp'' = Inr s"
    "bs_task s = Running" "feed_pending s = None" "feed_clock s = 7" "feed_last_heartbeat s = 7" "bs_open s" "bs_queue s = []"
    by (auto simp: subscribe_ws_def dlob_client_new_def trim_end_matches_def http_to_ws_def starts_with_def
        strip_prefix_def)
  let ?t = "feed_frame sample_json_env ?m s"
  have "feed_run sample_json_env s ([] @ (case Frame ?m of Frame m \<Rightarrow> [(feed_clock s, m)] | _ \<Rightarrow> [])) ?t"
    by (rule feed_run.Step [OF feed_run.Start feed_step.Frame [OF s(2,3)]])
  then have run: "feed_run sample_json_env s [(7, ?m)] ?t" by (simp add: s(4))
  moreover have "bs_open ?t" using s by (simp add: feed_frame_def sample_handled feed_put_def)
  ultimately have "bs_taken ?t @ bs_queue ?t @ feed_pending_items ?t = [Inr sample_l2_book]"
    using feed_books_in_order [OF s(1) run] by (simp add: sample_handled)
  with s(1) run show ?thesis by blast
qed

text \<open>
  The heartbeat is looked at only when a message arrives: of a server that falls silent the consumer
  hears nothing, however much time goes by.
\<close>

lemma silent_server_unnoticed:
  assumes "subscribe_ws c connect send start market = Inr s" and "feed_run E s [] t" and "bs_open t"
  shows "bs_taken t = [] \<and> bs_queue t = []"
proof -
  have "feed_delivers E start [] s"
    using assms(1) by (auto simp: subscribe_ws_def feed_delivers_def feed_continues_def sent_books_def
        feed_pending_items_def split: sum.splits option.splits)
  from feed_delivers_run [OF assms(2) this] assms(3) show ?thesis
    by (simp add: feed_delivers_def sent_books_def)
qed

text \<open>
  A consumer that lets the channel fill up for longer than the heartbeat's interval loses the stream, even if
  the message read next is a heartbeat.
\<close>

lemma late_message_ends_stream:
  assumes "feed_step E s (Frame m) t" and "heartbeat_interval < feed_clock s - feed_last_heartbeat s"
    and "bs_open s" and "length (bs_queue s) < book_capacity"
  shows "bs_queue t = bs_queue s @ [Inl MissedHeartbeat] \<and> bs_task t = Stopped"
  using assms by (auto simp: feed_frame_def handle_message_def feed_put_def elim: feed_step_cases)

end
