(* ===== verification/Subscriptions.thy ===== *)
theory Subscriptions
  imports Live_Maps
begin

text \<open>
  A live map with everything that runs on its behalf: the websocket tasks its subscriber has spawned
  (\<open>src/src/websocket_program_account_subscriber.rs\<close>), the handler threads of its event emitter
  (\<open>src/src/event_emitter.rs\<close>), and the map they write (\<open>src/src/marketmap.rs\<close>). A step relation
  interleaves subscribing, unsubscribing, the inputs of every task, and the threads.

  A task has the receiver of a channel for one signal, whose sender its subscriber keeps until it spawns
  the next task. What a task emits is put into the queue of every handler that is registered; a thread
  takes the updates of its queue one by one.
\<close>

section \<open>Tasks and handler threads\<close>

record 'd spawned =
  sp_task :: "'d ws_task"
  sp_signal :: bool
  sp_sender :: bool

record ('d, 's) delivery =
  dv_tasks :: "'d spawned list"
  dv_queues :: "(u64 \<times> 'd) list list"
  dv_store :: 's

datatype 'm delivery_event = Reaches nat "'m ws_input" | Handles nat

definition new_task :: "'d spawned" where
  "new_task = \<lparr>sp_task = ws_task_new, sp_signal = False, sp_sender = True\<rparr>"

text \<open>The new sender replaces the one the subscriber holds, which is dropped.\<close>

definition spawn :: "'d spawned list \<Rightarrow> 'd spawned list" where
  "spawn tasks = map (\<lambda>t. t\<lparr>sp_sender := False\<rparr>) tasks @ [new_task]"

definition receiver_alive :: "'d spawned list \<Rightarrow> bool" where
  "receiver_alive tasks =
     (if tasks = [] then False else case wt_phase (sp_task (last tasks)) of Ended _ \<Rightarrow> False | _ \<Rightarrow> True)"

definition send_signal :: "'d spawned list \<Rightarrow> 'd spawned list" where
  "send_signal tasks =
     (if tasks = [] then [] else butlast tasks @ [(last tasks)\<lparr>sp_signal := True\<rparr>])"

text \<open>Receiving gives the signal if there is one, and \<open>None\<close> only once the sender is gone.\<close>

definition may_receive :: "'d spawned \<Rightarrow> 'm ws_input \<Rightarrow> bool" where
  "may_receive t i =
     (case i of Unsub some \<Rightarrow> (if some then sp_signal t else \<not> sp_signal t \<and> \<not> sp_sender t) | _ \<Rightarrow> True)"

definition receive :: "'m ws_input \<Rightarrow> 'd spawned \<Rightarrow> 'd spawned" where
  "receive i t = (case i of Unsub _ \<Rightarrow> t\<lparr>sp_signal := False\<rparr> | _ \<Rightarrow> t)"

definition emitted_by :: "'d ws_task \<Rightarrow> 'd ws_task \<Rightarrow> (u64 \<times> 'd) list" where
  "emitted_by t t' = drop (length (wt_emitted t)) (wt_emitted t')"

inductive deliver :: "(nat \<Rightarrow> ('m, 'd) ws_config) \<Rightarrow> ('s \<Rightarrow> u64 \<times> 'd \<Rightarrow> 's) \<Rightarrow> ('d, 's) delivery \<Rightarrow>
    'm delivery_event \<Rightarrow> ('d, 's) delivery \<Rightarrow> bool" for W handler where
  reaches: "n < length (dv_tasks c) \<Longrightarrow> may_receive (dv_tasks c ! n) i \<Longrightarrow>
    ws_step (W n) (sp_task (dv_tasks c ! n)) i t \<Longrightarrow>
    deliver W handler c (Reaches n i)
      (c\<lparr>dv_tasks := (dv_tasks c)[n := (receive i (dv_tasks c ! n))\<lparr>sp_task := t\<rparr>],
         dv_queues := map (\<lambda>q. q @ emitted_by (sp_task (dv_tasks c ! n)) t) (dv_queues c)\<rparr>)"
| handles: "h < length (dv_queues c) \<Longrightarrow> dv_queues c ! h = u # rest \<Longrightarrow>
    deliver W handler c (Handles h)
      (c\<lparr>dv_store := handler (dv_store c) u, dv_queues := (dv_queues c)[h := rest]\<rparr>)"

inductive deliveries :: "(nat \<Rightarrow> ('m, 'd) ws_config) \<Rightarrow> ('s \<Rightarrow> u64 \<times> 'd \<Rightarrow> 's) \<Rightarrow> ('d, 's) delivery \<Rightarrow>
    'm delivery_event list \<Rightarrow> ('d, 's) delivery \<Rightarrow> bool" for W handler c where
  none: "deliveries W handler c [] c"
| more: "deliveries W handler c events d \<Longrightarrow> deliver W handler d e d' \<Longrightarrow>
    deliveries W handler c (events @ [e]) d'"

section \<open>Emitted updates\<close>

lemma step_emits: "ws_step W s i s' \<Longrightarrow> \<exists>new. wt_emitted s' = wt_emitted s @ new \<and>
    (\<forall>x\<in>set new. \<exists>m. wc_decode W m = Some (snd x))"
proof (induction rule: ws_step.induct)
  case (message s slot m)
  show ?case by (cases "wc_decode W m") (auto simp: ws_message_def Let_def)
qed (simp_all add: Let_def)

lemma step_emitted_by: "ws_step W s i s' \<Longrightarrow> wt_emitted s' = wt_emitted s @ emitted_by s s'"
  using step_emits [of W s i s'] by (auto simp: emitted_by_def)

text \<open>What all tasks together have emitted; what is pending comes from it.\<close>

definition emitted_to :: "('m, 's) delivery \<Rightarrow> (u64 \<times> 'm) set" where
  "emitted_to c = (\<Union>t\<in>set (dv_tasks c). set (wt_emitted (sp_task t)))"

lemma deliver_emitted:
  assumes "deliver W handler c e c'"
  shows "emitted_to c \<subseteq> emitted_to c'"
    and "\<forall>q\<in>set (dv_queues c). set q \<subseteq> emitted_to c \<Longrightarrow> \<forall>q\<in>set (dv_queues c'). set q \<subseteq> emitted_to c'"
  using assms
proof (atomize (full), cases rule: deliver.cases)
  case (reaches n i t)
  note grows = step_emitted_by [OF reaches(5)]
  have n: "dv_tasks c ! n \<in> set (dv_tasks c)" using reaches(3) by simp
  have new: "emitted_to c' \<supseteq> emitted_to c \<union> set (emitted_by (sp_task (dv_tasks c ! n)) t)"
  proof
    fix x assume x: "x \<in> emitted_to c \<union> set (emitted_by (sp_task (dv_tasks c ! n)) t)"
    show "x \<in> emitted_to c'"
    proof (cases "x \<in> set (wt_emitted t)")
      case True
      have "(receive i (dv_tasks c ! n))\<lparr>sp_task := t\<rparr> \<in> set (dv_tasks c')"
        using reaches(2,3) by (simp add: set_update_memI)
      with True show ?thesis unfolding emitted_to_def by force
    next
      case False
      with x grows obtain y where y: "y \<in> set (dv_tasks c)" "x \<in> set (wt_emitted (sp_task y))"
        by (auto simp: emitted_to_def)
      then obtain k where k: "k < length (dv_tasks c)" "dv_tasks c ! k = y"
        by (auto simp: in_set_conv_nth)
      with False grows y have "k \<noteq> n" by auto
      with k reaches(2) have "dv_tasks c' ! k = y" "k < length (dv_tasks c')" by simp_all
      with y(2) show ?thesis unfolding emitted_to_def by (metis UN_I nth_mem)
    qed
  qed
  then show "emitted_to c \<subseteq> emitted_to c' \<and> ((\<forall>q\<in>set (dv_queues c). set q \<subseteq> emitted_to c) \<longrightarrow>
      (\<forall>q\<in>set (dv_queues c'). set q \<subseteq> emitted_to c'))"
    by (auto simp: reaches(2))
next
  case (handles h u rest)
  have same: "emitted_to c' = emitted_to c" using handles(2) by (simp add: emitted_to_def)
  have "set q \<subseteq> emitted_to c" if "q \<in> set (dv_queues c')" "\<forall>q\<in>set (dv_queues c). set q \<subseteq> emitted_to c" for q
  proof -
    have "q = rest \<or> q \<in> set (dv_queues c)"
      using that(1) set_update_subset_insert [of "dv_queues c" h rest] by (auto simp: handles(2))
    moreover have "set rest \<subseteq> set (dv_queues c ! h)" by (auto simp: handles(4))
    moreover have "dv_queues c ! h \<in> set (dv_queues c)" by (rule nth_mem) (rule handles(3))
    ultimately show ?thesis using that(2) by blast
  qed
  with same show "emitted_to c \<subseteq> emitted_to c' \<and> ((\<forall>q\<in>set (dv_queues c). set q \<subseteq> emitted_to c) \<longrightarrow>
      (\<forall>q\<in>set (dv_queues c'). set q \<subseteq> emitted_to c'))"
    by simp
qed

lemma emitted_spawn:
  "(\<Union>t\<in>set (spawn ts). set (wt_emitted (sp_task t))) = (\<Union>t\<in>set ts. set (wt_emitted (sp_task t)))"
  by (simp add: spawn_def new_task_def ws_task_new_def)

lemma emitted_signal:
  "(\<Union>t\<in>set (send_signal ts). set (wt_emitted (sp_task t))) = (\<Union>t\<in>set ts. set (wt_emitted (sp_task t)))"
  by (cases ts rule: rev_cases) (simp_all add: send_signal_def)

text \<open>What a step does to the store, and the same step with a log of what is handled in its place.\<close>

lemma deliver_store:
  assumes "deliver W handler c e c'"
  shows "dv_store c' = dv_store c \<or> (\<exists>q\<in>set (dv_queues c). \<exists>x\<in>set q. dv_store c' = handler (dv_store c) x)"
  using assms
proof (cases rule: deliver.cases)
  case (handles h x rest)
  have "dv_queues c ! h \<in> set (dv_queues c)" by (rule nth_mem) (rule handles(3))
  moreover have "x \<in> set (dv_queues c ! h)" by (simp add: handles(4))
  ultimately show ?thesis using handles(2) by auto
qed simp

lemma log_fold: "foldl (\<lambda>log u. log @ [u]) xs us = xs @ us"
  by (induction us arbitrary: xs) simp_all

lemma deliver_logged:
  assumes "deliver W handler c e c'"
  obtains new where "length new \<le> 1" "dv_store c' = foldl handler (dv_store c) new"
    "deliver W (\<lambda>log u. log @ [u]) \<lparr>dv_tasks = dv_tasks c, dv_queues = dv_queues c, dv_store = log\<rparr> e
       \<lparr>dv_tasks = dv_tasks c', dv_queues = dv_queues c', dv_store = log @ new\<rparr>"
  using assms
proof (cases rule: deliver.cases)
  case (reaches n i t)
  then show ?thesis
    using deliver.reaches [of n "\<lparr>dv_tasks = dv_tasks c, dv_queues = dv_queues c, dv_store = log\<rparr>" i W t]
    by (intro that [of "[]"]) simp_all
next
  case (handles h u rest)
  then show ?thesis
    using deliver.handles [of h "\<lparr>dv_tasks = dv_tasks c, dv_queues = dv_queues c, dv_store = log\<rparr>" u rest W "\<lambda>log u. log @ [u]"]
    by (intro that [of "[u]"]) simp_all
qed

section \<open>One handler\<close>

definition pool_ok :: "('d \<Rightarrow> 't) \<Rightarrow> (nat \<Rightarrow> 't) \<Rightarrow> (nat \<Rightarrow> ('m, 'd) ws_config) \<Rightarrow>
    ('s \<Rightarrow> u64 \<times> 'd \<Rightarrow> 's) \<Rightarrow> nat \<Rightarrow> 's \<Rightarrow> ('d, 's) delivery \<Rightarrow> (u64 \<times> 'd) list \<Rightarrow> bool" where
  "pool_ok tag label W handler N s0 c handled \<longleftrightarrow> length (dv_tasks c) = N \<and> length (dv_queues c) = 1 \<and>
     dv_store c = foldl handler s0 handled \<and>
     (\<forall>u\<in>set (handled @ hd (dv_queues c)). \<exists>n<N. tag (snd u) = label n) \<and>
     (\<forall>n<N. (\<exists>inputs. ws_run (W n) inputs (sp_task (dv_tasks c ! n))) \<and>
       filter (\<lambda>u. tag (snd u) = label n) (handled @ hd (dv_queues c)) = wt_emitted (sp_task (dv_tasks c ! n)))"

text \<open>
  The contract of a pool of tasks that feed one handler: every update tells the task it comes from. What
  the handler has handled, followed by what is pending, is then an interleaving of what the tasks emitted.
\<close>

locale task_pool =
  fixes W :: "nat \<Rightarrow> ('m, 'd) ws_config" and tag :: "'d \<Rightarrow> 't" and label :: "nat \<Rightarrow> 't"
  assumes tagged: "wc_decode (W n) m = Some d \<Longrightarrow> tag d = label n"
begin

lemma pool_step:
  assumes "pool_ok tag label W handler N s0 c handled" and "inj_on label {..<N}" and "deliver W handler c e c'"
  shows "\<exists>handled'. pool_ok tag label W handler N s0 c' handled'"
  using assms(3)
proof (cases rule: deliver.cases)
  case (reaches n i t)
  note r = reaches(3-5)
  obtain q where q: "dv_queues c = [q]"
    using assms(1) by (cases "dv_queues c") (auto simp: pool_ok_def)
  let ?s = "sp_task (dv_tasks c ! n)" and ?new = "emitted_by (sp_task (dv_tasks c ! n)) t"
  have n: "n < N" using r(1) assms(1) by (simp add: pool_ok_def)
  note emits = step_emitted_by [OF r(3)]
  have from_n: "\<forall>x\<in>set ?new. tag (snd x) = label n"
    using step_emits [OF r(3)] emits tagged by (metis same_append_eq)
  then have new: "filter (\<lambda>u. tag (snd u) = label k) ?new = (if k = n then ?new else [])" if "k < N" for k
    using that n assms(2) by (auto simp: filter_id_conv filter_empty_conv inj_on_eq_iff)
  have "pool_ok tag label W handler N s0 c' handled"
    unfolding pool_ok_def
  proof (intro conjI allI impI)
    fix k assume "k < N"
    show "\<exists>inputs. ws_run (W k) inputs (sp_task (dv_tasks c' ! k))"
    proof (cases "k = n")
      case True
      obtain inputs where "ws_run (W n) inputs ?s" using assms(1) n unfolding pool_ok_def by blast
      from ws_run.more [OF this r(3)] True r(1) show ?thesis by (auto simp: reaches(2))
    next
      case False
      then show ?thesis using assms(1) \<open>k < N\<close> by (simp add: pool_ok_def reaches(2))
    qed
    show "filter (\<lambda>u. tag (snd u) = label k) (handled @ hd (dv_queues c')) = wt_emitted (sp_task (dv_tasks c' ! k))"
      using assms(1) r \<open>k < N\<close> reaches(2) new [OF \<open>k < N\<close>] emits
      by (cases "k = n") (auto simp: pool_ok_def q)
  next
    show "\<forall>u\<in>set (handled @ hd (dv_queues c')). \<exists>n<N. tag (snd u) = label n"
      using assms(1) from_n n unfolding pool_ok_def reaches(2) by (auto simp: q)
  qed (use assms(1) reaches(2) in \<open>simp_all add: pool_ok_def\<close>)
  then show ?thesis ..
next
  case (handles h u rest)
  have "dv_queues c = [u # rest]" "h = 0"
    using handles assms(1) by (auto simp: pool_ok_def length_Suc_conv)
  then have "pool_ok tag label W handler N s0 c' (handled @ [u])"
    using assms(1) handles(2) by (simp add: pool_ok_def)
  then show ?thesis ..
qed

lemma pool_run:
  assumes "deliveries W handler c events c'" and "pool_ok tag label W handler N s0 c handled" and "inj_on label {..<N}"
  shows "\<exists>handled'. pool_ok tag label W handler N s0 c' handled'"
  using assms by (induction rule: deliveries.induct) (blast intro: pool_step)+

text \<open>The updates of one task reach the handler in the order of their slots.\<close>

lemma pool_sorted:
  assumes "pool_ok tag label W handler N s0 c handled" and "n < N"
  shows "sorted (map fst (filter (\<lambda>u. tag (snd u) = label n) (handled @ hd (dv_queues c))))"
  using assms run_in_order by (fastforce simp: pool_ok_def emits_in_order_def)

lemma pool_start:
  assumes "map sp_task (dv_tasks c) = replicate N ws_task_new" and "dv_queues c = [[]]"
  shows "pool_ok tag label W handler N (dv_store c) c []"
proof -
  have N: "length (dv_tasks c) = N" using assms(1) by (metis length_map length_replicate)
  then have "sp_task (dv_tasks c ! n) = ws_task_new" if "n < N" for n
    using assms(1) that by (metis nth_map nth_replicate)
  with N show ?thesis
    using assms(2) by (auto simp: pool_ok_def ws_task_new_def intro!: exI [of _ "[]"] ws_run.start [unfolded ws_task_new_def])
qed

end

text \<open>A pool of a single task: every update comes from it.\<close>

definition one_origin :: "'x \<Rightarrow> unit" where "one_origin = (\<lambda>_. ())"

interpretation one_task: task_pool "\<lambda>_. program_ws decode" one_origin one_origin for decode
  by unfold_locales simp

section \<open>Steps of a streaming task\<close>

text \<open>A task that streams, having emitted the given updates.\<close>

definition streaming :: "(u64 \<times> 'd) list \<Rightarrow> u64 \<Rightarrow> 'd ws_task" where
  "streaming emitted latest =
     \<lparr>wt_phase = Streaming, wt_attempt = 0, wt_latest_slot = latest, wt_emitted = emitted\<rparr>"

lemma deliver_connect:
  assumes "n < length (dv_tasks c)" and "dv_tasks c ! n = \<lparr>sp_task = ws_task_new, sp_signal = sg, sp_sender = sd\<rparr>"
    and "tasks = (dv_tasks c)[n := \<lparr>sp_task = streaming [] 0, sp_signal = sg, sp_sender = sd\<rparr>]"
  shows "deliver W handler c (Reaches n SubscribeOk) (c\<lparr>dv_tasks := tasks\<rparr>)"
  using deliver.reaches [OF assms(1), of SubscribeOk W "streaming [] 0" handler]
    ws_step.subscribe_ok [of ws_task_new "W n"]
  by (simp add: assms(2,3) may_receive_def receive_def emitted_by_def ws_task_new_def streaming_def)

lemma deliver_message:
  assumes "n < length (dv_tasks c)" and "dv_tasks c ! n = \<lparr>sp_task = streaming xs l, sp_signal = sg, sp_sender = sd\<rparr>"
    and "l \<le> slot" and "wc_decode (W n) m = Some d"
    and "tasks = (dv_tasks c)[n := \<lparr>sp_task = streaming (xs @ [(slot, d)]) slot, sp_signal = sg, sp_sender = sd\<rparr>]"
    and "queues = map (\<lambda>q. q @ [(slot, d)]) (dv_queues c)"
  shows "deliver W handler c (Reaches n (Message slot m)) (c\<lparr>dv_tasks := tasks, dv_queues := queues\<rparr>)"
  using deliver.reaches [OF assms(1), of "Message slot m" W "streaming (xs @ [(slot, d)]) slot" handler]
    ws_step.message [of "streaming xs l" "W n" slot m] assms(3,4)
  by (simp add: assms(2,5,6) may_receive_def receive_def emitted_by_def ws_message_def streaming_def)

end
