(* ===== verification/Live_Users.thy ===== *)
theory Live_Users
  imports Subscriptions
begin

text \<open>
  The life of a user map (\<open>src/src/usermap.rs\<close>) with its tasks, its handler threads, and the callers of
  \<open>must_get\<close>. A caller that finds no entry asks the node and puts the answer into the map when it comes;
  updates are handled in between. Subscribing again while subscribed synchronizes the map once more. What the
  map serves of one subscription, and where its entries come from over any sequence of them.
\<close>

section \<open>Steps\<close>

record live_users =
  lu_delivery :: "(string \<times> user, user_map) delivery"
  lu_asked :: "string list"

datatype ('r, 'a) users_event =
    Moves "'r delivery_event"
  | Subscribes "sdk_error + (string \<times> 'a) response"
  | Unsubscribes
  | Asks string
  | Answers string "sdk_error + 'a"

text \<open>The update of an account, as the task emits it and as the handler gets it.\<close>

definition user_message :: "u64 \<times> string \<times> user \<Rightarrow> user_account_update" where
  "user_message = (\<lambda>(slot, k, u). \<lparr>uu_pubkey = k, uu_data_and_slot = \<lparr>das_slot = slot, das_data = u\<rparr>\<rparr>)"

definition user_handler :: "user_map \<Rightarrow> u64 \<times> string \<times> user \<Rightarrow> user_map" where
  "user_handler s x = user_update s (user_message x)"

text \<open>
  Subscribing and unsubscribing need the map for themselves, so no caller of \<open>must_get\<close> is waiting then. The
  answer a caller gets may come at any time; data that does not decode ends the caller only.
\<close>

inductive users_step :: "(string \<Rightarrow> pubkey option) \<Rightarrow> ('a \<Rightarrow> sdk_error + user) \<Rightarrow> ('a \<Rightarrow> user option) \<Rightarrow>
    ('r \<Rightarrow> (string \<times> user) option) \<Rightarrow> live_users \<Rightarrow> ('r, 'a) users_event \<Rightarrow> live_users \<Rightarrow> bool"
  for from_str decode try_deserialize ws_decode where
  moves: "deliver (\<lambda>_. program_ws ws_decode) user_handler (lu_delivery c) e d \<Longrightarrow>
    users_step from_str decode try_deserialize ws_decode c (Moves e) (c\<lparr>lu_delivery := d\<rparr>)"
| subscribe_only_syncs: "lu_asked c = [] \<Longrightarrow>
    user_map_subscribe decode False response (dv_store (lu_delivery c)) = Inr (m, e) \<Longrightarrow>
    e \<noteq> None \<or> um_subscribed (dv_store (lu_delivery c)) \<Longrightarrow>
    users_step from_str decode try_deserialize ws_decode c (Subscribes response)
      (c\<lparr>lu_delivery := (lu_delivery c)\<lparr>dv_store := m\<rparr>\<rparr>)"
| subscribes: "lu_asked c = [] \<Longrightarrow>
    user_map_subscribe decode False response (dv_store (lu_delivery c)) = Inr (m, None) \<Longrightarrow>
    \<not> um_subscribed (dv_store (lu_delivery c)) \<Longrightarrow>
    users_step from_str decode try_deserialize ws_decode c (Subscribes response)
      (c\<lparr>lu_delivery := (lu_delivery c)\<lparr>dv_store := m,
         dv_tasks := (if snd (program_subscribe (um_subscription (dv_store (lu_delivery c)))) \<noteq> None
           then spawn (dv_tasks (lu_delivery c)) else dv_tasks (lu_delivery c)),
         dv_queues := dv_queues (lu_delivery c) @ [[]]\<rparr>\<rparr>)"
| unsubscribes: "lu_asked c = [] \<Longrightarrow>
    user_map_unsubscribe (receiver_alive (dv_tasks (lu_delivery c))) (dv_store (lu_delivery c)) = (m, e) \<Longrightarrow>
    users_step from_str decode try_deserialize ws_decode c Unsubscribes
      (c\<lparr>lu_delivery := (lu_delivery c)\<lparr>dv_store := m,
         dv_tasks := (if um_subscribed (dv_store (lu_delivery c)) \<and> e = None
           then send_signal (dv_tasks (lu_delivery c)) else dv_tasks (lu_delivery c))\<rparr>\<rparr>)"
| asks: "user_map_get (dv_store (lu_delivery c)) k = None \<Longrightarrow> from_str k \<noteq> None \<Longrightarrow>
    users_step from_str decode try_deserialize ws_decode c (Asks k) (c\<lparr>lu_asked := k # lu_asked c\<rparr>)"
| answers: "k \<in> set (lu_asked c) \<Longrightarrow>
    user_map_fetched try_deserialize k answer (dv_store (lu_delivery c)) = Inr (m, result) \<Longrightarrow>
    users_step from_str decode try_deserialize ws_decode c (Answers k answer)
      (c\<lparr>lu_delivery := (lu_delivery c)\<lparr>dv_store := m\<rparr>, lu_asked := remove1 k (lu_asked c)\<rparr>)"
| caller_panics: "k \<in> set (lu_asked c) \<Longrightarrow>
    user_map_fetched try_deserialize k answer (dv_store (lu_delivery c)) = Inl e \<Longrightarrow>
    users_step from_str decode try_deserialize ws_decode c (Answers k answer)
      (c\<lparr>lu_asked := remove1 k (lu_asked c)\<rparr>)"

inductive users_run :: "(string \<Rightarrow> pubkey option) \<Rightarrow> ('a \<Rightarrow> sdk_error + user) \<Rightarrow> ('a \<Rightarrow> user option) \<Rightarrow>
    ('r \<Rightarrow> (string \<times> user) option) \<Rightarrow> user_map \<Rightarrow> ('r, 'a) users_event list \<Rightarrow> live_users \<Rightarrow> bool"
  for from_str decode try_deserialize ws_decode m0 where
  idle: "users_run from_str decode try_deserialize ws_decode m0 []
    \<lparr>lu_delivery = \<lparr>dv_tasks = [], dv_queues = [], dv_store = m0\<rparr>, lu_asked = []\<rparr>"
| runs: "users_run from_str decode try_deserialize ws_decode m0 events c \<Longrightarrow>
    users_step from_str decode try_deserialize ws_decode c e c' \<Longrightarrow>
    users_run from_str decode try_deserialize ws_decode m0 (events @ [e]) c'"

inductive_cases users_moveE: "users_step from_str decode try_deserialize ws_decode c (Moves e) c'"
inductive_cases users_subscribeE: "users_step from_str decode try_deserialize ws_decode c (Subscribes response) c'"
inductive_cases users_askE: "users_step from_str decode try_deserialize ws_decode c (Asks k) c'"
inductive_cases users_answerE: "users_step from_str decode try_deserialize ws_decode c (Answers k answer) c'"
inductive_cases users_run_nilE: "users_run from_str decode try_deserialize ws_decode m0 [] c"

abbreviation users_map :: "live_users \<Rightarrow> user_map" where
  "users_map c \<equiv> dv_store (lu_delivery c)"

section \<open>Updates for the map\<close>

text \<open>The updates a task emits, as the map's handler gets them.\<close>

definition live_updates :: "(u64 \<times> string \<times> user) list \<Rightarrow> user_account_update list" where
  "live_updates = map user_message"

lemma live_updates_simps [simp]:
  "live_updates [] = []"
  "live_updates ((slot, k, u) # xs) =
    \<lparr>uu_pubkey = k, uu_data_and_slot = \<lparr>das_slot = slot, das_data = u\<rparr>\<rparr> # live_updates xs"
  by (simp_all add: live_updates_def user_message_def)

lemma filter_live_updates:
  "filter (\<lambda>m. uu_pubkey m = k) (rev (live_updates xs)) =
    live_updates (filter (\<lambda>x. fst (snd x) = k) (rev xs))"
  by (induction xs rule: rev_induct) (auto simp: live_updates_def user_message_def)

lemma user_handler_fold: "foldl user_handler s xs = foldl user_update s (live_updates xs)"
  by (induction xs arbitrary: s) (auto simp: user_handler_def user_message_def)

text \<open>What a map that has seen the given accounts is to serve of a user: the newest, or what it had before.\<close>

definition newest_user :: "(u64 \<times> string \<times> user) list \<Rightarrow> string \<Rightarrow> user option \<Rightarrow> user option \<Rightarrow> bool" where
  "newest_user seen k before served \<longleftrightarrow>
     (if \<exists>x\<in>set seen. fst (snd x) = k
      then \<exists>slot u. served = Some u \<and> (slot, k, u) \<in> set seen \<and> (\<forall>x\<in>set seen. fst (snd x) = k \<longrightarrow> fst x \<le> slot)
      else served = before)"

lemma folded_newest:
  assumes "sorted (map fst xs)"
  shows "newest_user xs k (user_map_get m k) (user_map_get (foldl user_update m (live_updates xs)) k)"
proof -
  let ?P = "\<lambda>x :: u64 \<times> string \<times> user. fst (snd x) = k"
  have lookup: "user_map_get (foldl user_update m (live_updates xs)) k =
      (case filter ?P (rev xs) of [] \<Rightarrow> user_map_get m k | (slot, k', u) # _ \<Rightarrow> Some u)"
    using user_store.lookup_run [of m "live_updates xs" k]
    by (cases "filter ?P (rev xs)") (auto simp: filter_live_updates)
  show ?thesis
  proof (cases "filter ?P (rev xs)")
    case Nil
    then show ?thesis by (auto simp: lookup newest_user_def filter_empty_conv)
  next
    case (Cons x rest)
    obtain slot k' u where x: "x = (slot, k', u)" by (cases x)
    from filter_rev_newest [OF assms Cons] show ?thesis
      by (auto simp: lookup Cons x newest_user_def)
  qed
qed

section \<open>Where the entries come from\<close>

lemma fetched_get:
  assumes "user_map_fetched try_deserialize k answer s = Inr (m, result)"
  shows "user_map_get m k' = (case answer of Inl _ \<Rightarrow> user_map_get s k'
      | Inr data \<Rightarrow> if k' = k then try_deserialize data else user_map_get s k')"
    and "answer = Inr data \<Longrightarrow> try_deserialize data \<noteq> None"
  using assms
  by (auto simp: user_map_fetched_def user_map_get_def notify_def update_conv' Let_def returns split: sum.splits if_splits)

lemma user_sync_entries:
  assumes "user_sync_accounts decode slot accounts s = (s', e)" and "user_map_get s' k = Some u"
  shows "user_map_get s k = Some u \<or> (\<exists>a. (k, a) \<in> set accounts \<and> decode a = Inr u)"
  using assms
proof (induction decode slot accounts s rule: user_sync_accounts.induct)
  case (2 decode slot pubkey account accounts s)
  show ?case
  proof (cases "decode account")
    case (Inr data)
    with "2.prems" "2.IH" [OF Inr] show ?thesis
      by (auto simp: user_map_get_def notify_def update_conv' split: if_splits)
  qed (use 2 in simp)
qed (auto simp: user_map_get_def)

lemma user_subscribe_cases:
  assumes "user_map_subscribe decode locked response s = Inr (s', e)"
  obtains t where "um_usermap s' = um_usermap t" "t = s \<or> (\<exists>slot accounts e'. response = Inr (Some (slot, accounts)) \<and>
    user_sync_accounts decode slot accounts s = (t, e'))"
  using assms
  by (auto simp: user_map_subscribe_def user_map_sync_def bindE_def split: if_splits sum.splits option.splits prod.splits)

lemma user_subscribe_entries:
  assumes "user_map_subscribe decode locked response s = Inr (s', e)" and "user_map_get s' k = Some u"
  shows "user_map_get s k = Some u \<or>
    (\<exists>slot accounts a. response = Inr (Some (slot, accounts)) \<and> (k, a) \<in> set accounts \<and> decode a = Inr u)"
proof -
  from assms(1) obtain t where "um_usermap s' = um_usermap t" and t: "t = s \<or> (\<exists>slot accounts e'.
      response = Inr (Some (slot, accounts)) \<and> user_sync_accounts decode slot accounts s = (t, e'))"
    by (rule user_subscribe_cases)
  then have "user_map_get t k = Some u" using assms(2) by (simp add: user_map_get_def)
  with t show ?thesis by (auto dest: user_sync_entries)
qed

text \<open>An account a node has answered, to a synchronization or to a caller.\<close>

definition users_answered :: "('a \<Rightarrow> sdk_error + user) \<Rightarrow> ('a \<Rightarrow> user option) \<Rightarrow> ('r, 'a) users_event list \<Rightarrow>
    string \<Rightarrow> user \<Rightarrow> bool" where
  "users_answered decode try_deserialize events k u \<longleftrightarrow>
     (\<exists>slot accounts a. Subscribes (Inr (Some (slot, accounts))) \<in> set events \<and> (k, a) \<in> set accounts \<and> decode a = Inr u) \<or>
     (\<exists>data. Asks k \<in> set events \<and> Answers k (Inr data) \<in> set events \<and> try_deserialize data = Some u)"

definition real_users :: "('a \<Rightarrow> sdk_error + user) \<Rightarrow> ('a \<Rightarrow> user option) \<Rightarrow> ('r, 'a) users_event list \<Rightarrow>
    live_users \<Rightarrow> bool" where
  "real_users decode try_deserialize events c \<longleftrightarrow>
     (\<forall>q\<in>set (dv_queues (lu_delivery c)). set q \<subseteq> emitted_to (lu_delivery c)) \<and>
     (\<forall>k\<in>set (lu_asked c). Asks k \<in> set events) \<and>
     (\<forall>k u. user_map_get (users_map c) k = Some u \<longrightarrow>
       (\<exists>slot. (slot, k, u) \<in> emitted_to (lu_delivery c)) \<or> users_answered decode try_deserialize events k u)"

lemma users_answered_more:
  "users_answered decode try_deserialize events k u \<Longrightarrow> users_answered decode try_deserialize (events @ [e]) k u"
  by (simp add: users_answered_def) blast

lemma real_users_store:
  assumes "real_users decode try_deserialize events c" and "emitted_to (lu_delivery c) \<subseteq> emitted_to (lu_delivery c')"
    and "\<forall>q\<in>set (dv_queues (lu_delivery c')). set q \<subseteq> emitted_to (lu_delivery c')"
    and "\<forall>k\<in>set (lu_asked c'). k \<in> set (lu_asked c) \<or> e = Asks k"
    and "\<And>k u. user_map_get (users_map c') k = Some u \<Longrightarrow> user_map_get (users_map c) k = Some u \<or>
      (\<exists>slot. (slot, k, u) \<in> emitted_to (lu_delivery c)) \<or> users_answered decode try_deserialize (events @ [e]) k u"
  shows "real_users decode try_deserialize (events @ [e]) c'"
  unfolding real_users_def
proof (intro conjI ballI allI impI)
  fix k assume "k \<in> set (lu_asked c')"
  with assms(1,4) show "Asks k \<in> set (events @ [e])" by (auto simp: real_users_def)
next
  fix k u assume "user_map_get (users_map c') k = Some u"
  from assms(5) [OF this] assms(1) users_answered_more
  have "(\<exists>slot. (slot, k, u) \<in> emitted_to (lu_delivery c)) \<or> users_answered decode try_deserialize (events @ [e]) k u"
    unfolding real_users_def by blast
  with assms(2) show "(\<exists>slot. (slot, k, u) \<in> emitted_to (lu_delivery c')) \<or>
      users_answered decode try_deserialize (events @ [e]) k u"
    by blast
qed (use assms(3) in blast)

lemma subscribe_answered_users:
  assumes "user_map_subscribe decode locked response s = Inr (m, e)" and "user_map_get m k = Some u"
  shows "user_map_get s k = Some u \<or> X \<or> users_answered decode try_deserialize (events @ [Subscribes response]) k u"
proof (cases "user_map_get s k = Some u")
  case False
  with user_subscribe_entries [OF assms] obtain slot accounts a where
    "response = Inr (Some (slot, accounts))" "(k, a) \<in> set accounts" "decode a = Inr u" by blast
  then have "users_answered decode try_deserialize (events @ [Subscribes response]) k u"
    unfolding users_answered_def by (intro disjI1 exI [of _ slot] exI [of _ accounts] exI [of _ a]) simp
  then show ?thesis by simp
qed simp

lemma users_subscribed_real:
  assumes "user_map_subscribe decode locked response (users_map c) = Inr (m, e)"
    and "real_users decode try_deserialize events c"
    and "users_map c' = m" "emitted_to (lu_delivery c') = emitted_to (lu_delivery c)" "lu_asked c' = lu_asked c"
    and "\<forall>q\<in>set (dv_queues (lu_delivery c')). set q \<subseteq> emitted_to (lu_delivery c)"
  shows "real_users decode try_deserialize (events @ [Subscribes response]) c'"
proof (rule real_users_store [OF assms(2)])
  fix k u assume "user_map_get (users_map c') k = Some u"
  then show "user_map_get (users_map c) k = Some u \<or> (\<exists>slot. (slot, k, u) \<in> emitted_to (lu_delivery c)) \<or>
      users_answered decode try_deserialize (events @ [Subscribes response]) k u"
    using subscribe_answered_users [OF assms(1)] assms(3) by simp
qed (use assms(4-6) in simp_all)

lemma users_step_real:
  assumes "users_step from_str decode try_deserialize ws_decode c e c'" and "real_users decode try_deserialize events c"
  shows "real_users decode try_deserialize (events @ [e]) c'"
  using assms
proof (induction rule: users_step.induct)
  case (moves c e d)
  have queues: "\<forall>q\<in>set (dv_queues (lu_delivery c)). set q \<subseteq> emitted_to (lu_delivery c)"
    using moves(2) by (simp add: real_users_def)
  note emitted = deliver_emitted [OF moves(1)]
  show ?case
  proof (rule real_users_store [OF moves(2)])
    fix k u assume "user_map_get (users_map (c\<lparr>lu_delivery := d\<rparr>)) k = Some u"
    with deliver_store [OF moves(1)] queues
    show "user_map_get (users_map c) k = Some u \<or> (\<exists>slot. (slot, k, u) \<in> emitted_to (lu_delivery c)) \<or>
        users_answered decode try_deserialize (events @ [Moves e]) k u"
      by (fastforce simp: user_handler_def user_message_def user_store.lookup_update split: if_splits)
  qed (use emitted(1) emitted(2) [OF queues] in simp_all)
next
  case (subscribe_only_syncs c response m e)
  from subscribe_only_syncs(2,4) show ?case
    by (rule users_subscribed_real) (use subscribe_only_syncs(4) in \<open>simp_all add: real_users_def emitted_to_def\<close>)
next
  case (subscribes c response m)
  from subscribes(2,4) show ?case
    by (rule users_subscribed_real) (use subscribes(4) in \<open>auto simp: real_users_def emitted_to_def emitted_spawn\<close>)
next
  case (unsubscribes c m e)
  have "um_usermap m = um_usermap (users_map c) \<or> um_usermap m = []"
    using unsubscribes(2) by (auto simp: user_map_unsubscribe_def split: if_splits prod.splits option.splits)
  then show ?case
    by (intro real_users_store [OF unsubscribes(3)])
      (use unsubscribes(3) in \<open>auto simp: real_users_def emitted_to_def emitted_signal user_map_get_def\<close>)
next
  case (asks c k)
  show ?case
    by (rule real_users_store [OF asks(3)]) (use asks(3) in \<open>auto simp: real_users_def\<close>)
next
  case (answers k c answer m result)
  have asked: "Asks k \<in> set events" using answers(1,3) by (simp add: real_users_def)
  show ?case
  proof (rule real_users_store [OF answers(3)])
    fix k' u
    assume "user_map_get (users_map (c\<lparr>lu_delivery := (lu_delivery c)\<lparr>dv_store := m\<rparr>, lu_asked := remove1 k (lu_asked c)\<rparr>)) k' = Some u"
    with asked show "user_map_get (users_map c) k' = Some u \<or> (\<exists>slot. (slot, k', u) \<in> emitted_to (lu_delivery c)) \<or>
        users_answered decode try_deserialize (events @ [Answers k answer]) k' u"
      by (auto simp: fetched_get(1) [OF answers(2)] users_answered_def split: sum.splits if_splits)
  qed (use answers(3) in \<open>auto simp: real_users_def emitted_to_def dest: subsetD [OF set_remove1_subset]\<close>)
next
  case (caller_panics k c answer e)
  show ?case
    by (rule real_users_store [OF caller_panics(3)])
      (use caller_panics(3) in \<open>auto simp: real_users_def dest: subsetD [OF set_remove1_subset]\<close>)
qed

text \<open>
  Over any sequence of subscriptions, task inputs, handler turns and requests, every entry of a user map is an
  account a task decoded under its key, or one a node answered for it: to a synchronization, or to a caller who
  had found no entry.
\<close>

theorem live_users_real:
  assumes "user_map_new D ws_url endpoint sync filters callback = Inr m0"
    and "users_run from_str decode try_deserialize ws_decode m0 events c"
    and "user_map_get (users_map c) k = Some u"
  shows "(\<exists>slot. (slot, k, u) \<in> emitted_to (lu_delivery c)) \<or> users_answered decode try_deserialize events k u"
proof -
  from assms(2) have "real_users decode try_deserialize events c"
  proof (induction rule: users_run.induct)
    case idle
    then show ?case using assms(1) by (auto simp: real_users_def user_map_new_def user_map_get_def returns)
  qed (rule users_step_real)
  with assms(3) show ?thesis unfolding real_users_def by blast
qed

section \<open>One subscription\<close>

definition stays_subscribed :: "('r, 'a) users_event \<Rightarrow> bool" where
  "stays_subscribed e = (case e of Subscribes _ \<Rightarrow> False | Unsubscribes \<Rightarrow> False | _ \<Rightarrow> True)"

text \<open>What a caller has put into the map.\<close>

definition fetched_entry :: "('a \<Rightarrow> user option) \<Rightarrow> ('r, 'a) users_event list \<Rightarrow> string \<Rightarrow> user option \<Rightarrow> bool" where
  "fetched_entry try_deserialize events k served \<longleftrightarrow>
     served \<noteq> None \<and> (\<exists>data. Answers k (Inr data) \<in> set events \<and> served = try_deserialize data)"

text \<open>The updates handled so far, kept where the map would be.\<close>

abbreviation logging :: "live_users \<Rightarrow> (u64 \<times> string \<times> user) list \<Rightarrow>
    (string \<times> user, (u64 \<times> string \<times> user) list) delivery" where
  "logging c handled \<equiv> \<lparr>dv_tasks = dv_tasks (lu_delivery c), dv_queues = dv_queues (lu_delivery c), dv_store = handled\<rparr>"

definition users_ok :: "('a \<Rightarrow> user option) \<Rightarrow> ('r \<Rightarrow> (string \<times> user) option) \<Rightarrow> user_map \<Rightarrow>
    ('r, 'a) users_event list \<Rightarrow> live_users \<Rightarrow> (u64 \<times> string \<times> user) list \<Rightarrow> bool" where
  "users_ok try_deserialize ws_decode m1 events c handled \<longleftrightarrow>
     pool_ok one_origin one_origin (\<lambda>_. program_ws ws_decode) (\<lambda>log u. log @ [u]) 1 [] (logging c handled) handled \<and>
     (\<forall>k. user_map_get (users_map c) k = user_map_get (foldl user_handler m1 handled) k \<or>
       fetched_entry try_deserialize events k (user_map_get (users_map c) k))"

lemma fetched_entry_more:
  "fetched_entry try_deserialize events k served \<Longrightarrow> fetched_entry try_deserialize (events @ [e]) k served"
  by (auto simp: fetched_entry_def)

lemma handler_get:
  "user_map_get (user_handler s x) k = (if fst (snd x) = k then Some (snd (snd x)) else user_map_get s k)"
  by (cases x) (simp add: user_handler_def user_message_def user_store.lookup_update)

lemma users_ok_asked:
  "users_ok try_deserialize ws_decode m1 events c handled \<Longrightarrow>
    users_ok try_deserialize ws_decode m1 (events @ [e]) (c\<lparr>lu_asked := asked\<rparr>) handled"
  by (simp add: users_ok_def) (metis fetched_entry_more)

lemma users_ok_step:
  assumes "users_step from_str decode try_deserialize ws_decode c e c'" and "stays_subscribed e"
    and "users_ok try_deserialize ws_decode m1 events c handled"
  shows "\<exists>handled. users_ok try_deserialize ws_decode m1 (events @ [e]) c' handled"
  using assms
proof (induction rule: users_step.induct)
  case (moves c e d)
  obtain new where new: "length new \<le> 1" "dv_store d = foldl user_handler (users_map c) new"
    and logged: "deliver (\<lambda>_. program_ws ws_decode) (\<lambda>log u. log @ [u]) (logging c handled) e
      (logging (c\<lparr>lu_delivery := d\<rparr>) (handled @ new))"
    using deliver_logged [OF moves(1), of handled] by auto
  obtain h where h: "pool_ok one_origin one_origin (\<lambda>_. program_ws ws_decode) (\<lambda>log u. log @ [u]) 1 []
      (logging (c\<lparr>lu_delivery := d\<rparr>) (handled @ new)) h"
    using one_task.pool_step [OF conjunct1 [OF moves(3) [unfolded users_ok_def]] _ logged]
    by (auto simp: inj_on_def)
  then have "h = handled @ new" by (simp add: pool_ok_def log_fold)
  moreover have "user_map_get (dv_store d) k = user_map_get (foldl user_handler m1 (handled @ new)) k \<or>
      fetched_entry try_deserialize (events @ [Moves e]) k (user_map_get (dv_store d) k)" for k
  proof -
    have "user_map_get (users_map c) k = user_map_get (foldl user_handler m1 handled) k \<or>
        fetched_entry try_deserialize (events @ [Moves e]) k (user_map_get (users_map c) k)"
      using moves(3) fetched_entry_more unfolding users_ok_def by blast
    moreover have "new = [] \<or> (\<exists>x. new = [x])" using new(1) by (cases new) auto
    ultimately show ?thesis using new(2) by (auto simp: handler_get)
  qed
  ultimately show ?case using h by (intro exI [of _ "handled @ new"]) (simp add: users_ok_def)
next
  case (answers k c answer m result)
  have "user_map_get m k' = user_map_get (users_map c) k' \<or>
      fetched_entry try_deserialize (events @ [Answers k answer]) k' (user_map_get m k')" for k'
    using fetched_get(2) [OF answers(2)]
    by (auto simp: fetched_get(1) [OF answers(2)] fetched_entry_def split: sum.split)
  moreover have "user_map_get (users_map c) k' = user_map_get (foldl user_handler m1 handled) k' \<or>
      fetched_entry try_deserialize (events @ [Answers k answer]) k' (user_map_get (users_map c) k')" for k'
    using answers(4) fetched_entry_more unfolding users_ok_def by blast
  ultimately have "user_map_get m k' = user_map_get (foldl user_handler m1 handled) k' \<or>
      fetched_entry try_deserialize (events @ [Answers k answer]) k' (user_map_get m k')" for k'
    by metis
  then show ?case using answers(4) by (intro exI [of _ handled]) (simp add: users_ok_def)
qed (auto simp: stays_subscribed_def intro: users_ok_asked)

lemma users_run_snocE:
  assumes "users_run from_str decode try_deserialize ws_decode m0 (events @ [e]) c"
  obtains d where "users_run from_str decode try_deserialize ws_decode m0 events d"
    "users_step from_str decode try_deserialize ws_decode d e c"
  using assms by (cases rule: users_run.cases) auto

lemma first_users:
  assumes "user_map_new D ws_url endpoint sync filters callback = Inr m0"
    and "user_map_subscribe decode False response m0 = Inr (m1, None)"
    and "users_run from_str decode try_deserialize ws_decode m0 [Subscribes response] c"
  shows "c = \<lparr>lu_delivery = \<lparr>dv_tasks = [new_task], dv_queues = [[]], dv_store = m1\<rparr>, lu_asked = []\<rparr>"
proof -
  have new: "\<not> um_subscribed m0" "\<not> wps_subscribed (um_subscription m0)"
    using assms(1) by (auto simp: user_map_new_def program_subscriber_new_def returns)
  obtain d where "users_run from_str decode try_deserialize ws_decode m0 [] d"
    "users_step from_str decode try_deserialize ws_decode d (Subscribes response) c"
    using users_run_snocE [of from_str decode try_deserialize ws_decode m0 "[]" "Subscribes response" c] assms(3) by auto
  then show ?thesis
    by (auto elim!: users_subscribeE users_run_nilE
      simp: assms(2) new spawn_def program_subscribe_def program_subscribe_ws_def)
qed

text \<open>
  C15. A user map that is subscribed once serves, after any interleaving of its websocket task, its handler
  thread and the callers of must_get, for every user the newest account among the updates handled so far, or
  what the map was synchronized with if there was none; the exception is a user a caller has fetched, whose
  entry may be the fetched account. The updates handled are the start of what the task passed on.
\<close>

theorem live_users_serve_newest:
  assumes "user_map_new D ws_url endpoint sync filters callback = Inr m0"
    and "user_map_subscribe decode False response m0 = Inr (m1, None)"
    and "users_run from_str decode try_deserialize ws_decode m0 (Subscribes response # events) c"
    and "\<forall>e\<in>set events. stays_subscribed e"
  shows "\<exists>t handled pending. map sp_task (dv_tasks (lu_delivery c)) = [t] \<and>
    dv_queues (lu_delivery c) = [pending] \<and> wt_emitted t = handled @ pending \<and> sorted (map fst (wt_emitted t)) \<and>
    (\<forall>k. newest_user handled k (user_map_get m1 k) (user_map_get (users_map c) k) \<or>
      fetched_entry try_deserialize events k (user_map_get (users_map c) k))"
proof -
  have "\<exists>handled. users_ok try_deserialize ws_decode m1 events c handled"
    using assms(3,4)
  proof (induction events arbitrary: c rule: rev_induct)
    case Nil
    note c = first_users [OF assms(1,2) Nil(1)]
    have "pool_ok one_origin one_origin (\<lambda>_. program_ws ws_decode) (\<lambda>log u. log @ [u]) 1
        (dv_store (logging c [])) (logging c []) []"
      by (intro one_task.pool_start) (simp_all add: c new_task_def)
    then show ?case by (intro exI [of _ "[]"]) (simp add: users_ok_def c)
  next
    case (snoc e events)
    obtain d where "users_run from_str decode try_deserialize ws_decode m0 (Subscribes response # events) d"
      "users_step from_str decode try_deserialize ws_decode d e c"
      using users_run_snocE [of from_str decode try_deserialize ws_decode m0 "Subscribes response # events" e c] snoc(2) by auto
    with snoc.IH [of d] snoc.prems(2) show ?case by (auto intro: users_ok_step)
  qed
  then obtain handled where ok: "users_ok try_deserialize ws_decode m1 events c handled" ..
  then have pool: "pool_ok one_origin one_origin (\<lambda>_. program_ws ws_decode) (\<lambda>log u. log @ [u]) 1 []
      (logging c handled) handled" by (simp add: users_ok_def)
  then obtain x q where c: "dv_tasks (lu_delivery c) = [x]" "dv_queues (lu_delivery c) = [q]"
    by (auto simp: pool_ok_def length_Suc_conv)
  with pool have e: "wt_emitted (sp_task x) = handled @ q" by (simp add: pool_ok_def)
  have s: "sorted (map fst (handled @ q))"
    using one_task.pool_sorted [OF pool, of 0] by (simp add: c)
  then have "newest_user handled k (user_map_get m1 k) (user_map_get (foldl user_handler m1 handled) k)" for k
    unfolding user_handler_fold by (intro folded_newest) (simp add: sorted_append)
  with ok c e s show ?thesis by (simp add: users_ok_def) metis
qed

text \<open>
  Subscribing a map that is subscribed synchronizes it once more, with whatever slot the node answers at: the
  entries and the latest slot go back to it. A market map, which remembers that it has been synchronized, does
  not.
\<close>

lemma resubscribing_users_go_back:
  assumes "um_subscribed s" and "um_sync_lock s" and "decode account = Inr u"
  shows "\<exists>m. user_map_subscribe decode False (Inr (Some (slot, [(k, account)]))) s = Inr (m, None) \<and>
    user_map_get m k = Some u \<and> user_map_latest_slot m = slot"
  using assms
  by (simp add: user_map_subscribe_def user_map_sync_def notify_def user_map_get_def user_map_latest_slot_def update_conv')

section \<open>Sample runs\<close>

definition sample_users :: user_map where
  "sample_users = \<lparr>um_subscribed = False, um_subscription = program_subscriber_new ''usermap'' ''ws://x''
       [\<lparr>mc_offset = 0, mc_bytes = [1]\<rparr>, get_non_idle_user_filter], um_usermap = [], um_sync_lock = False,
     um_latest_slot = 0, um_callback = True, um_calls = []\<rparr>"

lemma sample_users_new:
  "user_map_new \<lparr>disc_user = [1], disc_perp_market = [2], disc_spot_market = [3]\<rparr>
    (\<lambda>_. Some ''ws://x'') ''http://x'' False None True = Inr sample_users"
  by (simp add: user_map_new_def sample_users_def get_user_filter_def)

abbreviation subscribed_users :: user_map where
  "subscribed_users \<equiv> sample_users\<lparr>um_subscribed := True,
     um_subscription := fst (program_subscribe (um_subscription sample_users))\<rparr>"

lemma sample_subscribe:
  "user_map_subscribe Inr False (Inr None :: _ + (string \<times> user) response) sample_users = Inr (subscribed_users, None)"
  by (simp add: user_map_subscribe_def sample_users_def)

abbreviation sample_users_run :: "(string \<times> user, user) users_event list \<Rightarrow> live_users \<Rightarrow> bool" where
  "sample_users_run \<equiv> users_run (\<lambda>_. Some 7) Inr Some Some sample_users"

definition newer_user :: user where
  "newer_user = sample_user\<lparr>u_delegate := 9\<rparr>"

text \<open>A caller has asked for a user whose update is handled before the answer comes.\<close>

abbreviation asked_and_handled :: "(string \<times> user, user) users_event list" where
  "asked_and_handled \<equiv> [Subscribes (Inr None), Asks ''k'', Moves (Reaches 0 SubscribeOk),
     Moves (Reaches 0 (Message 9 (''k'', newer_user))), Moves (Handles 0)]"

abbreviation handled_users :: live_users where
  "handled_users \<equiv> \<lparr>lu_delivery = \<lparr>dv_tasks = [\<lparr>sp_task = streaming [(9, ''k'', newer_user)] 9, sp_signal = False,
       sp_sender = True\<rparr>], dv_queues = [[]], dv_store = user_handler subscribed_users (9, ''k'', newer_user)\<rparr>,
     lu_asked = [''k'']\<rparr>"

lemma users_run_moves:
  assumes "users_run from_str decode try_deserialize ws_decode m0 events \<lparr>lu_delivery = d, lu_asked = ks\<rparr>"
    and "deliver (\<lambda>_. program_ws ws_decode) user_handler d e d'"
  shows "users_run from_str decode try_deserialize ws_decode m0 (events @ [Moves e]) \<lparr>lu_delivery = d', lu_asked = ks\<rparr>"
  using users_run.runs [OF assms(1) users_step.moves, of e d'] assms(2) by simp

lemma sample_asked_and_handled: "sample_users_run asked_and_handled handled_users"
proof -
  let ?d = "\<lparr>dv_tasks = [new_task], dv_queues = [[]], dv_store = subscribed_users\<rparr> :: (string \<times> user, user_map) delivery"
  let ?x = "(9 :: u64, ''k'', newer_user)"
  let ?t = "\<lambda>xs l. \<lparr>sp_task = streaming xs l, sp_signal = False, sp_sender = True\<rparr> :: (string \<times> user) spawned"
  have get: "user_map_get subscribed_users ''k'' = None" by (simp add: user_map_get_def sample_users_def)
  let ?c = "\<lambda>d ks. \<lparr>lu_delivery = d, lu_asked = ks\<rparr>"
  let ?idle = "?c \<lparr>dv_tasks = [], dv_queues = [], dv_store = sample_users\<rparr> []"
  have "users_step (\<lambda>_. Some 7) Inr Some Some ?idle
      (Subscribes (Inr None) :: (string \<times> user, user) users_event) (?c ?d [])"
    using users_step.subscribes [where c = ?idle and decode = Inr and response = "Inr None" and m = subscribed_users]
      sample_subscribe
    by (simp add: sample_users_def spawn_def program_subscribe_def program_subscribe_ws_def program_subscriber_new_def)
  from users_run.runs [OF users_run.idle this]
  have "sample_users_run [Subscribes (Inr None)] (?c ?d [])" by simp
  moreover have "users_step (\<lambda>_. Some 7) Inr Some Some (?c ?d [])
      (Asks ''k'' :: (string \<times> user, user) users_event) (?c ?d [''k''])"
    using users_step.asks [where c = "?c ?d []" and k = "''k''" and from_str = "\<lambda>_. Some 7"] get by simp
  ultimately have "sample_users_run [Subscribes (Inr None), Asks ''k''] (?c ?d [''k''])"
    using users_run.runs by fastforce
  from users_run_moves [OF this deliver_connect [where n = 0 and sg = False and sd = True]]
  have "sample_users_run [Subscribes (Inr None), Asks ''k'', Moves (Reaches 0 SubscribeOk)]
      \<lparr>lu_delivery = ?d\<lparr>dv_tasks := [?t [] 0]\<rparr>, lu_asked = [''k'']\<rparr>"
    by (simp add: new_task_def)
  from users_run_moves [OF this deliver_message [where n = 0 and xs = "[]" and l = 0 and sg = False and sd = True
        and slot = 9 and d = "(''k'', newer_user)" and m = "(''k'', newer_user)"]]
  have "sample_users_run [Subscribes (Inr None), Asks ''k'', Moves (Reaches 0 SubscribeOk),
        Moves (Reaches 0 (Message 9 (''k'', newer_user)))]
      \<lparr>lu_delivery = ?d\<lparr>dv_tasks := [?t [?x] 9], dv_queues := [[?x]]\<rparr>, lu_asked = [''k'']\<rparr>"
    by (simp add: program_ws_def)
  from users_run_moves [OF this deliver.handles [where h = 0 and u = ?x and rest = "[]"]]
  show ?thesis by simp
qed

text \<open>
  The answer puts an older account over the newer one, and the callback is told that it is of the slot of the
  newer one.
\<close>

theorem fetched_user_goes_back:
  "\<exists>c. sample_users_run (asked_and_handled @ [Answers ''k'' (Inr sample_user)]) c \<and>
     user_map_get (users_map handled_users) ''k'' = Some newer_user \<and> newer_user \<noteq> sample_user \<and>
     user_map_get (users_map c) ''k'' = Some sample_user \<and>
     last (um_calls (users_map c)) = user_message (9, ''k'', sample_user)"
proof -
  obtain m where m: "user_map_fetched Some ''k'' (Inr sample_user) (users_map handled_users) = Inr (m, Inr sample_user)"
    "user_map_get m ''k'' = Some sample_user" "last (um_calls m) = user_message (9, ''k'', sample_user)"
    by (simp add: user_map_fetched_def user_handler_def user_message_def user_update_def notify_def user_map_get_def
        update_conv' sample_users_def Let_def)
  let ?c = "handled_users\<lparr>lu_delivery := (lu_delivery handled_users)\<lparr>dv_store := m\<rparr>, lu_asked := []\<rparr>"
  from users_run.runs [OF sample_asked_and_handled users_step.answers [OF _ m(1)]]
  have "sample_users_run (asked_and_handled @ [Answers ''k'' (Inr sample_user)]) ?c"
    by simp
  moreover have "newer_user \<noteq> sample_user" by (simp add: newer_user_def sample_user_def)
  ultimately show ?thesis using m(2,3) by (intro exI [of _ ?c]) (simp add: handler_get)
qed

theorem live_users_serve_newest_witness:
  "\<exists>c handled. sample_users_run asked_and_handled c \<and> handled = [(9, ''k'', newer_user)] \<and>
     newest_user handled ''k'' None (user_map_get (users_map c) ''k'')"
proof -
  have stays: "\<forall>e\<in>set (tl asked_and_handled). stays_subscribed e" by (simp add: stays_subscribed_def)
  have none: "\<not> fetched_entry Some (tl asked_and_handled) ''k'' served" for served
    by (simp add: fetched_entry_def)
  have "user_map_get subscribed_users ''k'' = None" by (simp add: user_map_get_def sample_users_def)
  moreover obtain handled where "[(9, ''k'', newer_user)] = handled"
    "newest_user handled ''k'' (user_map_get subscribed_users ''k'') (user_map_get (users_map handled_users) ''k'')"
    using live_users_serve_newest [OF sample_users_new sample_subscribe _ stays, of "\<lambda>_. Some 7" Some Some handled_users]
      sample_asked_and_handled none
    by (auto simp: streaming_def)
  ultimately have "newest_user [(9, ''k'', newer_user)] ''k'' None (user_map_get (users_map handled_users) ''k'')"
    by simp
  with sample_asked_and_handled show ?thesis by blast
qed

end
