(* ===== verification/Dlob_Builder.thy ===== *)
theory Dlob_Builder
  imports Dlob_Inserting Live_Maps Event_Flow
begin

text \<open>
  The order book builder, \<open>src/src/dlob/dlob_builder.rs\<close>: a task rebuilds the book from the user map at
  the current slot, again and again, and sends a copy to the handlers of its event emitter. Slots and
  users arrive in between; they reach the builder's parts without its lock.
\<close>

section \<open>The builder\<close>

record ('h, 'f) dlob_builder =
  bl_slot_subscriber :: slot_subscriber
  bl_usermap :: user_map
  bl_rebuild_frequency :: u64
  bl_dlob :: "'h dlob"
  bl_event_emitter :: "'f event_emitter"

definition SUBSCRIPTION_ID :: string where "SUBSCRIPTION_ID = ''dlob_update''"

definition dlob_builder_new :: "slot_subscriber \<Rightarrow> user_map \<Rightarrow> u64 \<Rightarrow> ('h, 'f) dlob_builder" where
  "dlob_builder_new slots usermap rebuild_frequency =
     \<lparr>bl_slot_subscriber = slots, bl_usermap = usermap, bl_rebuild_frequency = rebuild_frequency,
      bl_dlob = dlob_new, bl_event_emitter = event_emitter_new\<rparr>"

text \<open>The book with its deliveries to the handlers.\<close>

definition builder_build :: "'h dlob_env \<Rightarrow> (string \<Rightarrow> pubkey option) \<Rightarrow> ('h, 'f) dlob_builder \<Rightarrow>
    (('h, 'f) dlob_builder \<times> ('f \<times> 'h dlob) list) res" where
  "builder_build E from_str b =
     bindE (build_from_usermap E from_str (um_usermap (bl_usermap b))
       (ss_current_slot (bl_slot_subscriber b)) (bl_dlob b)) (\<lambda>book.
     Inr (b\<lparr>bl_dlob := book\<rparr>, emitter_emit SUBSCRIPTION_ID book (bl_event_emitter b)))"

definition get_dlob :: "('h, 'f) dlob_builder \<Rightarrow> 'h dlob" where
  "get_dlob b = bl_dlob b"

text \<open>
  Starting subscribes to the slots and to the users and spawns the task, unless a subscription fails.
  The result is the builder, the error, and whether the task was spawned.
\<close>

definition start_building :: "sdk_error option \<Rightarrow> ('a \<Rightarrow> sdk_error + user) \<Rightarrow> bool \<Rightarrow>
    sdk_error + (string \<times> 'a) response \<Rightarrow> ('h, 'f) dlob_builder \<Rightarrow>
    (('h, 'f) dlob_builder \<times> sdk_error option \<times> bool) res" where
  "start_building connect_error decode locked response b =
     (let (slots, e) = slot_subscribe connect_error (bl_slot_subscriber b);
          b = b\<lparr>bl_slot_subscriber := slots\<rparr> in
      case e of
        Some e \<Rightarrow> Inr (b, Some e, False)
      | None \<Rightarrow>
          bindE (user_map_subscribe decode locked response (bl_usermap b)) (\<lambda>(users, e).
          let b = b\<lparr>bl_usermap := users\<rparr> in
          case e of Some e \<Rightarrow> Inr (b, Some e, False) | None \<Rightarrow> Inr (b, None, True)))"

text \<open>
  The task makes its timer, whose period must not be zero, and then takes turns with the arrivals; a
  panic ends it.
\<close>

datatype builder_input = SlotArrives u64 | UserArrives user_account_update | Turn

fun builder_step :: "'h dlob_env \<Rightarrow> (string \<Rightarrow> pubkey option) \<Rightarrow>
    ('h, 'f) dlob_builder \<times> ('f \<times> 'h dlob) list \<Rightarrow> builder_input \<Rightarrow>
    (('h, 'f) dlob_builder \<times> ('f \<times> 'h dlob) list) res" where
  "builder_step E from_str (b, sent) (SlotArrives slot) =
     Inr (b\<lparr>bl_slot_subscriber := slot_message (bl_slot_subscriber b) slot\<rparr>, sent)"
| "builder_step E from_str (b, sent) (UserArrives u) =
     Inr (b\<lparr>bl_usermap := user_update (bl_usermap b) u\<rparr>, sent)"
| "builder_step E from_str (b, sent) Turn =
     bindE (builder_build E from_str b) (\<lambda>(b, deliveries). Inr (b, sent @ deliveries))"

definition builder_task :: "'h dlob_env \<Rightarrow> (string \<Rightarrow> pubkey option) \<Rightarrow> ('h, 'f) dlob_builder \<Rightarrow>
    builder_input list \<Rightarrow> (('h, 'f) dlob_builder \<times> ('f \<times> 'h dlob) list) res" where
  "builder_task E from_str b inputs =
     bindE (guardE (bl_rebuild_frequency b \<noteq> 0) (Panic ''`period` must be non-zero.'')) (\<lambda>_.
     foldE (builder_step E from_str) (b, []) inputs)"

section \<open>What the task publishes\<close>

fun slot_of_input :: "builder_input \<Rightarrow> u64 option" where
  "slot_of_input (SlotArrives slot) = Some slot"
| "slot_of_input _ = None"

fun user_of_input :: "builder_input \<Rightarrow> user_account_update option" where
  "user_of_input (UserArrives u) = Some u"
| "user_of_input _ = None"

lemma slot_message_max: "ss_current_slot (slot_message s slot) = max slot (ss_current_slot s)"
  using linear [of "ss_current_slot s" slot] by (auto simp: slot_message_def max_def)

lemma builder_inputs:
  assumes "foldE (builder_step E from_str) (b, sent) inputs = Inr (b', sent')"
  shows "bl_usermap b' = foldl user_update (bl_usermap b) (List.map_filter user_of_input inputs) \<and>
    ss_current_slot (bl_slot_subscriber b') =
      fold max (List.map_filter slot_of_input inputs) (ss_current_slot (bl_slot_subscriber b)) \<and>
    bl_event_emitter b' = bl_event_emitter b \<and> bl_rebuild_frequency b' = bl_rebuild_frequency b"
  using assms
proof (induction inputs arbitrary: b sent)
  case (Cons i inputs)
  then show ?case
    by (cases i) (auto simp: returns map_filter_simps slot_message_max builder_build_def dest!: Cons.IH)
qed (simp add: map_filter_simps)

lemma builder_turn:
  assumes "builder_step E from_str (b, sent) Turn = Inr (b', sent')"
  shows "build_from_usermap E from_str (um_usermap (bl_usermap b)) (ss_current_slot (bl_slot_subscriber b))
      (bl_dlob b) = Inr (bl_dlob b') \<and>
    sent' = sent @ emitter_emit SUBSCRIPTION_ID (bl_dlob b') (bl_event_emitter b)"
  using assms by (auto simp: builder_build_def returns)

text \<open>
  After a turn of the builder's task its book is the one built from the last data of every user at the
  newest slot, well formed and closed, whatever happened in the turns before; every handler subscribed
  to the builder has been sent this book last.
\<close>

theorem builder_publishes_current_book:
  assumes "dlob_env E" and "builder_task E from_str b (inputs @ [Turn]) = Inr (b', sent)"
    and "map_of (em_subscribers (bl_event_emitter b)) ''dlob_update'' = Some handlers"
  shows "(\<exists>before. sent = before @ map (\<lambda>handler. (handler, get_dlob b')) handlers) \<and>
    dlob_ok E (get_dlob b') \<and> dlob_closed E (get_dlob b') \<and>
    (\<exists>D. build_from_usermap E from_str
       (um_usermap (foldl user_update (bl_usermap b) (List.map_filter user_of_input inputs)))
       (fold max (List.map_filter slot_of_input inputs) (ss_current_slot (bl_slot_subscriber b))) D =
       Inr (get_dlob b'))"
proof -
  obtain b1 sent1 where run: "foldE (builder_step E from_str) (b, []) inputs = Inr (b1, sent1)"
    and turn: "builder_step E from_str (b1, sent1) Turn = Inr (b', sent)"
    using assms(2) by (auto simp: builder_task_def foldE_append returns simp del: builder_step.simps)
  note * = builder_inputs [OF run] builder_turn [OF turn]
  show ?thesis
    using * assms(3) dlob_env.build_invariants [OF assms(1)]
    by (auto simp: get_dlob_def emitter_emit_def SUBSCRIPTION_ID_def)
qed

definition empty_user_map :: user_map where
  "empty_user_map = \<lparr>um_subscribed = True, um_subscription = program_subscriber_new ''usermap'' ''ws://x'' [],
     um_usermap = [], um_sync_lock = False, um_latest_slot = 0, um_callback = False,
     um_calls = []\<rparr>"

definition sample_dlob_builder :: "((string \<times> directional_node) list, nat) dlob_builder" where
  "sample_dlob_builder = (dlob_builder_new (slot_subscriber_new ''ws://x'') empty_user_map 1000)
     \<lparr>bl_event_emitter := emitter_subscribe ''dlob_update'' 5 event_emitter_new\<rparr>"

theorem builder_publishes_current_book_witness:
  "\<exists>b' sent. builder_task list_env (\<lambda>_. Some 7) sample_dlob_builder
       [UserArrives \<lparr>uu_pubkey = ''k'', uu_data_and_slot = \<lparr>das_slot = 3,
          das_data = sample_user\<lparr>u_orders := [sample_order]\<rparr>\<rparr>\<rparr>, SlotArrives 100, Turn] = Inr (b', sent) \<and>
     (\<exists>before. sent = before @ [(5, get_dlob b')]) \<and> dlob_ok list_env (get_dlob b')"
proof -
  let ?inputs = "[UserArrives \<lparr>uu_pubkey = ''k'', uu_data_and_slot = \<lparr>das_slot = 3,
    das_data = sample_user\<lparr>u_orders := [sample_order]\<rparr>\<rparr>\<rparr>, SlotArrives 100]"
  obtain D' where D': "insert_order list_env sample_order 7 100 (dlob_clear dlob_new) = Inr D'"
    using insert_order_defined [of sample_order list_env 7 100 "dlob_clear dlob_new"]
    by (auto simp: sample_order_def)
  then have "build_from_usermap list_env (\<lambda>_. Some 7) [(''k'', sample_user\<lparr>u_orders := [sample_order]\<rparr>)] 100
      dlob_new = Inr (D'\<lparr>dl_initialized := True\<rparr>)"
    by (simp add: build_from_usermap_def sample_order_def)
  then obtain b' sent where run: "builder_task list_env (\<lambda>_. Some 7) sample_dlob_builder (?inputs @ [Turn]) = Inr (b', sent)"
    by (auto simp: builder_task_def sample_dlob_builder_def dlob_builder_new_def builder_build_def
        slot_message_def slot_subscriber_new_def user_update_def notify_def empty_user_map_def Let_def)
  moreover have "map_of (em_subscribers (bl_event_emitter sample_dlob_builder)) ''dlob_update'' = Some [5]"
    by (simp add: sample_dlob_builder_def emitter_subscribe_def event_emitter_new_def)
  ultimately show ?thesis
    using builder_publishes_current_book [OF list_book.dlob_env_axioms run] by auto
qed

end
