(* ===== verification/Dlob_Building.thy ===== *)
theory Dlob_Building
  imports Dlob_Inserting
begin

text \<open>
  What a book built from a user map holds: exactly the orders of its users that are in use, each once,
  under its owner, at the market, list and side of its classification. The book of
  \<open>src/src/dlob/dlob.rs\<close> refines a function of the users and the slot.
\<close>

section \<open>The orders of a user map\<close>

definition used_orders :: "user \<Rightarrow> order list" where
  "used_orders u = filter (\<lambda>ord. o_status ord \<noteq> order_status.Init) (u_orders u)"

fun map_entries :: "(string \<Rightarrow> pubkey option) \<Rightarrow> (string \<times> user) list \<Rightarrow> (order \<times> pubkey) list" where
  "map_entries from_str [] = []"
| "map_entries from_str ((k, u) # users) =
     (case from_str k of None \<Rightarrow> [] | Some key \<Rightarrow> map (\<lambda>ord. (ord, key)) (used_orders u)) @
     map_entries from_str users"

text \<open>The abstract book: the nodes of the entries that are classified to a place.\<close>

definition at_place :: "'h dlob_env \<Rightarrow> u64 \<Rightarrow> market_type \<Rightarrow> u16 \<Rightarrow> node_type \<Rightarrow> sub_type \<Rightarrow>
    order \<times> pubkey \<Rightarrow> bool" where
  "at_place E slot t i nt st = (\<lambda>(ord, key). o_market_type ord = t \<and> o_market_index ord = i \<and>
     get_node_subtype_and_type E ord slot = Inr (st, nt))"

definition entry_nodes :: "'h dlob_env \<Rightarrow> u64 \<Rightarrow> (order \<times> pubkey) list \<Rightarrow> market_type \<Rightarrow> u16 \<Rightarrow> node_type \<Rightarrow>
    sub_type \<Rightarrow> node multiset" where
  "entry_nodes E slot entries t i nt st =
     mset (map (\<lambda>(ord, key). create_node nt ord key) (filter (at_place E slot t i nt st) entries))"

definition entry_key :: "order \<times> pubkey \<Rightarrow> u32 \<times> pubkey" where
  "entry_key = (\<lambda>(ord, key). (o_order_id ord, key))"

definition entry_ends :: "order \<times> pubkey \<Rightarrow> bool" where
  "entry_ends e \<longleftrightarrow> uint (o_slot (fst e)) + uint (o_auction_duration (fst e)) < 2 ^ 64"

text \<open>A book that holds exactly the given entries.\<close>

definition book_of :: "'h dlob_env \<Rightarrow> u64 \<Rightarrow> (order \<times> pubkey) list \<Rightarrow> 'h dlob \<Rightarrow> bool" where
  "book_of E slot entries D \<longleftrightarrow>
     (\<forall>t i nt st. book_nodes E D t i nt st = entry_nodes E slot entries t i nt st) \<and>
     (\<forall>j v. dlob_get_order E j v D = map_option fst (find (\<lambda>e. entry_key e = (j, v)) entries))"

section \<open>Building in one loop\<close>

lemma foldE_filter:
  "foldE (\<lambda>s x. if P x then Inr s else f s x) s xs = foldE f s (filter (\<lambda>x. \<not> P x) xs)"
  by (induction xs arbitrary: s) auto

definition insert_entry :: "'h dlob_env \<Rightarrow> u64 \<Rightarrow> 'h dlob \<Rightarrow> order \<times> pubkey \<Rightarrow> 'h dlob res" where
  "insert_entry E slot D = (\<lambda>(ord, key). insert_order E ord key slot D)"

lemma build_entries:
  assumes "\<forall>k\<in>fst ` set users. from_str k \<noteq> None"
  shows "build_from_usermap E from_str users slot D =
    bindE (foldE (insert_entry E slot) (dlob_clear D) (map_entries from_str users))
      (\<lambda>D. Inr (D\<lparr>dl_initialized := True\<rparr>))"
proof -
  have "foldE (\<lambda>D (user_key, user).
        bindE (of_opt (Panic ''Valid pubkey'') (from_str user_key)) (\<lambda>user_pubkey.
        foldE (\<lambda>D order.
          if o_status order = order_status.Init then Inr D
          else insert_order E order user_pubkey slot D) D (u_orders user))) D users =
      foldE (insert_entry E slot) D (map_entries from_str users)" for D
    using assms
    by (induction users arbitrary: D)
      (auto simp: foldE_append foldE_filter foldE_map used_orders_def insert_entry_def)
  then show ?thesis by (simp add: build_from_usermap_def)
qed

lemma build_keys:
  assumes "build_from_usermap E from_str users slot D = Inr D'"
  shows "\<forall>k\<in>fst ` set users. from_str k \<noteq> None"
proof -
  have "foldE (\<lambda>D (user_key, user).
        bindE (of_opt (Panic ''Valid pubkey'') (from_str user_key)) (\<lambda>user_pubkey. f D user_pubkey user)) D users =
        Inr D1 \<Longrightarrow> \<forall>k\<in>fst ` set users. from_str k \<noteq> None" for f :: "'a dlob \<Rightarrow> pubkey \<Rightarrow> user \<Rightarrow> 'a dlob res" and D D1
    by (induction users arbitrary: D) (auto simp: returns)
  note keys = this
  from assms show ?thesis
    unfolding build_from_usermap_def bindE_Inr_iff by (elim exE conjE) (rule keys)
qed

section \<open>The loop refines the entries\<close>

context dlob_env
begin

lemma insert_entry_book:
  assumes "dlob_ok E D" and "dlob_closed E D" and "book_of E slot entries D"
    and "entry_key e \<notin> entry_key ` set entries" and "insert_entry E slot D e = Inr D'"
  shows "book_of E slot (entries @ [e]) D'"
proof -
  obtain ord key where e: "e = (ord, key)" by (cases e)
  have ins: "insert_order E ord key slot D = Inr D'" using assms(5) by (simp add: e insert_entry_def)
  have fresh: "dlob_get_order E (o_order_id ord) key D = None"
  proof -
    have "find (\<lambda>e'. entry_key e' = entry_key e) entries = None"
      using assms(4) unfolding find_None_iff by (metis image_eqI)
    with assms(3) show ?thesis by (simp add: book_of_def e entry_key_def)
  qed
  obtain st nt where c: "get_node_subtype_and_type E ord slot = Inr (st, nt)"
    using insert_order_Inr [OF ins] by blast
  have "book_nodes E D' t i nt' st' = entry_nodes E slot (entries @ [e]) t i nt' st'" for t i nt' st'
    using insert_order_book [OF assms(1,2) fresh c ins] assms(3) c
    by (auto simp: book_of_def entry_nodes_def at_place_def e)
  moreover have "dlob_get_order E j v D' =
      map_option fst (find (\<lambda>e. entry_key e = (j, v)) (entries @ [e]))" for j v
  proof -
    have "find (\<lambda>e. entry_key e = (j, v)) (entries @ [e]) =
        (case find (\<lambda>e. entry_key e = (j, v)) entries of
           None \<Rightarrow> if entry_key e = (j, v) then Some e else None | Some x \<Rightarrow> Some x)"
      by (induction entries) auto
    then show ?thesis
      using insert_get_order [OF fresh ins, of j v] assms(3) fresh
      by (auto simp: book_of_def e entry_key_def split: option.splits)
  qed
  ultimately show ?thesis by (simp add: book_of_def)
qed

lemma insert_entries_book:
  assumes "dlob_ok E D" and "dlob_closed E D" and "book_of E slot before D"
    and "distinct (map entry_key (before @ entries))"
    and "foldE (insert_entry E slot) D entries = Inr D'"
  shows "book_of E slot (before @ entries) D'"
  using assms
proof (induction entries arbitrary: D before)
  case (Cons e entries)
  from Cons.prems(5) obtain D1 where
    D1: "insert_entry E slot D e = Inr D1" "foldE (insert_entry E slot) D1 entries = Inr D'"
    by (auto simp: returns)
  have ok: "dlob_ok E D1" "dlob_closed E D1"
    using D1(1) insert_order_invariants [OF Cons.prems(1)] Cons.prems(2)
    by (auto simp: insert_entry_def split: prod.splits)
  have "book_of E slot (before @ [e]) D1"
    using Cons.prems(4) by (intro insert_entry_book [OF Cons.prems(1-3) _ D1(1)]) auto
  from Cons.IH [OF ok this _ D1(2)] Cons.prems(4) show ?case by simp
qed simp

lemma clear_book: "book_of E slot [] (dlob_clear D)"
  by (simp add: book_of_def entry_nodes_def book_nodes_def dlob_clear_def exchange_clear_def markets_of_def
      dlob_get_order_markets split: market_type.split)

lemma build_book:
  assumes "build_from_usermap E from_str users slot D = Inr D'"
    and "distinct (map entry_key (map_entries from_str users))"
  shows "book_of E slot (map_entries from_str users) D'"
proof -
  from assms(1) obtain D1 where
    D1: "foldE (insert_entry E slot) (dlob_clear D) (map_entries from_str users) = Inr D1"
    "D' = D1\<lparr>dl_initialized := True\<rparr>"
    by (auto simp: build_entries [OF build_keys [OF assms(1)]] returns)
  have "book_of E slot ([] @ map_entries from_str users) D1"
    using assms(2) by (intro insert_entries_book [OF dlob_clear_ok clear_book _ D1(1)]) simp
  then show ?thesis
    by (simp add: D1(2) book_of_def book_nodes_def dlob_get_order_def)
qed

end

lemma build_total:
  assumes "\<forall>k\<in>fst ` set users. from_str k \<noteq> None" and "list_all entry_ends (map_entries from_str users)"
  shows "\<exists>D'. build_from_usermap E from_str users slot D = Inr D'"
proof -
  have "\<exists>D'. foldE (insert_entry E slot) D entries = Inr D'" if "list_all entry_ends entries" for entries D
    using that
  proof (induction entries arbitrary: D)
    case (Cons e entries)
    then have "\<exists>D1. insert_entry E slot D e = Inr D1"
      using insert_order_defined [of "fst e" E "snd e" slot D]
      by (cases e) (simp add: entry_ends_def insert_entry_def)
    with Cons show ?case by auto
  qed simp
  from this [OF assms(2), of "dlob_clear D"] show ?thesis by (auto simp: build_entries [OF assms(1)])
qed

section \<open>The built book\<close>

text \<open>
  C3. Building a book from a user map succeeds if every key parses and every auction ends at a slot, and
  refines the users' orders: whatever the book was before, it then holds exactly the orders in use, each
  once, at the market, list and side of its classification at the slot, and looking up an order's id and
  owner finds that order; under any other id and owner nothing is found.
\<close>

theorem built_book_exact:
  assumes "dlob_env E" and "\<forall>k\<in>fst ` set users. from_str k \<noteq> None"
    and "list_all entry_ends (map_entries from_str users)"
    and "distinct (map entry_key (map_entries from_str users))"
  shows "\<exists>D'. build_from_usermap E from_str users slot D = Inr D' \<and>
    (\<forall>t i nt st. book_nodes E D' t i nt st = entry_nodes E slot (map_entries from_str users) t i nt st) \<and>
    (\<forall>j v. dlob_get_order E j v D' =
      map_option fst (find (\<lambda>e. entry_key e = (j, v)) (map_entries from_str users)))"
  using build_total [OF assms(2,3), of E slot D] dlob_env.build_book [OF assms(1) _ assms(4)]
  unfolding book_of_def by blast

theorem built_book_exact_witness:
  "\<exists>D'. build_from_usermap list_env (\<lambda>_. Some 7)
      [(''k'', sample_user\<lparr>u_orders := [sample_order, sample_order\<lparr>o_status := order_status.Init\<rparr>]\<rparr>)] 100 dlob_new =
      Inr D' \<and>
    book_nodes list_env D' market_type.Perp 0 node_type.TakingLimit sub_type.Bid =
      {#create_node node_type.TakingLimit sample_order 7#} \<and>
    dlob_get_order list_env 1 7 D' = Some sample_order \<and> dlob_get_order list_env 2 7 D' = None"
proof -
  let ?users = "[(''k'', sample_user\<lparr>u_orders := [sample_order, sample_order\<lparr>o_status := order_status.Init\<rparr>]\<rparr>)]"
  have s: "o_status sample_order \<noteq> order_status.Init" "o_market_type sample_order = market_type.Perp"
    "o_market_index sample_order = 0" "o_order_id sample_order = 1"
    by (simp_all add: sample_order_def)
  then have e: "map_entries (\<lambda>_. Some 7) ?users = [(sample_order, 7)]"
    by (simp add: used_orders_def)
  have k: "\<forall>k\<in>fst ` set ?users. (Some (7 :: pubkey)) \<noteq> None"
    and ends: "list_all entry_ends (map_entries (\<lambda>_. Some 7) ?users)"
    and d: "distinct (map entry_key (map_entries (\<lambda>_. Some 7) ?users))"
    unfolding e by (simp_all add: entry_ends_def sample_order_def)
  from built_book_exact [OF list_book.dlob_env_axioms k ends d, of 100 dlob_new] show ?thesis
    unfolding e by (auto simp: entry_nodes_def at_place_def entry_key_def s sample_classified)
qed

end
