(* ===== verification/Live_Book.thy ===== *)
theory Live_Book
  imports Live_Users Dlob_Builder Dlob_Building
begin

text \<open>
  The path of a user's orders from the node to the book: the websocket task for the program's accounts
  (\<open>src/src/websocket_program_account_subscriber.rs\<close>) emits updates, the user map's handler stores them
  (\<open>src/src/usermap.rs\<close>), and the builder's task makes a book of the map
  (\<open>src/src/dlob/dlob_builder.rs\<close>). The map's handler does not compare slots; that an older account never
  replaces a newer one rests on the order the task emits them in.
\<close>

section \<open>Updates for the map\<close>

text \<open>An entry of the map is the newest of its user, and a user without entry has not been seen.\<close>

definition newest_users :: "(u64 \<times> string \<times> user) list \<Rightarrow> (string \<Rightarrow> user option) \<Rightarrow> bool" where
  "newest_users seen users \<longleftrightarrow>
     (\<forall>k. case users k of
        None \<Rightarrow> \<forall>x\<in>set seen. fst (snd x) \<noteq> k
      | Some u \<Rightarrow> \<exists>slot. (slot, k, u) \<in> set seen \<and> (\<forall>x\<in>set seen. fst (snd x) = k \<longrightarrow> fst x \<le> slot))"

lemma live_users_newest:
  assumes "sorted (map fst xs)" and "um_usermap m = []"
  shows "newest_users xs (user_map_get (foldl user_update m (live_updates xs)))"
  unfolding newest_users_def
proof
  fix k
  show "case user_map_get (foldl user_update m (live_updates xs)) k of
      None \<Rightarrow> \<forall>x\<in>set xs. fst (snd x) \<noteq> k
    | Some u \<Rightarrow> \<exists>slot. (slot, k, u) \<in> set xs \<and> (\<forall>x\<in>set xs. fst (snd x) = k \<longrightarrow> fst x \<le> slot)"
    using folded_newest [OF assms(1), of k m] assms(2)
    by (auto simp: newest_user_def user_map_get_def [of m] split: option.splits if_splits)
qed

section \<open>The entries of the map\<close>

lemma user_updates_distinct:
  "distinct (map fst (um_usermap m)) \<Longrightarrow> distinct (map fst (um_usermap (foldl user_update m us)))"
  by (induction us arbitrary: m) (simp_all add: user_update_def notify_def Let_def distinct_update)

lemma map_entries_owner:
  "e \<in> set (map_entries from_str users) \<Longrightarrow> \<exists>(k, u)\<in>set users. from_str k = Some (snd e) \<and> fst e \<in> set (used_orders u)"
  by (induction from_str users rule: map_entries.induct) (auto split: option.splits)

lemma map_entries_distinct:
  assumes "distinct (map fst users)" and "\<forall>(k, u)\<in>set users. distinct (map o_order_id (used_orders u))"
    and "inj_on from_str {k. from_str k \<noteq> None}"
  shows "distinct (map entry_key (map_entries from_str users))"
  using assms(1,2)
proof (induction users)
  case (Cons x users)
  obtain k u where x: "x = (k, u)" by (cases x)
  show ?case
  proof (cases "from_str k")
    case (Some key)
    have "snd e \<noteq> key" if "e \<in> set (map_entries from_str users)" for e
    proof
      assume "snd e = key"
      with map_entries_owner [OF that] obtain k' u' where "(k', u') \<in> set users" "from_str k' = Some key" by auto
      moreover from this Some have "k' = k" by (intro inj_onD [OF assms(3)]) simp_all
      ultimately show False using Cons.prems(1) by (force simp: x)
    qed
    then have "entry_key ` set (map (\<lambda>ord. (ord, key)) (used_orders u)) \<inter> entry_key ` set (map_entries from_str users) = {}"
      by (fastforce simp: entry_key_def)
    moreover have "distinct (map entry_key (map (\<lambda>ord. (ord, key)) (used_orders u)))"
      using Cons.prems(2) by (simp add: x entry_key_def comp_def distinct_map inj_on_def)
    ultimately show ?thesis using Cons by (simp add: x Some image_image)
  qed (use Cons in \<open>simp add: x\<close>)
qed simp

section \<open>The published book\<close>

text \<open>
  C4. However slots and users arrive in between, after a turn of its task the builder has published a book
  that holds, classified at the newest slot, exactly the orders in use of the newest account of every user
  that the websocket task has decoded on its connections: of no other user, and of no older account. The
  order ids of one account are distinct, and no two texts parse to the same key.
\<close>

theorem live_book_of_newest_users:
  assumes "dlob_env E" and "ws_run (program_ws decode) messages t" and "um_usermap (bl_usermap b) = []"
    and "List.map_filter user_of_input inputs = live_updates (wt_emitted t)"
    and "builder_task E from_str b (inputs @ [Turn]) = Inr (b', sent)"
    and "inj_on from_str {k. from_str k \<noteq> None}"
    and "\<forall>(_, _, u)\<in>set (wt_emitted t). distinct (map o_order_id (used_orders u))"
  shows "\<exists>users. distinct (map fst users) \<and> newest_users (wt_emitted t) (map_of users) \<and>
    book_of E (fold max (List.map_filter slot_of_input inputs) (ss_current_slot (bl_slot_subscriber b)))
      (map_entries from_str users) (get_dlob b') \<and>
    dlob_ok E (get_dlob b') \<and> dlob_closed E (get_dlob b') \<and>
    (\<exists>before. sent = before @ emitter_emit ''dlob_update'' (get_dlob b') (bl_event_emitter b))"
proof -
  obtain b1 sent1 where run: "foldE (builder_step E from_str) (b, []) inputs = Inr (b1, sent1)"
    and turn: "builder_step E from_str (b1, sent1) Turn = Inr (b', sent)"
    using assms(5) by (auto simp: builder_task_def foldE_append returns simp del: builder_step.simps)
  note * = builder_inputs [OF run] and turned = builder_turn [OF turn]
  let ?users = "um_usermap (bl_usermap b1)"
  have "sorted (map fst (wt_emitted t))"
    using run_in_order [OF assms(2)] by (simp add: emits_in_order_def)
  from live_users_newest [OF this assms(3)]
  have newest: "newest_users (wt_emitted t) (map_of ?users)"
    using * assms(4) by (simp add: user_map_get_def [abs_def])
  have d: "distinct (map fst ?users)"
    using user_updates_distinct [of "bl_usermap b" "List.map_filter user_of_input inputs"] *(1) assms(3) by simp
  have "distinct (map o_order_id (used_orders u))" if "(k, u) \<in> set ?users" for k u
  proof -
    have "map_of ?users k = Some u" using that d by simp
    then obtain slot where "(slot, k, u) \<in> set (wt_emitted t)"
      using newest [unfolded newest_users_def, rule_format, of k] by auto
    from bspec [OF assms(7) this] show ?thesis by simp
  qed
  then have "distinct (map entry_key (map_entries from_str ?users))"
    using assms(6) by (intro map_entries_distinct [OF d]) auto
  note book = dlob_env.build_book [OF assms(1) _ this] dlob_env.build_invariants [OF assms(1)]
  have build: "build_from_usermap E from_str ?users
      (fold max (List.map_filter slot_of_input inputs) (ss_current_slot (bl_slot_subscriber b)))
      (bl_dlob b1) = Inr (get_dlob b')"
    and sent: "sent = sent1 @ emitter_emit ''dlob_update'' (get_dlob b') (bl_event_emitter b)"
    using * turned by (simp_all add: get_dlob_def SUBSCRIPTION_ID_def)
  show ?thesis
    by (rule exI [of _ ?users]) (use book [OF build] newest d sent in \<open>simp add: exI [of _ sent1]\<close>)
qed

definition sample_update :: "string \<times> user" where
  "sample_update = (''k'', sample_user\<lparr>u_orders := [sample_order]\<rparr>)"

lemma sample_feed:
  "\<exists>t. ws_run (program_ws Some) [SubscribeOk, Message 5 sample_update] t \<and> wt_emitted t = [(5, sample_update)]"
proof -
  let ?W = "program_ws Some :: (string \<times> user, string \<times> user) ws_config"
  let ?s = "ws_task_new\<lparr>wt_phase := Streaming, wt_attempt := 0\<rparr> :: (string \<times> user) ws_task"
  have "ws_run ?W ([] @ [SubscribeOk]) ?s"
    by (rule ws_run.more [OF ws_run.start ws_step.subscribe_ok]) (simp add: ws_task_new_def)
  from ws_run.more [OF this ws_step.message]
  have "ws_run ?W [SubscribeOk, Message 5 sample_update] (ws_message ?W ?s (5, sample_update))" by simp
  then show ?thesis
    by (intro exI [of _ "ws_message ?W ?s (5, sample_update)"])
      (simp add: ws_message_def ws_task_new_def program_ws_def)
qed

definition sample_parse :: "string \<Rightarrow> pubkey option" where
  "sample_parse k = (if k = ''k'' then Some 7 else None)"

theorem live_book_of_newest_users_witness:
  "\<exists>t b' sent. ws_run (program_ws Some) [SubscribeOk, Message 5 sample_update] t \<and>
     builder_task list_env sample_parse sample_dlob_builder
       [UserArrives \<lparr>uu_pubkey = ''k'', uu_data_and_slot = \<lparr>das_slot = 5, das_data = snd sample_update\<rparr>\<rparr>,
        SlotArrives 100, Turn] = Inr (b', sent) \<and>
     book_nodes list_env (get_dlob b') market_type.Perp 0 node_type.TakingLimit sub_type.Bid =
       {#create_node node_type.TakingLimit sample_order 7#}"
proof -
  let ?inputs = "[UserArrives \<lparr>uu_pubkey = ''k'', uu_data_and_slot = \<lparr>das_slot = 5,
    das_data = snd sample_update\<rparr>\<rparr>, SlotArrives 100]"
  obtain t where t: "ws_run (program_ws Some) [SubscribeOk, Message 5 sample_update] t"
    "wt_emitted t = [(5, sample_update)]"
    using sample_feed by (elim exE conjE)
  obtain D' where D': "insert_order list_env sample_order 7 100 (dlob_clear dlob_new) = Inr D'"
    using insert_order_defined [of sample_order list_env 7 100 "dlob_clear dlob_new"]
    by (auto simp: sample_order_def)
  then have "build_from_usermap list_env sample_parse [(''k'', snd sample_update)] 100 dlob_new =
      Inr (D'\<lparr>dl_initialized := True\<rparr>)"
    by (simp add: build_from_usermap_def sample_update_def sample_order_def sample_parse_def)
  then obtain b' sent where run: "builder_task list_env sample_parse sample_dlob_builder (?inputs @ [Turn]) = Inr (b', sent)"
    by (auto simp: builder_task_def sample_dlob_builder_def dlob_builder_new_def builder_build_def
        slot_message_def slot_subscriber_new_def user_update_def notify_def empty_user_map_def Let_def)
  have u: "um_usermap (bl_usermap sample_dlob_builder) = []"
    and slot: "ss_current_slot (bl_slot_subscriber sample_dlob_builder) = 0"
    by (simp_all add: sample_dlob_builder_def dlob_builder_new_def empty_user_map_def slot_subscriber_new_def)
  have i: "List.map_filter user_of_input ?inputs = live_updates (wt_emitted t)"
    by (simp add: t(2) map_filter_simps sample_update_def)
  have p: "inj_on sample_parse {k. sample_parse k \<noteq> None}"
    by (simp add: sample_parse_def inj_on_def split: if_splits)
  have "used_orders (snd sample_update) = [sample_order]"
    by (simp add: used_orders_def sample_update_def) (simp add: sample_order_def)
  note used = this
  then have "\<forall>(_, _, u)\<in>set (wt_emitted t). distinct (map o_order_id (used_orders u))"
    by (simp add: t(2) case_prod_beta)
  note live = live_book_of_newest_users [OF list_book.dlob_env_axioms t(1) u i run p this]
  have "fold max (List.map_filter slot_of_input ?inputs) (ss_current_slot (bl_slot_subscriber sample_dlob_builder)) = 100"
    by (simp add: map_filter_simps slot)
  from live [unfolded this t(2)] obtain users where
    users: "distinct (map fst users)" "newest_users [(5, sample_update)] (map_of users)"
    "book_of list_env 100 (map_entries sample_parse users) (get_dlob b')"
    by (elim exE conjE)
  have k: "map_of users k = (if k = ''k'' then Some (snd sample_update) else None)" for k
    using users(2) [unfolded newest_users_def, rule_format, of k]
    by (cases "map_of users k") (auto simp: sample_update_def)
  then have "map_of users = map_of [(''k'', snd sample_update)]" by (intro ext) simp
  then have "set users = set [(''k'', snd sample_update)]"
    using users(1) by (subst (asm) map_of_inject_set) simp_all
  then have "users = [(''k'', snd sample_update)]"
    using users(1) by (cases users; cases "tl users") (auto simp: image_iff)
  with used have "map_entries sample_parse users = [(sample_order, 7)]" by (simp add: sample_parse_def)
  then have "book_nodes list_env (get_dlob b') market_type.Perp 0 node_type.TakingLimit sub_type.Bid =
      {#create_node node_type.TakingLimit sample_order 7#}"
    using users(3) sample_classified
    by (simp add: book_of_def entry_nodes_def at_place_def) (simp add: sample_order_def)
  with t run show ?thesis by (intro exI conjI) (assumption, simp_all)
qed

end
