(* ===== verification/Account_Stream.thy ===== *)
theory Account_Stream
  imports Client
begin

text \<open>
  The subscription behind the websocket account provider, \<open>AccountSubscription::stream_fn\<close> in
  \<open>src/src/lib.rs\<close>, with the retries of \<open>spawn_retry_task\<close>: a task for every account that has been read
  once. It connects, subscribes, writes updates and polled answers to the provider's cache, and starts
  again five seconds after its connection broke. A panic ends it for good, and nobody is told.
\<close>

section \<open>The task\<close>

fun replace_http :: "string \<Rightarrow> string" where
  "replace_http [] = []"
| "replace_http (c # s) = (if take 4 (c # s) = ''http'' then ''ws'' @ replace_http (drop 3 s) else c # replace_http s)"

definition stream_url :: "ws_account_provider \<Rightarrow> string" where
  "stream_url s = replace_http (wp_url s)"

datatype stream_phase = Opening | Listening | Delayed | Died string

record account_task =
  at_phase :: stream_phase
  at_attempts :: u32

definition account_task_new :: account_task where
  "account_task_new = \<lparr>at_phase = Opening, at_attempts = 0\<rparr>"

text \<open>
  What reaches the task. The account of an update is \<open>None\<close> if it cannot be decoded, the one of a polled
  answer if the account does not exist any more.
\<close>

datatype account_input =
    OpenFails
  | Opened
  | Update u64 "account option"
  | Closed
  | PollFails
  | Polled u64 "account option"
  | DelayOver

definition cached_slot :: "pubkey \<Rightarrow> ws_account_provider \<Rightarrow> u64 option" where
  "cached_slot k s = map_option snd (map_of (wp_account_cache s) k)"

definition stream_update :: "pubkey \<Rightarrow> u64 \<Rightarrow> account option \<Rightarrow> ws_account_provider \<times> account_task \<Rightarrow>
    ws_account_provider \<times> account_task" where
  "stream_update k slot update = (\<lambda>(s, t).
     case update of
       None \<Rightarrow> (s, t\<lparr>at_phase := Died ''account''\<rparr>)
     | Some account_data \<Rightarrow> (account_stream_update k account_data slot s, t))"

definition poll_update :: "pubkey \<Rightarrow> u64 \<Rightarrow> account option \<Rightarrow> ws_account_provider \<times> account_task \<Rightarrow>
    ws_account_provider \<times> account_task" where
  "poll_update k slot polled = (\<lambda>(s, t).
     case cached_slot k s of
       None \<Rightarrow> (s, t)
     | Some current \<Rightarrow>
         if current < slot then
           (case polled of
              None \<Rightarrow> (s, t\<lparr>at_phase := Died ''called `Option::unwrap()` on a `None` value''\<rparr>)
            | Some account_data \<Rightarrow> (account_stream_update k account_data slot s, t))
         else (s, t))"

definition next_attempt :: "account_task \<Rightarrow> account_task" where
  "next_attempt t =
     (case (uadd (at_attempts t) 1 :: u32 res) of
        Inl _ \<Rightarrow> t\<lparr>at_phase := Died ''arithmetic overflow''\<rparr>
      | Inr n \<Rightarrow> t\<lparr>at_phase := Opening, at_attempts := n\<rparr>)"

inductive account_step :: "pubkey \<Rightarrow> ws_account_provider \<times> account_task \<Rightarrow> account_input \<Rightarrow>
    ws_account_provider \<times> account_task \<Rightarrow> bool" for k where
  open_fails: "at_phase t = Opening \<Longrightarrow> account_step k (s, t) OpenFails (s, t\<lparr>at_phase := Delayed\<rparr>)"
| opened: "at_phase t = Opening \<Longrightarrow> account_step k (s, t) Opened (s, t\<lparr>at_phase := Listening\<rparr>)"
| update: "at_phase t = Listening \<Longrightarrow>
    account_step k (s, t) (Update slot a) (stream_update k slot a (s, t))"
| closed: "at_phase t = Listening \<Longrightarrow> account_step k (s, t) Closed (s, t\<lparr>at_phase := Delayed\<rparr>)"
| poll_fails: "at_phase t = Listening \<Longrightarrow> account_step k (s, t) PollFails (s, t)"
| polled: "at_phase t = Listening \<Longrightarrow> account_step k (s, t) (Polled slot a) (poll_update k slot a (s, t))"
| delay_over: "at_phase t = Delayed \<Longrightarrow> account_step k (s, t) DelayOver (s, next_attempt t)"

inductive_cases account_step_cases: "account_step k (s, t) i u"
inductive_simps account_dead_step: "account_step k (s, t\<lparr>at_phase := Died msg\<rparr>) i u"

text \<open>A run, with the inputs the task has handled.\<close>

inductive account_run :: "pubkey \<Rightarrow> ws_account_provider \<times> account_task \<Rightarrow> account_input list \<Rightarrow>
    ws_account_provider \<times> account_task \<Rightarrow> bool" for k c where
  start: "account_run k c [] c"
| more: "account_run k c inputs d \<Longrightarrow> account_step k d i e \<Longrightarrow> account_run k c (inputs @ [i]) e"

section \<open>What the cache holds\<close>

fun seen_account :: "account_input \<Rightarrow> (account \<times> u64) option" where
  "seen_account (Update slot (Some a)) = Some (a, slot)"
| "seen_account (Polled slot (Some a)) = Some (a, slot)"
| "seen_account _ = None"

lemma account_step_cache:
  assumes "account_step k (s, t) i (s', t')" and "map_of (wp_account_cache s) k = Some c"
  shows "map_of (wp_account_cache s') k =
    Some (case seen_account i of Some u \<Rightarrow> if snd c < snd u then u else c | None \<Rightarrow> c)"
  using assms
  by (cases rule: account_step_cases)
    (auto simp: stream_update_def poll_update_def cached_slot_def account_stream_update_def update_conv'
      split: option.splits if_splits)

lemma account_run_cache:
  assumes "account_run k (s, t) inputs (s', t')" and "map_of (wp_account_cache s) k = Some c"
  shows "map_of (wp_account_cache s') k = Some (newest c (List.map_filter seen_account inputs))"
proof -
  have "account_run k d inputs e \<Longrightarrow> map_of (wp_account_cache (fst d)) k = Some c \<Longrightarrow>
      map_of (wp_account_cache (fst e)) k = Some (newest c (List.map_filter seen_account inputs))" for d e
  proof (induction rule: account_run.induct)
    case start
    then show ?case by (simp add: map_filter_simps newest_def)
  next
    case (more inputs d i e)
    then show ?case
      using account_step_cache [of k "fst d" "snd d" i "fst e" "snd e"]
      by (simp add: map_filter_def newest_def split: option.splits)
  qed
  from this [OF assms(1)] assms(2) show ?thesis by simp
qed

lemma account_dead_run:
  assumes "account_run k (s, t) inputs d" and "at_phase t = Died msg"
  shows "inputs = [] \<and> d = (s, t)"
  using assms(1)
proof (induction rule: account_run.induct)
  case (more inputs d i e)
  then show ?case using assms(2) by (auto elim: account_step.cases)
qed simp

section \<open>Properties\<close>

text \<open>
  C19. After the first read of an account the websocket provider answers every read from its cache, over
  every run of the account's task with its reconnections: with the account of the newest slot among the
  fetched one, which counts as slot 0, and all updates and polled answers, in whatever order they arrived.
\<close>

theorem provider_serves_newest:
  assumes "map_of (wp_account_cache s) k = None" and "ws_get_account fetched k s = (s1, Inr a)"
    and "account_run k (s1, account_task_new) inputs (s2, t)"
  shows "\<exists>c. ws_get_account fetched' k s2 = (s2, Inr (fst c)) \<and>
    c \<in> set ((a, 0) # List.map_filter seen_account inputs) \<and>
    snd c = fold max (map snd (List.map_filter seen_account inputs)) 0"
proof -
  have "map_of (wp_account_cache s1) k = Some (a, 0)"
    using assms(1,2) by (auto simp: ws_get_account_def update_conv' split: sum.splits)
  from account_run_cache [OF assms(3) this] have
    "ws_get_account fetched' k s2 = (s2, Inr (fst (newest (a, 0) (List.map_filter seen_account inputs))))"
    by (simp add: ws_get_account_def split: prod.split)
  with newest_slot [of "(a, 0)" "List.map_filter seen_account inputs"] show ?thesis
    by (intro exI [of _ "newest (a, 0) (List.map_filter seen_account inputs)"]) simp
qed

text \<open>
  C36. Once a poll newer than the cache has found the account gone the task is dead: nothing reaches the
  cache any more, and every read is answered, without an error, with the account as it was before it was
  closed.
\<close>

theorem closed_account_still_served:
  assumes "account_run k (s, t) inputs (s1, t1)" and "at_phase t1 = Listening"
    and "map_of (wp_account_cache s) k = Some c"
    and "\<forall>u\<in>set (c # List.map_filter seen_account inputs). snd u < slot"
    and "account_step k (s1, t1) (Polled slot None) (s2, t2)" and "account_run k (s2, t2) later (s3, t3)"
  shows "later = [] \<and> ws_get_account fetched k s3 =
    (s3, Inr (fst (newest c (List.map_filter seen_account inputs))))"
proof -
  let ?c = "newest c (List.map_filter seen_account inputs)"
  have cache: "map_of (wp_account_cache s1) k = Some ?c"
    using account_run_cache [OF assms(1,3)] .
  moreover have "snd ?c < slot"
    using newest_slot [of c "List.map_filter seen_account inputs"] assms(4) by blast
  ultimately have "s2 = s1" "at_phase t2 = Died ''called `Option::unwrap()` on a `None` value''"
    using assms(5) by (auto simp: poll_update_def cached_slot_def elim: account_step_cases)
  with account_dead_run [OF assms(6)] cache show ?thesis
    by (auto simp: ws_get_account_def split: prod.split)
qed

definition sample_account :: account where
  "sample_account = \<lparr>ac_data = [1], ac_owner = 2\<rparr>"

definition sample_provider :: ws_account_provider where
  "sample_provider = fst (ws_get_account (\<lambda>_. Inr sample_account) 7 (ws_account_provider_new ''http://x''))"

lemma sample_provider_read:
  "ws_get_account (\<lambda>_. Inr sample_account) 7 (ws_account_provider_new ''http://x'') =
    (sample_provider, Inr sample_account)"
  "map_of (wp_account_cache sample_provider) 7 = Some (sample_account, 0)"
  by (simp_all add: sample_provider_def ws_get_account_def ws_account_provider_new_def)

lemma sample_run:
  "account_run 7 (sample_provider, account_task_new) [Opened, Update 5 (Some \<lparr>ac_data = [3], ac_owner = 2\<rparr>)]
    (account_stream_update 7 \<lparr>ac_data = [3], ac_owner = 2\<rparr> 5 sample_provider,
     account_task_new\<lparr>at_phase := Listening\<rparr>)"
proof -
  let ?t = "account_task_new\<lparr>at_phase := Listening\<rparr>" and ?a = "\<lparr>ac_data = [3], ac_owner = 2\<rparr>"
  have "account_run 7 (sample_provider, account_task_new) ([] @ [Opened]) (sample_provider, ?t)"
    by (intro account_run.more [OF account_run.start] account_step.opened) (simp add: account_task_new_def)
  from account_run.more [OF this account_step.update [of ?t 7 sample_provider 5 "Some ?a"]] show ?thesis
    by (simp add: stream_update_def)
qed

theorem provider_serves_newest_witness:
  "\<exists>s t. account_run 7 (sample_provider, account_task_new)
      [Opened, Update 5 (Some \<lparr>ac_data = [3], ac_owner = 2\<rparr>)] (s, t) \<and>
    ws_get_account (\<lambda>_. Inl InvalidAccount) 7 s = (s, Inr \<lparr>ac_data = [3], ac_owner = 2\<rparr>)"
proof -
  have "map_of (wp_account_cache (ws_account_provider_new ''http://x'')) 7 = None"
    by (simp add: ws_account_provider_new_def)
  from provider_serves_newest [OF this sample_provider_read(1) sample_run, of "\<lambda>_. Inl InvalidAccount"]
  show ?thesis using sample_run by (auto simp: map_filter_simps)
qed

theorem closed_account_still_served_witness:
  "\<exists>s t. account_step 7 (account_stream_update 7 \<lparr>ac_data = [3], ac_owner = 2\<rparr> 5 sample_provider,
      account_task_new\<lparr>at_phase := Listening\<rparr>) (Polled 9 None) (s, t) \<and>
    ws_get_account (\<lambda>_. Inl InvalidAccount) 7 s = (s, Inr \<lparr>ac_data = [3], ac_owner = 2\<rparr>)"
proof -
  let ?s = "account_stream_update 7 \<lparr>ac_data = [3], ac_owner = 2\<rparr> 5 sample_provider"
    and ?t = "account_task_new\<lparr>at_phase := Listening\<rparr>"
  obtain s t where "poll_update 7 9 None (?s, ?t) = (s, t)" by (cases "poll_update 7 9 None (?s, ?t)")
  with account_step.polled [of ?t 7 ?s 9 None] have step: "account_step 7 (?s, ?t) (Polled 9 None) (s, t)"
    by simp
  have "\<forall>u\<in>set ((sample_account, 0) # List.map_filter seen_account
      [Opened, Update 5 (Some \<lparr>ac_data = [3], ac_owner = 2\<rparr>)]). snd u < (9 :: u64)"
    by (simp add: map_filter_simps)
  with closed_account_still_served [OF sample_run _ sample_provider_read(2) _ step account_run.start,
      of "\<lambda>_. Inl InvalidAccount"]
  have "ws_get_account (\<lambda>_. Inl InvalidAccount) 7 s = (s, Inr \<lparr>ac_data = [3], ac_owner = 2\<rparr>)"
    by (simp add: map_filter_simps newest_def)
  with step show ?thesis by blast
qed

end
