(* ===== verification/Auction_Price.thy ===== *)
theory Auction_Price
  imports Complex_Main Order_Math
begin

text \<open>
  The auction price of \<open>src/src/math/auction.rs\<close> against the linear interpolation an auction is meant to do,
  stated over the reals and apart from the code's own expression.
\<close>

text \<open>
  What an auction is meant to do: the price moves from the start price to the end price in proportion to
  the part of the auction that has passed, relative to the oracle price for an oracle order.
\<close>

definition auction_progress :: "order \<Rightarrow> u64 \<Rightarrow> real" where
  "auction_progress order slot =
     min 1 (real_of_int (uint slot - uint (o_slot order)) / real_of_int (uint (o_auction_duration order)))"

definition linear_price :: "order \<Rightarrow> u64 \<Rightarrow> real" where
  "linear_price order slot = real_of_int (sint (o_auction_start_price order)) +
     (real_of_int (sint (o_auction_end_price order)) - real_of_int (sint (o_auction_start_price order))) *
       auction_progress order slot"

definition auction_base :: "order \<Rightarrow> i64 \<Rightarrow> int" where
  "auction_base order price = (if o_order_type order = order_type.Oracle then sint price else 0)"

lemma div_close: "0 < d \<Longrightarrow> 0 \<le> real_of_int x / real_of_int d - real_of_int (x div d) \<and>
    real_of_int x / real_of_int d - real_of_int (x div d) < 1" for x d :: int
  unfolding floor_divide_of_int_eq [where 'a = real, symmetric] by linarith

lemma sdiv_close:
  assumes "0 < d"
  shows "\<bar>real_of_int (x sdiv d) - real_of_int x / real_of_int d\<bar> < 1"
proof (cases "0 \<le> x")
  case True
  then have "x sdiv d = x div d" using assms by (cases "x = 0") (simp_all add: signed_divide_int_def)
  with div_close [OF assms, of x] show ?thesis by simp
next
  case False
  then have "x sdiv d = - ((- x) div d)" using assms by (simp add: signed_divide_int_def)
  with div_close [OF assms, of "- x"] show ?thesis by simp
qed

lemma min_fraction: "0 < d \<Longrightarrow> real_of_int (min k d) = min 1 (real_of_int k / real_of_int d) * real_of_int d" for k d :: int
  by (simp add: min_def field_simps)

lemma duration_pos: "o_auction_duration order \<noteq> 0 \<Longrightarrow> 0 < uint (o_auction_duration order)"
  using u8_range(1) [of "o_auction_duration order"] by (simp add: unsigned_eq_0_iff order_less_le)

text \<open>The quotient the source takes is the price times the progress, up to rounding.\<close>

lemma progress_quotient:
  assumes "o_auction_duration order \<noteq> 0"
  shows "\<bar>real_of_int ((x * min (uint slot - uint (o_slot order)) (uint (o_auction_duration order)))
      sdiv uint (o_auction_duration order)) - real_of_int x * auction_progress order slot\<bar> < 1"
proof -
  have p: "real_of_int (x * min k d) / real_of_int d = real_of_int x * min 1 (real_of_int k / real_of_int d)"
    if "0 < d" for k d :: int
    unfolding of_int_mult min_fraction [OF that] using that by simp
  show ?thesis
    using sdiv_close [OF duration_pos [OF assms]] unfolding auction_progress_def p [OF duration_pos [OF assms], symmetric] .
qed

text \<open>
  C33. From its slot on the price of an order with an auction is defined: no step of the computation overflows
  or divides by zero, whatever the prices of the order. From the end of the auction on it is the end price, to
  the unit. Before, it is not the linear interpolation: up to rounding by less than one unit it lies beside it by
  the end price for a long order, and by minus the start price for a short one, times the part of the auction
  that is left.
\<close>

theorem auction_price_deviation:
  assumes "o_auction_duration order \<noteq> 0" and "uint slot < 2 ^ 63" and "o_slot order \<le> slot"
  shows "\<exists>p. get_auction_price order slot price = Inr (auction_base order price + p) \<and>
    (uint (o_slot order) + uint (o_auction_duration order) \<le> uint slot \<longrightarrow>
       p = sint (o_auction_end_price order)) \<and>
    \<bar>real_of_int p - (linear_price order slot + (1 - auction_progress order slot) *
       (case o_direction order of Long \<Rightarrow> real_of_int (sint (o_auction_end_price order))
        | Short \<Rightarrow> - real_of_int (sint (o_auction_start_price order))))\<bar> < 1"
proof -
  let ?d = "uint (o_auction_duration order)" and ?p = "source_price order
    (min (uint slot - uint (o_slot order)) (uint (o_auction_duration order)))"
  have eq: "get_auction_price order slot price = Inr (auction_base order price + ?p)"
    using assms(1) by (simp add: auction_price_eq [OF assms(2,3)] auction_base_def)
  have over: "?p = sint (o_auction_end_price order)" if "uint (o_slot order) + ?d \<le> uint slot"
    using auction_price_at_end [OF assms(1,2) that, of price] eq by (simp add: auction_base_def)
  have "\<bar>real_of_int ?p - (linear_price order slot + (1 - auction_progress order slot) *
       (case o_direction order of Long \<Rightarrow> real_of_int (sint (o_auction_end_price order))
        | Short \<Rightarrow> - real_of_int (sint (o_auction_start_price order))))\<bar> < 1"
    using progress_quotient [OF assms(1), of "sint (o_auction_start_price order)" slot]
      progress_quotient [OF assms(1), of "sint (o_auction_end_price order)" slot]
    by (cases "o_direction order") (simp_all add: source_price_def linear_price_def Let_def algebra_simps abs_minus_commute)
  with eq over show ?thesis by blast
qed

theorem auction_price_deviation_witness:
  "get_auction_price sample_order 105 7 = Inr 155 \<and> linear_price sample_order 105 = 100 \<and>
   (1 - auction_progress sample_order 105) * real_of_int (sint (o_auction_end_price sample_order)) = 55"
proof -
  obtain p where "get_auction_price sample_order 105 7 = Inr p" "\<bar>real_of_int p - 155\<bar> < 1"
    using auction_price_deviation [of sample_order 105 7]
    by (auto simp: sample_order_def linear_price_def auction_progress_def auction_base_def)
  moreover from this(2) have "p = 155" by linarith
  ultimately show ?thesis by (simp add: sample_order_def linear_price_def auction_progress_def)
qed

end
