(* ===== verification/Live_Markets.thy ===== *)
theory Live_Markets
  imports Subscriptions
begin

text \<open>
  The life of a market map (\<open>src/src/marketmap.rs\<close>) with its tasks and handler threads: what it serves
  while it is subscribed once, where its entries come from over any sequence of subscriptions, and what
  subscribing a second time can break.
\<close>

section \<open>Steps\<close>

datatype ('m, 'a) map_event =
    Flows "'m delivery_event"
  | Subscribes "sdk_error + 'a response"
  | Unsubscribes

definition market_handler :: "'m market_kind \<Rightarrow> 'm market_map \<Rightarrow> u64 \<times> 'm \<Rightarrow> 'm market_map" where
  "market_handler K s = (\<lambda>(slot, m). market_update K s \<lparr>das_slot = slot, das_data = m\<rparr>)"

text \<open>
  Subscribing synchronizes the map, lets the subscriber spawn its task and registers a handler, whether
  or not one is there from before. Unsubscribing sends the signal. Both are one step: the task a subscription
  spawns first connects to the node over the network, so nothing is emitted before the handler is there unless
  that round trip is faster than the next statement of \<open>subscribe\<close>.
\<close>

inductive map_step :: "'m market_kind \<Rightarrow> ('a \<Rightarrow> sdk_error + 'm) \<Rightarrow> ('r \<Rightarrow> 'm option) \<Rightarrow>
    ('m, 'm market_map) delivery \<Rightarrow> ('r, 'a) map_event \<Rightarrow> ('m, 'm market_map) delivery \<Rightarrow> bool"
  for K decode ws_decode where
  flows: "deliver (\<lambda>_. program_ws ws_decode) (market_handler K) c e c' \<Longrightarrow>
    map_step K decode ws_decode c (Flows e) c'"
| subscribe_fails: "market_map_subscribe K decode False response (dv_store c) = Inr (m, Some e) \<Longrightarrow>
    map_step K decode ws_decode c (Subscribes response) (c\<lparr>dv_store := m\<rparr>)"
| subscribes: "market_map_subscribe K decode False response (dv_store c) = Inr (m, None) \<Longrightarrow>
    map_step K decode ws_decode c (Subscribes response)
      (if mm_subscribed (dv_store c) then c\<lparr>dv_store := m\<rparr>
       else c\<lparr>dv_store := m,
         dv_tasks := (if snd (program_subscribe (mm_subscription (dv_store c))) \<noteq> None then spawn (dv_tasks c) else dv_tasks c),
         dv_queues := dv_queues c @ [[]]\<rparr>)"
| unsubscribes: "market_map_unsubscribe (receiver_alive (dv_tasks c)) (dv_store c) = (m, e) \<Longrightarrow>
    map_step K decode ws_decode c Unsubscribes
      (c\<lparr>dv_store := m,
         dv_tasks := (if mm_subscribed (dv_store c) \<and> e = None then send_signal (dv_tasks c) else dv_tasks c)\<rparr>)"

inductive map_run :: "'m market_kind \<Rightarrow> ('a \<Rightarrow> sdk_error + 'm) \<Rightarrow> ('r \<Rightarrow> 'm option) \<Rightarrow> 'm market_map \<Rightarrow>
    ('r, 'a) map_event list \<Rightarrow> ('m, 'm market_map) delivery \<Rightarrow> bool" for K decode ws_decode m0 where
  idle: "map_run K decode ws_decode m0 [] \<lparr>dv_tasks = [], dv_queues = [], dv_store = m0\<rparr>"
| runs: "map_run K decode ws_decode m0 events c \<Longrightarrow> map_step K decode ws_decode c e c' \<Longrightarrow>
    map_run K decode ws_decode m0 (events @ [e]) c'"

inductive_cases map_step_flowE: "map_step K decode ws_decode c (Flows e) c'"
inductive_cases map_step_subscribeE: "map_step K decode ws_decode c (Subscribes response) c'"
inductive_cases map_run_nilE: "map_run K decode ws_decode m0 [] c"

section \<open>What subscribing changes\<close>

lemma market_sync_fields:
  "market_sync_accounts K decode slot accounts s = (s', e) \<Longrightarrow>
    mm_subscribed s' = mm_subscribed s \<and> mm_subscription s' = mm_subscription s"
  by (induction K decode slot accounts s rule: market_sync_accounts.induct) (auto split: sum.splits)

lemma map_sync_fields:
  "market_map_sync K decode locked response s = Inr (s', e) \<Longrightarrow>
    mm_subscribed s' = mm_subscribed s \<and> mm_subscription s' = mm_subscription s"
  by (auto simp: market_map_sync_def returns split: if_splits option.splits sum.splits prod.splits
      dest: market_sync_fields)

lemma map_subscribe_error:
  "market_map_subscribe K decode locked response s = Inr (s', Some e) \<Longrightarrow>
    mm_subscribed s' = mm_subscribed s \<and> mm_subscription s' = mm_subscription s"
  by (auto simp: market_map_subscribe_def returns split: if_splits option.splits dest: map_sync_fields)

lemma map_subscribe_ok:
  assumes "market_map_subscribe K decode locked response s = Inr (s', None)"
  shows "mm_subscribed s' \<and>
    mm_subscription s' = (if mm_subscribed s then mm_subscription s else fst (program_subscribe (mm_subscription s)))"
proof -
  obtain t e where
    t: "(if mm_sync_lock s then market_map_sync K decode locked response s else Inr (s, None)) = Inr (t, e)"
    and r: "(case e of Some e \<Rightarrow> Inr (t, Some e) | None \<Rightarrow> if mm_subscribed t then Inr (t, None)
      else Inr (t\<lparr>mm_subscription := fst (program_subscribe (mm_subscription t)), mm_subscribed := True\<rparr>, None)) =
      (Inr (s', None) :: (_ \<times> sdk_error option) res)"
    using assms unfolding market_map_subscribe_def bindE_Inr_iff by auto
  then have e: "e = None" and s': "s' = (if mm_subscribed t then t
      else t\<lparr>mm_subscription := fst (program_subscribe (mm_subscription t)), mm_subscribed := True\<rparr>)"
    by (auto split: option.splits if_splits)
  have "mm_subscribed t = mm_subscribed s \<and> mm_subscription t = mm_subscription s"
    using t map_sync_fields [of K decode locked response s t e] by (auto split: if_splits)
  then show ?thesis by (simp add: s')
qed

section \<open>One subscription\<close>

lemma market_handler_fold:
  "foldl (market_handler K) s us = foldl (market_update K) s (map (\<lambda>(slot, m). \<lparr>das_slot = slot, das_data = m\<rparr>) us)"
  by (induction us arbitrary: s) (auto simp: market_handler_def)

lemma map_run_snocE:
  assumes "map_run K decode ws_decode m0 (events @ [e]) c"
  obtains d where "map_run K decode ws_decode m0 events d" "map_step K decode ws_decode d e c"
  using assms by (cases rule: map_run.cases) auto

lemma flows_deliveries:
  assumes "map_run K decode ws_decode m0 (e # map Flows events) c"
  obtains d where "map_run K decode ws_decode m0 [e] d"
    "deliveries (\<lambda>_. program_ws ws_decode) (market_handler K) d events c"
  using assms
proof (induction events arbitrary: c thesis rule: rev_induct)
  case Nil
  then show ?case by (metis deliveries.none list.simps(8))
next
  case (snoc x events)
  then have "map_run K decode ws_decode m0 ((e # map Flows events) @ [Flows x]) c" by simp
  then obtain c1 where c1: "map_run K decode ws_decode m0 (e # map Flows events) c1"
    "map_step K decode ws_decode c1 (Flows x) c" by (rule map_run_snocE)
  from snoc.IH [OF _ c1(1)] obtain d where "map_run K decode ws_decode m0 [e] d"
    "deliveries (\<lambda>_. program_ws ws_decode) (market_handler K) d events c1" by blast
  moreover have "deliver (\<lambda>_. program_ws ws_decode) (market_handler K) c1 x c"
    using c1(2) by (rule map_step_flowE)
  ultimately show ?case using snoc.prems(1) by (blast intro: deliveries.more)
qed

lemma market_update_subscribed [simp]:
  "mm_subscribed (market_handler K s u) = mm_subscribed s"
  "mm_subscription (market_handler K s u) = mm_subscription s"
  by (simp_all add: market_handler_def market_update_def Let_def split: prod.split)

lemma flow_subscribed:
  "deliver W (market_handler K) c e c' \<Longrightarrow> mm_subscribed (dv_store c') = mm_subscribed (dv_store c) \<and>
    mm_subscription (dv_store c') = mm_subscription (dv_store c)"
  by (auto elim: deliver.cases)

lemma first_subscription:
  assumes "market_map_new K D ws_url endpoint sync = Inr m0"
    and "map_run K decode ws_decode m0 [Subscribes response] d" and "mm_subscribed (dv_store d)"
  shows "market_map_subscribe K decode False response m0 = Inr (dv_store d, None) \<and>
    dv_tasks d = [new_task] \<and> dv_queues d = [[]]"
proof -
  have new: "\<not> mm_subscribed m0" "\<not> wps_subscribed (mm_subscription m0)"
    using assms(1) by (auto simp: market_map_new_def program_subscriber_new_def returns)
  from assms(2) have "map_step K decode ws_decode \<lparr>dv_tasks = [], dv_queues = [], dv_store = m0\<rparr> (Subscribes response) d"
    using map_run_snocE [of K decode ws_decode m0 "[]" "Subscribes response" d] by (auto elim: map_run_nilE)
  then show ?thesis
  proof (rule map_step_subscribeE)
    fix m e
    assume d: "d = \<lparr>dv_tasks = [], dv_queues = [], dv_store = m0\<rparr>\<lparr>dv_store := m\<rparr>"
      and "market_map_subscribe K decode False response (dv_store \<lparr>dv_tasks = [], dv_queues = [], dv_store = m0\<rparr>) =
        Inr (m, Some e)"
    from map_subscribe_error [OF this(2)] new(1) assms(3) d show ?thesis by simp
  qed (use new in \<open>simp add: spawn_def program_subscribe_def program_subscribe_ws_def\<close>)
qed

text \<open>The newest update of a market among those handled, or what the map held before.\<close>

definition serves_newest :: "'m market_kind \<Rightarrow> 'm market_map \<Rightarrow> (u64 \<times> 'm) list \<Rightarrow> 'm market_map \<Rightarrow> bool" where
  "serves_newest K s0 handled s \<longleftrightarrow>
     (\<forall>i. if \<exists>u\<in>set handled. mt_market_index K (snd u) = i
       then \<exists>u\<in>set handled. mt_market_index K (snd u) = i \<and>
         market_map_get s i = Some \<lparr>das_slot = fst u, das_data = snd u\<rparr> \<and>
         (\<forall>v\<in>set handled. mt_market_index K (snd v) = i \<longrightarrow> fst v \<le> fst u)
       else market_map_get s i = market_map_get s0 i)"

lemma handled_newest:
  assumes "sorted (map fst handled)"
  shows "serves_newest K s0 handled (foldl (market_handler K) s0 handled)"
  unfolding serves_newest_def
proof
  fix i
  let ?P = "\<lambda>u :: u64 \<times> 'a. mt_market_index K (snd u) = i"
  have lookup: "market_map_get (foldl (market_handler K) s0 handled) i =
      (case filter ?P (rev handled) of [] \<Rightarrow> market_map_get s0 i
       | u # _ \<Rightarrow> Some \<lparr>das_slot = fst u, das_data = snd u\<rparr>)"
    unfolding market_handler_fold market_store.lookup_run
    by (cases "filter ?P (rev handled)") (auto simp: rev_map filter_map comp_def case_prod_beta)
  show "if \<exists>u\<in>set handled. ?P u
       then \<exists>u\<in>set handled. ?P u \<and>
         market_map_get (foldl (market_handler K) s0 handled) i = Some \<lparr>das_slot = fst u, das_data = snd u\<rparr> \<and>
         (\<forall>v\<in>set handled. ?P v \<longrightarrow> fst v \<le> fst u)
       else market_map_get (foldl (market_handler K) s0 handled) i = market_map_get s0 i"
  proof (cases "filter ?P (rev handled)")
    case Nil
    then show ?thesis by (auto simp: lookup filter_empty_conv)
  next
    case (Cons u rest)
    from filter_rev_newest [OF assms Cons] show ?thesis by (auto simp: lookup Cons)
  qed
qed

text \<open>
  C12. A market map that is subscribed once serves, after any interleaving of its websocket task and its
  handler thread, the newest account of every market among the updates handled so far, and for a market
  without update the account it was synchronized with. What is still pending is not older than anything
  handled, so the map never goes back in the slots of its subscription, and the handled and the pending
  updates are all the task has decoded, over all its connections.
\<close>

theorem live_map_serves_newest:
  assumes "market_map_new K D ws_url endpoint sync = Inr m0"
    and "map_run K decode ws_decode m0 (Subscribes response # map Flows events) c"
    and "mm_subscribed (dv_store c)"
  shows "\<exists>m1 t handled pending. market_map_subscribe K decode False response m0 = Inr (m1, None) \<and>
    map sp_task (dv_tasks c) = [t] \<and> dv_queues c = [pending] \<and> wt_emitted t = handled @ pending \<and>
    sorted (map fst (wt_emitted t)) \<and> serves_newest K m1 handled (dv_store c)"
proof -
  obtain d where d: "map_run K decode ws_decode m0 [Subscribes response] d"
    "deliveries (\<lambda>_. program_ws ws_decode) (market_handler K) d events c"
    using flows_deliveries [OF assms(2)] by blast
  have "mm_subscribed (dv_store d)"
    using d(2) assms(3)
    by (induction rule: deliveries.induct) (auto dest: flow_subscribed)
  note first = first_subscription [OF assms(1) d(1) this]
  have "pool_ok one_origin one_origin (\<lambda>_. program_ws ws_decode) (market_handler K) 1 (dv_store d) d []"
    using first by (intro one_task.pool_start) (simp_all add: new_task_def)
  from one_task.pool_run [OF d(2) this] obtain handled where
    ok: "pool_ok one_origin one_origin (\<lambda>_. program_ws ws_decode) (market_handler K) 1 (dv_store d) c handled"
    by (auto simp: inj_on_def)
  then obtain x q where c: "dv_tasks c = [x]" "dv_queues c = [q]"
    by (auto simp: pool_ok_def length_Suc_conv)
  with ok have e: "wt_emitted (sp_task x) = handled @ q" "dv_store c = foldl (market_handler K) (dv_store d) handled"
    by (simp_all add: pool_ok_def)
  have s: "sorted (map fst (handled @ q))"
    using one_task.pool_sorted [OF ok, of 0] by (simp add: c)
  from handled_newest [of handled K "dv_store d"] s c e first show ?thesis
    by (auto simp: sorted_append)
qed

section \<open>Any sequence of subscriptions\<close>

text \<open>A task that will end when it looks at its channel, or has ended.\<close>

definition can_stop :: "'d spawned \<Rightarrow> bool" where
  "can_stop t \<longleftrightarrow> sp_signal t \<or> \<not> sp_sender t \<or> (\<exists>r. wt_phase (sp_task t) = Ended r)"

text \<open>
  The subscriber of the map knows whether the map is subscribed, and a task other than the one of the
  current subscription can stop.
\<close>

definition subscription_ok :: "('m, 'm market_map) delivery \<Rightarrow> bool" where
  "subscription_ok c \<longleftrightarrow>
     (mm_subscribed (dv_store c) \<longleftrightarrow> wps_subscribed (mm_subscription (dv_store c))) \<and>
     (mm_subscribed (dv_store c) \<longrightarrow> wps_unsubscriber (mm_subscription (dv_store c)) \<and> dv_tasks c \<noteq> []) \<and>
     list_all can_stop (if mm_subscribed (dv_store c) then butlast (dv_tasks c) else dv_tasks c)"

lemma dropped_can_stop [simp]: "can_stop (t\<lparr>sp_sender := False\<rparr>)"
  by (simp add: can_stop_def)

lemma deliver_can_stop:
  assumes "deliver (\<lambda>_. program_ws decode) handler c e c'"
  shows "length (dv_tasks c') = length (dv_tasks c)"
    and "\<forall>n<length (dv_tasks c). can_stop (dv_tasks c ! n) \<longrightarrow> can_stop (dv_tasks c' ! n)"
  using assms
proof (atomize (full), cases rule: deliver.cases)
  case (reaches n i t)
  have "can_stop ((receive i (dv_tasks c ! n))\<lparr>sp_task := t\<rparr>)" if "can_stop (dv_tasks c ! n)"
    using reaches(5) that
    by (cases rule: ws_step.cases) (auto simp: can_stop_def receive_def program_ws_def split: ws_input.split)
  then show "length (dv_tasks c') = length (dv_tasks c) \<and>
      (\<forall>n<length (dv_tasks c). can_stop (dv_tasks c ! n) \<longrightarrow> can_stop (dv_tasks c' ! n))"
    by (simp add: reaches(2,3) nth_list_update)
qed simp

lemma step_subscription_ok:
  assumes "map_step K decode ws_decode c e c'" and "subscription_ok c"
  shows "subscription_ok c'"
  using assms
proof (induction rule: map_step.induct)
  case (flows c e c')
  note stop = deliver_can_stop [OF flows(1)]
  have "dv_tasks c' = [] \<longleftrightarrow> dv_tasks c = []" using stop(1) by auto
  then show ?case
    using flows flow_subscribed [OF flows(1)] stop(2)
    by (auto simp: subscription_ok_def list_all_length stop(1) nth_butlast)
next
  case (subscribe_fails response c m e)
  then show ?case using map_subscribe_error [OF subscribe_fails(1)]
    by (auto simp: subscription_ok_def)
next
  case (subscribes response c m)
  show ?case
    using subscribes map_subscribe_ok [OF subscribes(1)]
    by (auto simp: subscription_ok_def program_subscribe_def program_subscribe_ws_def spawn_def list_all_iff)
next
  case (unsubscribes c m e)
  show ?case
  proof (cases "mm_subscribed (dv_store c) \<and> e = None")
    case True
    then have "dv_tasks c \<noteq> []" using unsubscribes(2) by (simp add: subscription_ok_def)
    then show ?thesis using True unsubscribes
      by (auto simp: subscription_ok_def market_map_unsubscribe_def program_unsubscribe_def send_signal_def can_stop_def
        list_all_iff split: if_splits)
  next
    case False
    then show ?thesis using unsubscribes
      by (auto simp: subscription_ok_def market_map_unsubscribe_def program_unsubscribe_def split: if_splits)
  qed
qed

lemma run_subscription_ok:
  assumes "map_run K decode ws_decode m0 events c" and "market_map_new K D ws_url endpoint sync = Inr m0"
  shows "subscription_ok c"
  using assms
proof (induction rule: map_run.induct)
  case idle
  then show ?case by (auto simp: subscription_ok_def market_map_new_def program_subscriber_new_def returns)
qed (blast intro: step_subscription_ok)

text \<open>What an answer to the request of a synchronization gives.\<close>

definition answered :: "('a \<Rightarrow> sdk_error + 'm) \<Rightarrow> ('r, 'a) map_event list \<Rightarrow> u64 \<times> 'm \<Rightarrow> bool" where
  "answered decode events u \<longleftrightarrow> (\<exists>accounts. Subscribes (Inr (Some (fst u, accounts))) \<in> set events \<and>
     (\<exists>account\<in>set accounts. decode account = Inr (snd u)))"

text \<open>Every entry and every pending update is real.\<close>

definition real_data :: "'m market_kind \<Rightarrow> ('a \<Rightarrow> sdk_error + 'm) \<Rightarrow> ('r, 'a) map_event list \<Rightarrow>
    ('m, 'm market_map) delivery \<Rightarrow> bool" where
  "real_data K decode events c \<longleftrightarrow> (\<forall>q\<in>set (dv_queues c). set q \<subseteq> emitted_to c) \<and>
     (\<forall>i d. market_map_get (dv_store c) i = Some d \<longrightarrow> mt_market_index K (das_data d) = i \<and>
       ((das_slot d, das_data d) \<in> emitted_to c \<or> answered decode events (das_slot d, das_data d)))"

lemma sync_accounts_entries:
  assumes "market_sync_accounts K decode slot accounts s = (s', e)" and "market_map_get s' i = Some d"
  shows "market_map_get s i = Some d \<or>
    mt_market_index K (das_data d) = i \<and> das_slot d = slot \<and> (\<exists>a\<in>set accounts. decode a = Inr (das_data d))"
  using assms
proof (induction K decode slot accounts s rule: market_sync_accounts.induct)
  case (2 K decode slot a accounts s)
  show ?case
  proof (cases "decode a")
    case (Inr m)
    with "2.prems" "2.IH" [OF Inr] show ?thesis
      by (auto simp: market_map_get_def update_conv' split: if_splits)
  qed (use 2 in simp)
qed (auto simp: market_map_get_def)

lemma sync_entries:
  assumes "market_map_sync K decode locked response s = Inr (s', e)" and "market_map_get s' i = Some d"
  shows "market_map_get s i = Some d \<or> mt_market_index K (das_data d) = i \<and>
    (\<exists>accounts. response = Inr (Some (das_slot d, accounts)) \<and> (\<exists>a\<in>set accounts. decode a = Inr (das_data d)))"
proof (cases "\<exists>slot accounts. response = Inr (Some (slot, accounts)) \<and>
    market_sync_accounts K decode slot accounts s = (s', e)")
  case True
  with assms(2) show ?thesis by (auto dest: sync_accounts_entries)
next
  case False
  then have "s' = s"
    using assms(1) by (auto simp: market_map_sync_def returns split: if_splits sum.splits option.splits prod.splits)
  with assms(2) show ?thesis by simp
qed

lemma subscribe_entries:
  assumes "market_map_subscribe K decode locked response s = Inr (s', e)" and "market_map_get s' i = Some d"
  shows "market_map_get s i = Some d \<or> mt_market_index K (das_data d) = i \<and>
    (\<exists>accounts. response = Inr (Some (das_slot d, accounts)) \<and> (\<exists>a\<in>set accounts. decode a = Inr (das_data d)))"
proof -
  obtain t e' where
    t: "(if mm_sync_lock s then market_map_sync K decode locked response s else Inr (s, None)) = Inr (t, e')"
    and r: "(case e' of Some e \<Rightarrow> Inr (t, Some e) | None \<Rightarrow> if mm_subscribed t then Inr (t, None)
      else Inr (t\<lparr>mm_subscription := fst (program_subscribe (mm_subscription t)), mm_subscribed := True\<rparr>, None)) =
      (Inr (s', e) :: (_ \<times> sdk_error option) res)"
    using assms(1) unfolding market_map_subscribe_def bindE_Inr_iff by auto
  from r have "mm_marketmap s' = mm_marketmap t" by (auto split: option.splits if_splits)
  then have "market_map_get t i = Some d" using assms(2) by (simp add: market_map_get_def)
  with t sync_entries [of K decode locked response s t e' i d] show ?thesis
    by (cases "mm_sync_lock s") simp_all
qed

lemma answered_more: "answered decode events u \<Longrightarrow> answered decode (events @ [e]) u"
  by (auto simp: answered_def)

lemma real_data_store:
  assumes "real_data K decode events c" and "emitted_to c \<subseteq> emitted_to c'"
    and "\<forall>q\<in>set (dv_queues c'). set q \<subseteq> emitted_to c'"
    and "\<And>i d. market_map_get (dv_store c') i = Some d \<Longrightarrow> market_map_get (dv_store c) i = Some d \<or>
      mt_market_index K (das_data d) = i \<and> ((das_slot d, das_data d) \<in> emitted_to c \<or>
        answered decode (events @ [e]) (das_slot d, das_data d))"
  shows "real_data K decode (events @ [e]) c'"
  unfolding real_data_def
proof (intro conjI allI impI)
  fix i d assume "market_map_get (dv_store c') i = Some d"
  then have "mt_market_index K (das_data d) = i \<and> ((das_slot d, das_data d) \<in> emitted_to c \<or>
      answered decode (events @ [e]) (das_slot d, das_data d))"
    using assms(1,4) answered_more unfolding real_data_def by blast
  with assms(2) show "mt_market_index K (das_data d) = i"
    "(das_slot d, das_data d) \<in> emitted_to c' \<or> answered decode (events @ [e]) (das_slot d, das_data d)"
    by auto
qed (rule assms(3))

lemma subscribe_answered:
  assumes "market_map_subscribe K decode locked response s = Inr (s', e)" and "market_map_get s' i = Some d"
  shows "market_map_get s i = Some d \<or> mt_market_index K (das_data d) = i \<and>
    ((das_slot d, das_data d) \<in> X \<or> answered decode (events @ [Subscribes response]) (das_slot d, das_data d))"
  using subscribe_entries [OF assms] by (fastforce simp: answered_def)

lemma step_real:
  assumes "map_step K decode ws_decode c e c'" and "real_data K decode events c"
  shows "real_data K decode (events @ [e]) c'"
  using assms
proof (induction rule: map_step.induct)
  case (flows c e c')
  have queues: "\<forall>q\<in>set (dv_queues c). set q \<subseteq> emitted_to c" using flows(2) by (simp add: real_data_def)
  note emitted = deliver_emitted [OF flows(1)]
  show ?case
  proof (rule real_data_store [OF flows(2) emitted(1) emitted(2) [OF queues]])
    fix i d assume "market_map_get (dv_store c') i = Some d"
    with flows(1) show "market_map_get (dv_store c) i = Some d \<or>
        mt_market_index K (das_data d) = i \<and> ((das_slot d, das_data d) \<in> emitted_to c \<or>
          answered decode (events @ [Flows e]) (das_slot d, das_data d))"
    proof (cases rule: deliver.cases)
      case (handles h u rest)
      have "u \<in> emitted_to c" using queues handles(3,4) by (metis list.set_intros(1) nth_mem subsetD)
      with handles \<open>market_map_get (dv_store c') i = Some d\<close> show ?thesis
        by (auto simp: market_handler_def market_store.lookup_update split: prod.splits if_splits)
    qed simp
  qed
next
  case (subscribe_fails response c m e)
  show ?case
  proof (rule real_data_store [OF subscribe_fails(2)])
    fix i d assume "market_map_get (dv_store (c\<lparr>dv_store := m\<rparr>)) i = Some d"
    then show "market_map_get (dv_store c) i = Some d \<or> mt_market_index K (das_data d) = i \<and>
        ((das_slot d, das_data d) \<in> emitted_to c \<or>
         answered decode (events @ [Subscribes response]) (das_slot d, das_data d))"
      by (intro subscribe_answered [OF subscribe_fails(1)]) simp
  qed (use subscribe_fails(2) in \<open>simp_all add: real_data_def emitted_to_def\<close>)
next
  case (subscribes response c m)
  let ?c = "if mm_subscribed (dv_store c) then c\<lparr>dv_store := m\<rparr>
       else c\<lparr>dv_store := m,
         dv_tasks := (if snd (program_subscribe (mm_subscription (dv_store c))) \<noteq> None then spawn (dv_tasks c) else dv_tasks c),
         dv_queues := dv_queues c @ [[]]\<rparr>"
  show ?case
  proof (rule real_data_store [OF subscribes(2)])
    fix i d assume "market_map_get (dv_store ?c) i = Some d"
    then show "market_map_get (dv_store c) i = Some d \<or> mt_market_index K (das_data d) = i \<and>
        ((das_slot d, das_data d) \<in> emitted_to c \<or>
         answered decode (events @ [Subscribes response]) (das_slot d, das_data d))"
      by (intro subscribe_answered [OF subscribes(1)]) (simp split: if_splits)
  qed (use subscribes(2) in \<open>auto simp: real_data_def emitted_to_def emitted_spawn\<close>)
next
  case (unsubscribes c m e)
  have "mm_marketmap m = mm_marketmap (dv_store c) \<or> mm_marketmap m = []"
    using unsubscribes(1) by (auto simp: market_map_unsubscribe_def split: if_splits prod.splits option.splits)
  then show ?case
    by (intro real_data_store [OF unsubscribes(2)])
      (use unsubscribes in \<open>auto simp: real_data_def emitted_to_def emitted_signal market_map_get_def\<close>)
qed

text \<open>
  C14. Over any sequence of subscribing, unsubscribing, task inputs and handler turns, every entry of a market
  map is under its own index and holds an account that a task decoded at the entry's slot, or that a node
  answered to a synchronization at that slot.
\<close>

theorem live_map_entries_real:
  assumes "market_map_new K D ws_url endpoint sync = Inr m0"
    and "map_run K decode ws_decode m0 events c" and "market_map_get (dv_store c) i = Some d"
  shows "mt_market_index K (das_data d) = i \<and>
    ((das_slot d, das_data d) \<in> emitted_to c \<or> answered decode events (das_slot d, das_data d))"
proof -
  from assms(2) have "real_data K decode events c"
  proof (induction rule: map_run.induct)
    case idle
    then show ?case using assms(1) by (auto simp: real_data_def market_map_new_def market_map_get_def returns)
  qed (rule step_real)
  with assms(3) show ?thesis unfolding real_data_def by blast
qed

text \<open>
  In every reachable state each task but the one of the current subscription is ended, or ends as soon as
  it looks at its channel while it streams: unsubscribing leaves no task running for ever.
\<close>

theorem stale_tasks_stop:
  assumes "market_map_new K D ws_url endpoint sync = Inr m0"
    and "map_run K decode ws_decode m0 events c"
    and "n < length (dv_tasks c) - (if mm_subscribed (dv_store c) then 1 else 0)"
    and "wt_phase (sp_task (dv_tasks c ! n)) = Streaming"
  shows "\<exists>signal c'. map_step K decode ws_decode c (Flows (Reaches n (Unsub signal))) c' \<and>
    wt_phase (sp_task (dv_tasks c' ! n)) = Ended None"
proof -
  have n: "n < length (dv_tasks c)" using assms(3) by simp
  have "can_stop (dv_tasks c ! n)"
    using run_subscription_ok [OF assms(2,1)] assms(3)
    by (auto simp: subscription_ok_def list_all_length nth_butlast split: if_splits)
  then have may: "may_receive (dv_tasks c ! n) (Unsub (sp_signal (dv_tasks c ! n)))"
    using assms(4) by (auto simp: can_stop_def may_receive_def)
  have "ws_step (program_ws ws_decode) (sp_task (dv_tasks c ! n)) (Unsub (sp_signal (dv_tasks c ! n)))
      ((sp_task (dv_tasks c ! n))\<lparr>wt_phase := Ended None\<rparr>)"
    by (intro ws_step.unsub assms(4)) (simp add: program_ws_def)
  from map_step.flows [OF deliver.reaches [OF n may this]] n show ?thesis
    by (intro exI conjI) (assumption, simp)
qed

section \<open>Sample runs\<close>

definition sample_markets :: "perp_market market_map" where
  "sample_markets = \<lparr>mm_subscribed = False, mm_subscription = program_subscriber_new ''marketmap'' ''ws://x''
       [\<lparr>mc_offset = 0, mc_bytes = [2]\<rparr>], mm_marketmap = [], mm_sync_lock = False, mm_latest_slot = 0,
     mm_synced = False\<rparr>"

lemma sample_markets_new:
  "market_map_new perp_market_kind \<lparr>disc_user = [1], disc_perp_market = [2], disc_spot_market = [3]\<rparr>
    (\<lambda>_. Some ''ws://x'') ''http://x'' False = Inr sample_markets"
  by (simp add: market_map_new_def sample_markets_def perp_market_kind_def get_market_filter_def)

abbreviation sample_run :: "(perp_market, perp_market) map_event list \<Rightarrow>
    (perp_market, perp_market market_map) delivery \<Rightarrow> bool" where
  "sample_run \<equiv> map_run perp_market_kind Inr Some sample_markets"

abbreviation subscribed_markets :: "perp_market market_map" where
  "subscribed_markets \<equiv> sample_markets\<lparr>mm_subscribed := True,
     mm_subscription := fst (program_subscribe (mm_subscription sample_markets))\<rparr>"

lemma sample_subscribed:
  "sample_run [Subscribes (Inr None)] \<lparr>dv_tasks = [new_task], dv_queues = [[]], dv_store = subscribed_markets\<rparr>"
proof -
  have "market_map_subscribe perp_market_kind Inr False (Inr None :: _ + perp_market response) sample_markets =
      Inr (subscribed_markets, None)"
    by (simp add: market_map_subscribe_def sample_markets_def)
  from map_run.runs [OF map_run.idle map_step.subscribes, simplified, OF this]
  show ?thesis by (simp add: sample_markets_def program_subscribe_def program_subscribe_ws_def program_subscriber_new_def spawn_def)
qed

lemma run_flow:
  assumes "map_run K decode ws_decode m0 events c"
    and "deliver (\<lambda>_. program_ws ws_decode) (market_handler K) c e c'" and "events' = events @ [Flows e]"
  shows "map_run K decode ws_decode m0 events' c'"
  using assms map_run.runs map_step.flows by blast

lemma run_connect:
  assumes "map_run K decode ws_decode m0 events \<lparr>dv_tasks = ts, dv_queues = qs, dv_store = s\<rparr>"
    and "n < length ts" and "ts ! n = \<lparr>sp_task = ws_task_new, sp_signal = sg, sp_sender = sd\<rparr>"
    and "events' = events @ [Flows (Reaches n SubscribeOk)]"
    and "ts' = ts[n := \<lparr>sp_task = streaming [] 0, sp_signal = sg, sp_sender = sd\<rparr>]"
  shows "map_run K decode ws_decode m0 events' \<lparr>dv_tasks = ts', dv_queues = qs, dv_store = s\<rparr>"
  using run_flow [OF assms(1) deliver_connect [of n "\<lparr>dv_tasks = ts, dv_queues = qs, dv_store = s\<rparr>" sg sd ts'] assms(4)]
    assms(2,3,5) by simp

lemma run_message:
  assumes "map_run K decode ws_decode m0 events \<lparr>dv_tasks = ts, dv_queues = qs, dv_store = s\<rparr>"
    and "n < length ts" and "ts ! n = \<lparr>sp_task = streaming xs l, sp_signal = sg, sp_sender = sd\<rparr>"
    and "l \<le> slot" and "ws_decode m = Some d" and "events' = events @ [Flows (Reaches n (Message slot m))]"
    and "ts' = ts[n := \<lparr>sp_task = streaming (xs @ [(slot, d)]) slot, sp_signal = sg, sp_sender = sd\<rparr>]"
    and "qs' = map (\<lambda>q. q @ [(slot, d)]) qs"
  shows "map_run K decode ws_decode m0 events' \<lparr>dv_tasks = ts', dv_queues = qs', dv_store = s\<rparr>"
  using run_flow [OF assms(1) deliver_message [of n "\<lparr>dv_tasks = ts, dv_queues = qs, dv_store = s\<rparr>" xs l sg sd
      slot "\<lambda>_. program_ws ws_decode" m d ts' qs'] assms(6)] assms(2-5,7,8)
  by (simp add: program_ws_def)

lemma run_handle:
  assumes "map_run K decode ws_decode m0 events \<lparr>dv_tasks = ts, dv_queues = qs, dv_store = s\<rparr>"
    and "h < length qs" and "qs ! h = u # rest" and "events' = events @ [Flows (Handles h)]"
    and "qs' = qs[h := rest]" and "s' = market_handler K s u"
  shows "map_run K decode ws_decode m0 events' \<lparr>dv_tasks = ts, dv_queues = qs', dv_store = s'\<rparr>"
  using run_flow [OF assms(1) deliver.handles [of h "\<lparr>dv_tasks = ts, dv_queues = qs, dv_store = s\<rparr>" u rest] assms(4)]
    assms(2,3,5,6) by simp

abbreviation streaming_task :: "(u64 \<times> 'd) list \<Rightarrow> u64 \<Rightarrow> 'd spawned" where
  "streaming_task xs l \<equiv> \<lparr>sp_task = streaming xs l, sp_signal = False, sp_sender = True\<rparr>"

lemma sample_streamed:
  "sample_run (Subscribes (Inr None) # map Flows [Reaches 0 SubscribeOk, Reaches 0 (Message 5 (sample_perp_market 3)),
      Handles 0])
    \<lparr>dv_tasks = [streaming_task [(5, sample_perp_market 3)] 5], dv_queues = [[]],
     dv_store = market_handler perp_market_kind subscribed_markets (5, sample_perp_market 3)\<rparr>"
proof -
  have "sample_run [Subscribes (Inr None), Flows (Reaches 0 SubscribeOk)]
      \<lparr>dv_tasks = [streaming_task [] 0], dv_queues = [[]], dv_store = subscribed_markets\<rparr>"
    by (rule run_connect [OF sample_subscribed, of 0 False True]) (simp_all add: new_task_def)
  then have "sample_run [Subscribes (Inr None), Flows (Reaches 0 SubscribeOk),
      Flows (Reaches 0 (Message 5 (sample_perp_market 3)))]
      \<lparr>dv_tasks = [streaming_task [(5, sample_perp_market 3)] 5], dv_queues = [[(5, sample_perp_market 3)]],
       dv_store = subscribed_markets\<rparr>"
    by (rule run_message [where n = 0 and xs = "[]" and l = 0 and sg = False and sd = True]) simp_all
  then show ?thesis by (rule run_handle [where h = 0]) simp_all
qed

theorem live_map_serves_newest_witness:
  "\<exists>c. sample_run (Subscribes (Inr None) # map Flows [Reaches 0 SubscribeOk,
        Reaches 0 (Message 5 (sample_perp_market 3)), Handles 0]) c \<and>
     (\<exists>handled. serves_newest perp_market_kind subscribed_markets handled (dv_store c) \<and>
       handled = [(5, sample_perp_market 3)])"
proof -
  have "market_map_subscribe perp_market_kind Inr False (Inr None :: _ + perp_market response) sample_markets =
      Inr (m1, None) \<Longrightarrow> m1 = subscribed_markets" for m1
    by (simp add: market_map_subscribe_def sample_markets_def)
  with live_map_serves_newest [OF sample_markets_new sample_streamed] sample_streamed show ?thesis
    by (fastforce simp: streaming_def)
qed

theorem live_map_entries_real_witness:
  "\<exists>c. sample_run (Subscribes (Inr None) # map Flows [Reaches 0 SubscribeOk,
        Reaches 0 (Message 5 (sample_perp_market 3)), Handles 0]) c \<and>
     market_map_get (dv_store c) 3 = Some \<lparr>das_slot = 5, das_data = sample_perp_market 3\<rparr> \<and>
     (5, sample_perp_market 3) \<in> emitted_to c"
proof -
  let ?c = "\<lparr>dv_tasks = [streaming_task [(5, sample_perp_market 3)] 5], dv_queues = [[]],
     dv_store = market_handler perp_market_kind subscribed_markets (5, sample_perp_market 3)\<rparr>"
  have get: "market_map_get (dv_store ?c) 3 = Some \<lparr>das_slot = 5, das_data = sample_perp_market 3\<rparr>"
    by (simp add: market_handler_def market_store.lookup_update perp_market_kind_def sample_perp_market_def)
  have "\<not> answered (Inr :: perp_market \<Rightarrow> _) (Subscribes (Inr None) # map Flows [Reaches 0 SubscribeOk,
      Reaches 0 (Message 5 (sample_perp_market 3)), Handles 0]) u" for u
    by (simp add: answered_def)
  with live_map_entries_real [OF sample_markets_new sample_streamed get] have "(5, sample_perp_market 3) \<in> emitted_to ?c"
    by simp
  with get sample_streamed show ?thesis by blast
qed

theorem stale_tasks_stop_witness:
  "\<exists>c c' signal. sample_run [Subscribes (Inr None), Flows (Reaches 0 SubscribeOk), Unsubscribes] c \<and>
     map_step perp_market_kind (Inr :: perp_market \<Rightarrow> _) Some c (Flows (Reaches 0 (Unsub signal))) c' \<and>
     wt_phase (sp_task (dv_tasks c' ! 0)) = Ended None"
proof -
  let ?c = "\<lparr>dv_tasks = [streaming_task [] 0], dv_queues = [[]], dv_store = subscribed_markets\<rparr>
    :: (perp_market, perp_market market_map) delivery"
  have run: "sample_run [Subscribes (Inr None), Flows (Reaches 0 SubscribeOk)] ?c"
    by (rule run_connect [OF sample_subscribed, of 0 False True]) (simp_all add: new_task_def)
  obtain m where m: "market_map_unsubscribe (receiver_alive (dv_tasks ?c)) (dv_store ?c) = (m, None)"
    "\<not> mm_subscribed m"
    by (simp add: market_map_unsubscribe_def program_unsubscribe_def program_subscribe_def program_subscribe_ws_def program_subscriber_new_def
        receiver_alive_def streaming_def sample_markets_def)
  from map_run.runs [OF run map_step.unsubscribes [OF m(1)]]
  have u: "sample_run [Subscribes (Inr None), Flows (Reaches 0 SubscribeOk), Unsubscribes]
      \<lparr>dv_tasks = [(streaming_task [] 0)\<lparr>sp_signal := True\<rparr>], dv_queues = [[]], dv_store = m\<rparr>"
    by (simp add: send_signal_def)
  with stale_tasks_stop [OF sample_markets_new u, of 0] m(2) show ?thesis
    by (fastforce simp: streaming_def)
qed

section \<open>Subscribing again\<close>

lemma run_handles:
  assumes "map_run K decode ws_decode m0 events \<lparr>dv_tasks = ts, dv_queues = qs, dv_store = s\<rparr>"
    and "h < length qs" and "qs ! h = us @ rest"
  shows "map_run K decode ws_decode m0 (events @ replicate (length us) (Flows (Handles h)))
    \<lparr>dv_tasks = ts, dv_queues = qs[h := rest], dv_store = foldl (market_handler K) s us\<rparr>"
  using assms
proof (induction us arbitrary: events qs s)
  case Nil
  then have "qs[h := rest] = qs" by (metis append_Nil list_update_id)
  with Nil show ?case by simp
next
  case (Cons u us)
  have "map_run K decode ws_decode m0 (events @ [Flows (Handles h)])
      \<lparr>dv_tasks = ts, dv_queues = qs[h := us @ rest], dv_store = market_handler K s u\<rparr>"
    by (rule run_handle [OF Cons.prems(1,2)]) (use Cons.prems(3) in simp_all)
  from Cons.IH [OF this] Cons.prems(2) show ?case by simp
qed

text \<open>A subscription after an unsubscription starts a task of its own and adds a handler to those there are.\<close>

lemma subscribes_again:
  assumes "map_run K decode ws_decode m0 events c" and "market_map_new K D ws_url endpoint sync = Inr m0"
    and "\<not> mm_subscribed (dv_store c)"
    and "map_step K decode ws_decode c (Subscribes response) d" and "mm_subscribed (dv_store d)"
  shows "d = \<lparr>dv_tasks = spawn (dv_tasks c), dv_queues = dv_queues c @ [[]], dv_store = dv_store d\<rparr>"
proof -
  have w: "\<not> wps_subscribed (mm_subscription (dv_store c))"
    using run_subscription_ok [OF assms(1,2)] assms(3) by (simp add: subscription_ok_def)
  from assms(4) show ?thesis
    by (rule map_step_subscribeE)
      (use w assms(3,5) map_subscribe_error in \<open>fastforce simp: program_subscribe_def program_subscribe_ws_def\<close>)+
qed

lemma market_handler_get:
  "market_map_get (market_handler K s (slot, m)) i =
    (if mt_market_index K m = i then Some \<lparr>das_slot = slot, das_data = m\<rparr> else market_map_get s i)"
  by (simp add: market_handler_def market_store.lookup_update)

text \<open>The inputs of the task and of the new handler, after which the new handler has written both messages.\<close>

abbreviation two_messages :: "nat \<Rightarrow> nat \<Rightarrow> u64 \<Rightarrow> 'r \<Rightarrow> u64 \<Rightarrow> 'r \<Rightarrow> ('r, 'a) map_event list" where
  "two_messages n h s1 r1 s2 r2 \<equiv> map Flows [Reaches n SubscribeOk, Reaches n (Message s1 r1), Reaches n (Message s2 r2),
     Handles h, Handles h]"

lemma two_messages_run:
  assumes "map_run K decode ws_decode m0 events \<lparr>dv_tasks = ts @ [new_task], dv_queues = qs @ [[]], dv_store = s\<rparr>"
    and "s1 \<le> s2" and "ws_decode r1 = Some m1" and "ws_decode r2 = Some m2"
  shows "map_run K decode ws_decode m0 (events @ two_messages (length ts) (length qs) s1 r1 s2 r2)
    \<lparr>dv_tasks = ts @ [streaming_task [(s1, m1), (s2, m2)] s2], dv_queues = map (\<lambda>q. q @ [(s1, m1), (s2, m2)]) qs @ [[]],
     dv_store = market_handler K (market_handler K s (s1, m1)) (s2, m2)\<rparr>"
proof -
  let ?n = "length ts" and ?h = "length qs"
  note m0 = assms(1)
  have m1: "map_run K decode ws_decode m0 (events @ [Flows (Reaches ?n SubscribeOk)])
      \<lparr>dv_tasks = ts @ [streaming_task [] 0], dv_queues = qs @ [[]], dv_store = s\<rparr>"
    by (rule run_connect [OF m0, of ?n False True]) (simp_all add: new_task_def)
  have m2: "map_run K decode ws_decode m0 ((events @ [Flows (Reaches ?n SubscribeOk)]) @ [Flows (Reaches ?n (Message s1 r1))])
      \<lparr>dv_tasks = ts @ [streaming_task [(s1, m1)] s1], dv_queues = map (\<lambda>q. q @ [(s1, m1)]) qs @ [[(s1, m1)]],
       dv_store = s\<rparr>"
    by (rule run_message [OF m1, of ?n "[]" 0 False True s1 r1 m1]) (simp_all add: assms(3))
  have m3: "map_run K decode ws_decode m0 (((events @ [Flows (Reaches ?n SubscribeOk)]) @ [Flows (Reaches ?n (Message s1 r1))])
        @ [Flows (Reaches ?n (Message s2 r2))])
      \<lparr>dv_tasks = ts @ [streaming_task [(s1, m1), (s2, m2)] s2],
       dv_queues = map (\<lambda>q. q @ [(s1, m1), (s2, m2)]) qs @ [[(s1, m1), (s2, m2)]], dv_store = s\<rparr>"
    by (rule run_message [OF m2, of ?n "[(s1, m1)]" s1 False True s2 r2 m2]) (simp_all add: assms(2,4))
  from run_handles [OF m3, of ?h "[(s1, m1), (s2, m2)]" "[]"] show ?thesis
    by (simp add: nth_append list_update_append numeral_2_eq_2)
qed

text \<open>
  C20. A map that is subscribed again after it was unsubscribed can go back in time, whatever the market, the map's
  history and its accounts are: the handler of the earlier subscription is still registered, so for any two
  messages for a market that the new task may pass on in the order of their slots, there is a run in which the map
  holds the newer account, and then, once the thread of the earlier handler has taken what it is behind, the older.
\<close>

theorem resubscribed_map_goes_back:
  assumes "market_map_new K D ws_url endpoint sync = Inr m0" and "map_run K decode ws_decode m0 events c"
    and "\<not> mm_subscribed (dv_store c)" and "h < length (dv_queues c)"
    and "map_step K decode ws_decode c (Subscribes response) d" and "mm_subscribed (dv_store d)"
    and "s1 \<le> s2" and "ws_decode r1 = Some m1" and "ws_decode r2 = Some m2"
    and "mt_market_index K m1 = i" and "mt_market_index K m2 = i"
  shows "\<exists>newer older. map_run K decode ws_decode m0 (events @ [Subscribes response] @
        two_messages (length (dv_tasks c)) (length (dv_queues c)) s1 r1 s2 r2) newer \<and>
     market_map_get (dv_store newer) i = Some \<lparr>das_slot = s2, das_data = m2\<rparr> \<and>
     map_run K decode ws_decode m0 ((events @ [Subscribes response] @
        two_messages (length (dv_tasks c)) (length (dv_queues c)) s1 r1 s2 r2) @
        replicate (Suc (length (dv_queues c ! h))) (Flows (Handles h))) older \<and>
     market_map_get (dv_store older) i = Some \<lparr>das_slot = s1, das_data = m1\<rparr>"
proof -
  let ?ts = "map (\<lambda>t. t\<lparr>sp_sender := False\<rparr>) (dv_tasks c)" and ?qs = "dv_queues c"
  let ?u = "(s1, m1)" and ?v = "(s2, m2)"
  let ?s = "market_handler K (market_handler K (dv_store d) ?u) ?v" and ?q = "dv_queues c ! h"
  have "map_run K decode ws_decode m0 (events @ [Subscribes response])
      \<lparr>dv_tasks = ?ts @ [new_task], dv_queues = ?qs @ [[]], dv_store = dv_store d\<rparr>"
    using map_run.runs [OF assms(2,5)] subscribes_again [OF assms(2,1,3,5,6)] by (simp add: spawn_def)
  from two_messages_run [OF this assms(7-9)]
  have newer: "map_run K decode ws_decode m0 (events @ [Subscribes response] @
        two_messages (length (dv_tasks c)) (length ?qs) s1 r1 s2 r2)
      \<lparr>dv_tasks = ?ts @ [streaming_task [?u, ?v] s2], dv_queues = map (\<lambda>q. q @ [?u, ?v]) ?qs @ [[]], dv_store = ?s\<rparr>"
    by simp
  have "(map (\<lambda>q. q @ [?u, ?v]) ?qs @ [[]]) ! h = (?q @ [?u]) @ [?v]" using assms(4) by (simp add: nth_append)
  from run_handles [OF newer _ this] assms(4)
  have older: "map_run K decode ws_decode m0 ((events @ [Subscribes response] @
        two_messages (length (dv_tasks c)) (length ?qs) s1 r1 s2 r2) @
        replicate (Suc (length ?q)) (Flows (Handles h)))
      \<lparr>dv_tasks = ?ts @ [streaming_task [?u, ?v] s2], dv_queues = (map (\<lambda>q. q @ [?u, ?v]) ?qs @ [[]])[h := [?v]],
       dv_store = market_handler K (foldl (market_handler K) ?s ?q) ?u\<rparr>"
    by simp
  show ?thesis
    by (intro exI conjI, rule newer, simp add: market_handler_get assms(11), rule older, simp add: market_handler_get assms(10))
qed

text \<open>The sample map, unsubscribed and subscribed again, with two different accounts of one market.\<close>

abbreviation sample_back :: "(perp_market, perp_market) map_event list" where
  "sample_back \<equiv> [Subscribes (Inr None), Unsubscribes] @ [Subscribes (Inr None)] @
     two_messages 1 1 5 (sample_perp_market 3) 9 ((sample_perp_market 3)\<lparr>pm_amm_oracle := 77\<rparr>)"

theorem resubscribed_map_goes_back_witness:
  "\<exists>newer older. sample_run sample_back newer \<and>
     market_map_get (dv_store newer) 3 = Some \<lparr>das_slot = 9, das_data = (sample_perp_market 3)\<lparr>pm_amm_oracle := 77\<rparr>\<rparr> \<and>
     sample_run (sample_back @ [Flows (Handles 0)]) older \<and>
     market_map_get (dv_store older) 3 = Some \<lparr>das_slot = 5, das_data = sample_perp_market 3\<rparr> \<and>
     pm_amm_oracle (sample_perp_market 3) = 300"
proof -
  let ?c0 = "\<lparr>dv_tasks = [new_task], dv_queues = [[]], dv_store = subscribed_markets\<rparr>
    :: (perp_market, perp_market market_map) delivery"
  obtain m where m: "market_map_unsubscribe (receiver_alive (dv_tasks ?c0)) (dv_store ?c0) = (m, None)"
    "\<not> mm_subscribed m" "\<not> wps_subscribed (mm_subscription m)" "\<not> mm_sync_lock m"
    by (simp add: market_map_unsubscribe_def program_unsubscribe_def program_subscribe_def program_subscribe_ws_def program_subscriber_new_def
        receiver_alive_def new_task_def ws_task_new_def sample_markets_def)
  let ?m = "m\<lparr>mm_subscription := fst (program_subscribe (mm_subscription m)), mm_subscribed := True\<rparr>"
  let ?c = "\<lparr>dv_tasks = [new_task\<lparr>sp_signal := True\<rparr>], dv_queues = [[]], dv_store = m\<rparr>
    :: (perp_market, perp_market market_map) delivery"
  from map_run.runs [OF sample_subscribed map_step.unsubscribes [OF m(1)]]
  have c: "sample_run [Subscribes (Inr None), Unsubscribes] ?c" by (simp add: send_signal_def)
  have "market_map_subscribe perp_market_kind Inr False (Inr None :: _ + perp_market response) (dv_store ?c) =
      Inr (?m, None)"
    using m by (simp add: market_map_subscribe_def)
  from map_step.subscribes [OF this, of Some] m(2)
  have d: "map_step perp_market_kind Inr Some ?c (Subscribes (Inr None))
      \<lparr>dv_tasks = spawn (dv_tasks ?c), dv_queues = [[], []], dv_store = ?m\<rparr>"
    using m(3) by (simp add: program_subscribe_def program_subscribe_ws_def)
  have i: "mt_market_index perp_market_kind (sample_perp_market 3) = 3"
    "mt_market_index perp_market_kind ((sample_perp_market 3)\<lparr>pm_amm_oracle := 77\<rparr>) = 3"
    by (simp_all add: sample_perp_market_def perp_market_kind_def)
  have "\<exists>newer older. sample_run ([Subscribes (Inr None), Unsubscribes] @ [Subscribes (Inr None)] @
        two_messages (length (dv_tasks ?c)) (length (dv_queues ?c)) 5 (sample_perp_market 3) 9
          ((sample_perp_market 3)\<lparr>pm_amm_oracle := 77\<rparr>)) newer \<and>
      market_map_get (dv_store newer) 3 = Some \<lparr>das_slot = 9, das_data = (sample_perp_market 3)\<lparr>pm_amm_oracle := 77\<rparr>\<rparr> \<and>
      sample_run (([Subscribes (Inr None), Unsubscribes] @ [Subscribes (Inr None)] @
        two_messages (length (dv_tasks ?c)) (length (dv_queues ?c)) 5 (sample_perp_market 3) 9
          ((sample_perp_market 3)\<lparr>pm_amm_oracle := 77\<rparr>)) @
        replicate (Suc (length (dv_queues ?c ! 0))) (Flows (Handles 0))) older \<and>
      market_map_get (dv_store older) 3 = Some \<lparr>das_slot = 5, das_data = sample_perp_market 3\<rparr>"
    by (rule resubscribed_map_goes_back [OF sample_markets_new c _ _ d _ _ _ _ i]) (simp_all add: m(2))
  moreover have "pm_amm_oracle (sample_perp_market 3) = 300" by (simp add: sample_perp_market_def)
  ultimately show ?thesis by simp
qed

end
