(* ===== verification/Live_Oracles.thy ===== *)
theory Live_Oracles
  imports Subscriptions Backend
begin

text \<open>
  The oracle map of \<open>src/src/oraclemap.rs\<close> with its tasks and its handler thread, and the prices the client
  of \<open>src/src/lib.rs\<close> answers from it: a new backend whose oracle map has been subscribed serves for every
  perp market the newest price handled so far.
\<close>

section \<open>Tasks and handler\<close>

text \<open>
  The subscribers that spawned the tasks are clones that are dropped when subscribing returns, and with
  them the senders. A task puts the text of its oracle's key into every update.
\<close>

definition oracle_task :: "'d spawned" where
  "oracle_task = \<lparr>sp_task = ws_task_new, sp_signal = False, sp_sender = False\<rparr>"

definition oracle_ws :: "(pubkey \<Rightarrow> string) \<Rightarrow> pubkey list \<Rightarrow> nat \<Rightarrow>
    (ui_account, string \<times> ui_account) ws_config" where
  "oracle_ws key_text ks n = \<lparr>wc_base_delay = wc_base_delay (account_ws :: (ui_account, ui_account) ws_config),
     wc_decode = (\<lambda>account. Some (key_text (ks ! n), account)), wc_closed_ends = wc_closed_ends (account_ws :: (ui_account, ui_account) ws_config)\<rparr>"

definition as_update :: "u64 \<times> string \<times> ui_account \<Rightarrow> account_update" where
  "as_update = (\<lambda>(slot, k, account). \<lparr>au_pubkey = k, au_data = account, au_slot = slot\<rparr>)"

definition oracle_live :: "oracle_env \<Rightarrow> oracle_map \<Rightarrow> u64 \<times> string \<times> ui_account \<Rightarrow> oracle_map" where
  "oracle_live V s u = oracle_update V s (as_update u)"

interpretation oracle_pool: task_pool "oracle_ws key_text ks" fst "\<lambda>n. key_text (ks ! n)"
  for key_text :: "pubkey \<Rightarrow> string" and ks
  by unfold_locales (auto simp: oracle_ws_def)

section \<open>What a handler makes of an update\<close>

text \<open>An update the handler can read: it does not panic on it.\<close>

definition readable :: "oracle_env \<Rightarrow> account_update \<Rightarrow> bool" where
  "readable V update \<longleftrightarrow> parse_pubkey V (au_pubkey update) \<noteq> None \<and>
     (case ua_base64 (au_data update) of
        None \<Rightarrow> True
      | Some blob \<Rightarrow> base64_decode V blob \<noteq> None \<and> parse_pubkey V (ua_owner (au_data update)) \<noteq> None)"

text \<open>The entry an update gives, if its key is known, its data is binary and it has a price.\<close>

definition priced :: "oracle_env \<Rightarrow> (pubkey \<times> oracle_source) list \<Rightarrow> account_update \<Rightarrow> live_oracle option" where
  "priced V infos update =
     (case parse_pubkey V (au_pubkey update) of None \<Rightarrow> None | Some k \<Rightarrow>
      case map_of infos k of None \<Rightarrow> None | Some source \<Rightarrow>
      case ua_base64 (au_data update) of None \<Rightarrow> None | Some blob \<Rightarrow>
      case base64_decode V blob of None \<Rightarrow> None | Some data \<Rightarrow>
      case parse_pubkey V (ua_owner (au_data update)) of None \<Rightarrow> None | Some owner \<Rightarrow>
      case get_oracle_price V source k
          \<lparr>ra_data = data, ra_owner = owner, ra_lamports = ua_lamports (au_data update),
           ra_rent_epoch = ua_rent_epoch (au_data update)\<rparr> (au_slot update) of
        Inl _ \<Rightarrow> None
      | Inr price \<Rightarrow> Some \<lparr>or_pubkey = k, or_data = price, or_source = source, or_slot = au_slot update, or_raw = data\<rparr>)"

lemma readable_handler: "readable V u \<Longrightarrow> \<exists>m'. oracle_handler V infos m u = Inr m'"
  by (auto simp: readable_def oracle_handler_def split: option.splits sum.splits)

lemma handler_priced:
  assumes "oracle_handler V infos m u = Inr m'"
  shows "map_of m' k = (if parse_pubkey V (au_pubkey u) = Some k \<and> priced V infos u \<noteq> None
    then priced V infos u else map_of m k)"
  using assms unfolding oracle_handler_def priced_def bindE_def of_opt_def
  by (auto simp: update_conv' split: option.splits sum.splits)

definition handle_readable :: "oracle_env \<Rightarrow> (pubkey \<times> oracle_source) list \<Rightarrow> (pubkey \<times> live_oracle) list \<Rightarrow>
    account_update \<Rightarrow> (pubkey \<times> live_oracle) list" where
  "handle_readable V infos m u = (case oracle_handler V infos m u of Inl _ \<Rightarrow> m | Inr m' \<Rightarrow> m')"

lemma unreadable_not_priced: "oracle_handler V infos m u = Inl e \<Longrightarrow> priced V infos u = None"
  by (auto simp: oracle_handler_def priced_def bindE_def of_opt_def split: option.splits sum.splits)

interpretation oracle_store: value_store "\<lambda>u. parse_pubkey V (au_pubkey u)" "priced V infos"
    "\<lambda>m k. case k of None \<Rightarrow> None | Some k \<Rightarrow> map_of m k" "handle_readable V infos" for V infos
proof
  fix m u k
  show "(case k of None \<Rightarrow> None | Some k \<Rightarrow> map_of (handle_readable V infos m u) k) =
      (if parse_pubkey V (au_pubkey u) = k \<and> priced V infos u \<noteq> None then priced V infos u
       else case k of None \<Rightarrow> None | Some k \<Rightarrow> map_of m k)"
  proof (cases "oracle_handler V infos m u")
    case (Inl e)
    with unreadable_not_priced [OF Inl] show ?thesis by (simp add: handle_readable_def split: option.split)
  next
    case (Inr m')
    then show ?thesis
      using handler_priced [OF Inr] by (auto simp: handle_readable_def priced_def split: option.split)
  qed
qed

lemma live_fold:
  assumes "om_handlers s = [infos]" and "\<forall>u\<in>set us. readable V (as_update u)"
  shows "om_oraclemap (foldl (oracle_live V) s us) =
      foldl (handle_readable V infos) (om_oraclemap s) (map as_update us) \<and>
    om_handlers (foldl (oracle_live V) s us) = [infos] \<and>
    om_perp_oracles (foldl (oracle_live V) s us) = om_perp_oracles s"
  using assms
proof (induction us arbitrary: s)
  case (Cons u us)
  have "\<exists>m'. oracle_handler V infos (om_oraclemap s) (as_update u) = Inr m'"
    using Cons.prems(2) by (intro readable_handler) simp
  then show ?case
    using Cons.prems Cons.IH [of "oracle_live V s u"]
    by (simp add: oracle_live_def oracle_update_def handle_readable_def)
qed simp

text \<open>
  An entry is the newest: the one of the newest update that has a price, or an earlier one if there is none.
\<close>

definition newest_price :: "(u64 \<times> string \<times> ui_account \<Rightarrow> live_oracle option) \<Rightarrow> (u64 \<times> string \<times> ui_account) list \<Rightarrow>
    live_oracle option \<Rightarrow> live_oracle option \<Rightarrow> bool" where
  "newest_price price us before r \<longleftrightarrow>
     (if \<exists>u\<in>set us. price u \<noteq> None
      then \<exists>u\<in>set us. price u = r \<and> r \<noteq> None \<and> (\<forall>v\<in>set us. price v \<noteq> None \<longrightarrow> fst v \<le> fst u)
      else r = before)"

lemma case_map_list: "(case map f xs of [] \<Rightarrow> a | y # _ \<Rightarrow> g y) = (case xs of [] \<Rightarrow> a | x # _ \<Rightarrow> g (f x))"
  by (cases xs) simp_all

lemma live_lookup:
  assumes "om_handlers s = [infos]" and "\<forall>u\<in>set us. readable V (as_update u)"
    and "parse_pubkey V text_key = Some k"
    and "\<forall>u\<in>set us. parse_pubkey V (fst (snd u)) = Some k \<longrightarrow> fst (snd u) = text_key"
    and "sorted (map fst (filter (\<lambda>u. fst (snd u) = text_key) us))"
  shows "newest_price (\<lambda>u. priced V infos (as_update u)) (filter (\<lambda>u. fst (snd u) = text_key) us)
    (oracle_map_get s k) (oracle_map_get (foldl (oracle_live V) s us) k)"
proof -
  let ?own = "filter (\<lambda>u. fst (snd u) = text_key) us"
  let ?P = "\<lambda>u. priced V infos (as_update u) \<noteq> None"
  have own: "parse_pubkey V (fst (snd u)) = Some k \<longleftrightarrow> fst (snd u) = text_key" if "u \<in> set us" for u
  proof
    assume "parse_pubkey V (fst (snd u)) = Some k"
    with that assms(4) show "fst (snd u) = text_key" by blast
  qed (simp add: assms(3))
  have "filter (\<lambda>m. parse_pubkey V (au_pubkey m) = Some k \<and> priced V infos m \<noteq> None) (rev (map as_update us)) =
      map as_update (filter (\<lambda>u. parse_pubkey V (fst (snd u)) = Some k \<and> ?P u) (rev us))"
    by (simp add: rev_map filter_map comp_def as_update_def case_prod_beta)
  also have "filter (\<lambda>u. parse_pubkey V (fst (snd u)) = Some k \<and> ?P u) (rev us) = filter ?P (rev ?own)"
    unfolding rev_filter [symmetric] filter_filter by (intro arg_cong [where f = rev] filter_cong) (simp_all add: own conj_commute)
  finally have own_updates: "filter (\<lambda>m. parse_pubkey V (au_pubkey m) = Some k \<and> priced V infos m \<noteq> None)
      (rev (map as_update us)) = map as_update (filter ?P (rev ?own))" .
  have "oracle_map_get (foldl (oracle_live V) s us) k =
      map_of (foldl (handle_readable V infos) (om_oraclemap s) (map as_update us)) k"
    using live_fold [OF assms(1,2)] by (simp add: oracle_map_get_def)
  also have "\<dots> = (case map as_update (filter ?P (rev ?own)) of [] \<Rightarrow> map_of (om_oraclemap s) k | m # _ \<Rightarrow> priced V infos m)"
    using oracle_store.lookup_run [of V infos "om_oraclemap s" "map as_update us" "Some k"]
    unfolding own_updates option.case .
  finally have lookup: "oracle_map_get (foldl (oracle_live V) s us) k =
      (case filter ?P (rev ?own) of [] \<Rightarrow> oracle_map_get s k | u # _ \<Rightarrow> priced V infos (as_update u))"
    unfolding case_map_list oracle_map_get_def .
  show ?thesis
  proof (cases "filter ?P (rev ?own)")
    case Nil
    then have "\<not> (\<exists>u\<in>set ?own. ?P u)" unfolding filter_empty_conv set_rev by blast
    then show ?thesis unfolding newest_price_def lookup Nil list.case by (simp only: if_False)
  next
    case (Cons u rest)
    note newest = filter_rev_newest [OF assms(5) Cons]
    note u = conjunct1 [OF newest] conjunct1 [OF conjunct2 [OF newest]] conjunct2 [OF conjunct2 [OF newest]]
    from u(1,2) have ex: "\<exists>u\<in>set ?own. ?P u" by (rule bexI [rotated])
    show ?thesis unfolding newest_price_def lookup Cons list.case if_P [OF ex]
      by (intro bexI [OF _ u(1)] conjI refl u(2,3))
  qed
qed

section \<open>Subscribing a new oracle map\<close>

lemma collect_map_distinct: "distinct (map fst (collect_map kvs))"
proof (induction kvs rule: rev_induct)
  case (snoc kv kvs)
  then show ?case by (cases kv) (simp add: collect_map_def distinct_update)
qed (simp add: collect_map_def)

lemma oracle_sync_kept:
  "oracle_sync_accounts V slot xs s = (s', e) \<Longrightarrow> om_oracle_infos s' = om_oracle_infos s \<and>
    om_subscribed s' = om_subscribed s \<and> om_handlers s' = om_handlers s \<and> om_tasks s' = om_tasks s \<and>
    om_perp_oracles s' = om_perp_oracles s"
  by (induction V slot xs s rule: oracle_sync_accounts.induct) (auto split: sum.splits)

lemma oracle_map_sync_kept:
  assumes "oracle_map_sync V locked fetched s = Inr (s', e)"
  shows "om_oracle_infos s' = om_oracle_infos s \<and>
    om_subscribed s' = om_subscribed s \<and> om_handlers s' = om_handlers s \<and> om_tasks s' = om_tasks s \<and>
    om_perp_oracles s' = om_perp_oracles s"
  using assms oracle_sync_kept
  by (auto simp: oracle_map_sync_def returns Let_def split: if_splits sum.splits prod.splits)

lemma spawned_tasks:
  "map fst (filter (\<lambda>(_, w). snd (ws_subscribe w)) (map (\<lambda>(k, _). new_oracle_subscriber url k) infos)) = map fst infos"
  by (simp add: new_oracle_subscriber_def ws_subscribe_def ws_subscriber_new_def filter_map comp_def case_prod_beta)

lemma first_oracle_subscription:
  assumes "oracle_map_subscribe V (Some url) False fetched s = Inr (m, None)"
    and "\<not> om_subscribed s" and "om_sync_lock s" and "om_handlers s = []" and "om_tasks s = []"
  obtains t where "oracle_map_sync V False fetched s = Inr (t, None)"
    and "om_handlers m = [om_oracle_infos s]" and "om_tasks m = map fst (om_oracle_infos s)"
    and "om_oraclemap m = om_oraclemap t" and "om_perp_oracles m = om_perp_oracles s"
proof -
  from assms(1,3) obtain t where
    t: "oracle_map_sync V False fetched s = Inr (t, None)" by (auto simp: oracle_map_subscribe_def returns split: option.splits)
  note kept = oracle_map_sync_kept [OF t]
  have "m = t\<lparr>om_subscribed := True, om_handlers := om_handlers t @ [om_oracle_infos t],
      om_tasks := om_tasks t @ map fst (om_oracle_infos t),
      om_oracle_subscribers := map (\<lambda>(k, _). new_oracle_subscriber url k) (om_oracle_infos t)\<rparr>"
    using assms(1-3) kept unfolding oracle_map_subscribe_def t
    by (simp add: Let_def spawned_tasks t)
  then show ?thesis using that [OF t] kept assms(4,5) by simp
qed

text \<open>What the tasks of a fresh subscription and its handler have done, for every key of the map.\<close>

lemma oracles_delivered:
  assumes "deliveries (oracle_ws key_text ks) (oracle_live V)
      \<lparr>dv_tasks = map (\<lambda>_. oracle_task) ks, dv_queues = [[]], dv_store = m\<rparr> events c"
    and "\<And>k. parse_pubkey V (key_text k) = Some k" and "distinct ks"
  obtains handled where "length (dv_tasks c) = length ks" and "dv_store c = foldl (oracle_live V) m handled"
    and "\<And>u. u \<in> set handled \<Longrightarrow> \<exists>n<length ks. fst (snd u) = key_text (ks ! n)"
    and "\<And>n. n < length ks \<Longrightarrow> filter (\<lambda>u. fst (snd u) = key_text (ks ! n)) (handled @ hd (dv_queues c)) =
      wt_emitted (sp_task (dv_tasks c ! n))"
    and "\<And>n. n < length ks \<Longrightarrow>
      sorted (map fst (filter (\<lambda>u. fst (snd u) = key_text (ks ! n)) (handled @ hd (dv_queues c))))"
proof -
  let ?label = "\<lambda>n. key_text (ks ! n)"
  let ?c0 = "\<lparr>dv_tasks = map (\<lambda>_. oracle_task) ks, dv_queues = [[]], dv_store = m\<rparr>"
  have inj: "inj_on ?label {..<length ks}"
  proof
    fix x y assume "x \<in> {..<length ks}" "y \<in> {..<length ks}" "?label x = ?label y"
    moreover from this(3) assms(2) have "ks ! x = ks ! y" by (metis option.inject)
    ultimately show "x = y" using assms(3) by (simp add: nth_eq_iff_index_eq)
  qed
  have "pool_ok fst ?label (oracle_ws key_text ks) (oracle_live V) (length ks) m ?c0 []"
    using oracle_pool.pool_start [of ?c0 "length ks"] by (simp add: oracle_task_def comp_def map_replicate_const)
  from oracle_pool.pool_run [OF assms(1) this inj] obtain handled where
    ok: "pool_ok fst ?label (oracle_ws key_text ks) (oracle_live V) (length ks) m c handled" by blast
  then show ?thesis
    using that [of handled] oracle_pool.pool_sorted [OF ok] by (simp add: pool_ok_def)
qed

lemma handled_readable:
  assumes "length (dv_tasks c) = length ks"
    and "\<And>u. u \<in> set handled \<Longrightarrow> \<exists>n<length ks. fst (snd u) = key_text (ks ! n)"
    and "\<And>n. n < length ks \<Longrightarrow> filter (\<lambda>u. fst (snd u) = key_text (ks ! n)) (handled @ pending) =
      wt_emitted (sp_task (dv_tasks c ! n))"
    and "\<forall>t\<in>set (dv_tasks c). \<forall>u\<in>set (wt_emitted (sp_task t)). readable V (as_update u)"
  shows "\<forall>u\<in>set handled. readable V (as_update u)"
proof
  fix u assume u: "u \<in> set handled"
  then obtain k where k: "k < length ks" "fst (snd u) = key_text (ks ! k)" using assms(2) by blast
  then have "u \<in> set (wt_emitted (sp_task (dv_tasks c ! k)))" using u by (simp add: assms(3) [OF k(1), symmetric])
  with assms(1,4) k(1) show "readable V (as_update u)" by auto
qed

section \<open>The client's price\<close>

text \<open>What a new backend has once its oracle map is subscribed: a task and a price for every market's oracle.\<close>

lemma subscribed_backend:
  assumes "backend_new C P D ws_url endpoint context decode_perp decode_spot A = Inr b"
    and "oracle_map_subscribe V (Some url) False fetched (be_oracle_map b) = Inr (m, None)"
    and "\<And>ks. fetched ks = Inr (slot, accounts ks) \<and> None \<notin> set (accounts ks)"
    and "market_map_get (be_perp_market_map b) i = Some d"
  obtains n r0 where "distinct (map fst (om_oracle_infos (be_oracle_map b)))"
    "om_handlers m = [om_oracle_infos (be_oracle_map b)]" "om_tasks m = map fst (om_oracle_infos (be_oracle_map b))"
    "om_perp_oracles m = om_perp_oracles (be_oracle_map b)"
    "current_perp_oracle (be_oracle_map b) i = Some (pm_amm_oracle (das_data d))"
    "n < length (om_tasks m)" "om_tasks m ! n = pm_amm_oracle (das_data d)"
    "oracle_map_get m (pm_amm_oracle (das_data d)) = Some r0" "or_slot r0 = slot"
proof -
  let ?infos = "om_oracle_infos (be_oracle_map b)" and ?k = "pm_amm_oracle (das_data d)"
  let ?ks = "map fst ?infos"
  have map_new: "\<not> om_subscribed (be_oracle_map b)" "om_sync_lock (be_oracle_map b)"
    "om_handlers (be_oracle_map b) = []" "om_tasks (be_oracle_map b) = []" "distinct ?ks"
    using new_backend_maps(3) [OF assms(1)] by (simp_all add: oracle_map_new_def Let_def collect_map_distinct)
  obtain t where t: "oracle_map_sync V False fetched (be_oracle_map b) = Inr (t, None)"
    and m: "om_handlers m = [?infos]" "om_tasks m = ?ks" "om_oraclemap m = om_oraclemap t"
      "om_perp_oracles m = om_perp_oracles (be_oracle_map b)"
    using first_oracle_subscription [OF assms(2) map_new(1-4)] by blast
  obtain r0 where r0: "oracle_for_perp_market (b\<lparr>be_oracle_map := t\<rparr>) i = Inr (Some r0, None)" "or_slot r0 = slot"
    using new_backend_has_prices [OF assms(1) t assms(3,4)] by blast
  have current: "current_perp_oracle (be_oracle_map b) i = Some ?k" "oracle_map_contains (be_oracle_map b) ?k"
    by (rule new_backend_perp [OF assms(1,4)])+
  then obtain n where n: "n < length ?ks" "?ks ! n = ?k"
    by (auto simp: oracle_map_contains_def map_of_eq_None_iff in_set_conv_nth)
  have before: "oracle_map_get m ?k = Some r0"
    using r0(1) assms(4) current(1) oracle_map_sync_kept [OF t] m(3)
    by (simp add: oracle_for_perp_market_def current_perp_oracle_def oracle_map_get_def Let_def)
  show ?thesis
    by (rule that [OF map_new(5) m(1,2,4) current(1) _ _ before r0(2)]) (use n in \<open>simp_all only: m(2)\<close>)
qed

text \<open>
  C13. A new backend that has subscribed its oracle map answers, for every perp market it knows, over every
  interleaving of the oracles' tasks and the handler thread: the price of the newest handled account of the
  market's oracle that has a price, or the synchronized one as long as there is none. Nothing that is still
  pending for the oracle is older than what has been handled, and the answer starts no task.
\<close>

theorem client_serves_newest_price:
  assumes "backend_new C P D ws_url endpoint context decode_perp decode_spot A = Inr b"
    and "oracle_map_subscribe V (Some url) False fetched (be_oracle_map b) = Inr (m, None)"
    and "\<And>ks. fetched ks = Inr (slot, accounts ks) \<and> None \<notin> set (accounts ks)"
    and "\<And>k. parse_pubkey V (key_text k) = Some k"
    and "deliveries (oracle_ws key_text (om_tasks m)) (oracle_live V)
      \<lparr>dv_tasks = map (\<lambda>_. oracle_task) (om_tasks m), dv_queues = [[]], dv_store = m\<rparr> events c"
    and "\<forall>t\<in>set (dv_tasks c). \<forall>u\<in>set (wt_emitted (sp_task t)). readable V (as_update u)"
    and "market_map_get (be_perp_market_map b) i = Some d"
  shows "\<exists>n handled pending r0 r. n < length (om_tasks m) \<and> om_tasks m ! n = pm_amm_oracle (das_data d) \<and>
    wt_emitted (sp_task (dv_tasks c ! n)) = handled @ pending \<and> sorted (map fst (handled @ pending)) \<and>
    pending = filter (\<lambda>u. fst (snd u) = key_text (om_tasks m ! n)) (hd (dv_queues c)) \<and>
    or_slot r0 = slot \<and>
    newest_price (\<lambda>u. priced V (om_oracle_infos (be_oracle_map b)) (as_update u)) handled (Some r0) (Some r) \<and>
    oracle_for_perp_market (b\<lparr>be_oracle_map := dv_store c\<rparr>) i = Inr (Some r, None)"
proof -
  let ?infos = "om_oracle_infos (be_oracle_map b)" and ?k = "pm_amm_oracle (das_data d)"
  let ?ks = "map fst ?infos"
  obtain n0 r0 where map_new: "distinct ?ks" and m: "om_handlers m = [?infos]" "om_tasks m = ?ks"
      "om_perp_oracles m = om_perp_oracles (be_oracle_map b)"
    and current: "current_perp_oracle (be_oracle_map b) i = Some ?k" and n0: "n0 < length (om_tasks m)" "om_tasks m ! n0 = ?k"
    and before: "oracle_map_get m ?k = Some r0" and r0: "or_slot r0 = slot"
    by (rule subscribed_backend [OF assms(1,2,3,7)])
  have n: "n0 < length ?ks" "?ks ! n0 = ?k" using n0 by (simp_all only: m(2))
  from assms(5) have "deliveries (oracle_ws key_text ?ks) (oracle_live V)
      \<lparr>dv_tasks = map (\<lambda>_. oracle_task) ?ks, dv_queues = [[]], dv_store = m\<rparr> events c" by (simp only: m(2))
  from oracles_delivered [OF this assms(4) map_new] obtain handled where
    len: "length (dv_tasks c) = length ?ks" and store: "dv_store c = foldl (oracle_live V) m handled"
    and tags: "\<And>u. u \<in> set handled \<Longrightarrow> \<exists>n<length ?ks. fst (snd u) = key_text (?ks ! n)"
    and own: "\<And>n. n < length ?ks \<Longrightarrow> filter (\<lambda>u. fst (snd u) = key_text (?ks ! n)) (handled @ hd (dv_queues c)) =
      wt_emitted (sp_task (dv_tasks c ! n))"
    and in_order: "\<And>n. n < length ?ks \<Longrightarrow>
      sorted (map fst (filter (\<lambda>u. fst (snd u) = key_text (?ks ! n)) (handled @ hd (dv_queues c))))" by blast
  let ?queue = "hd (dv_queues c)"
  note readable_handled = handled_readable [OF len tags own assms(6)]
  have key: "fst (snd u) = key_text ?k" if "u \<in> set handled" "parse_pubkey V (fst (snd u)) = Some ?k" for u
    using that tags assms(4) by (metis option.inject)
  let ?mine = "\<lambda>u. fst (snd u) = key_text ?k"
  have sorted: "sorted (map fst (filter ?mine (handled @ ?queue)))"
    using in_order [OF n(1)] n(2) by simp
  have "newest_price (\<lambda>u. priced V ?infos (as_update u)) (filter ?mine handled) (Some r0) (oracle_map_get (dv_store c) ?k)"
    unfolding store before [symmetric]
    by (rule live_lookup [OF m(1) readable_handled assms(4)])
      (use key sorted in \<open>auto simp: sorted_append\<close>)
  moreover from this obtain r where r: "oracle_map_get (dv_store c) ?k = Some r"
    by (auto simp: newest_price_def split: if_splits)
  moreover have "oracle_for_perp_market (b\<lparr>be_oracle_map := dv_store c\<rparr>) i = Inr (Some r, None)"
    using assms(7) current r live_fold [OF m(1) readable_handled] m(3)
    by (simp add: oracle_for_perp_market_def current_perp_oracle_def store Let_def)
  ultimately show ?thesis
    using n r0 own [OF n(1)] sorted
    by (intro exI [of _ n0] exI [of _ "filter ?mine handled"] exI [of _ "filter ?mine ?queue"] exI [of _ r0] exI [of _ r])
      (simp add: m(2))
qed

text \<open>
  A market that appears after the backend was made has no current oracle: asking for its price panics.
\<close>

theorem new_market_price_panics:
  assumes "backend_new C P D ws_url endpoint context decode_perp decode_spot A = Inr b"
    and "market_map_get (be_perp_market_map b) i = None" and "pm_market_index m = i"
  shows "oracle_for_perp_market (b\<lparr>be_perp_market_map := market_update perp_market_kind (be_perp_market_map b)
    \<lparr>das_slot = slot, das_data = m\<rparr>\<rparr>) i = Inl (Panic ''oracle'')"
proof -
  let ?oracles = "map (\<lambda>(market_index, pubkey, _). (market_index, pubkey))
    (market_map_oracles perp_market_kind (be_perp_market_map b))"
  have "i \<notin> fst ` set ?oracles"
  proof
    assume "i \<in> fst ` set ?oracles"
    then obtain x where x: "x \<in> set (mm_marketmap (be_perp_market_map b))" "pm_market_index (das_data (snd x)) = i"
      by (auto simp: market_map_oracles_def market_map_values_def perp_market_kind_def)
    then have "map_of (mm_marketmap (be_perp_market_map b)) (fst x) = Some (snd x)"
      using new_backend_maps(1) [OF assms(1)] by (intro map_of_is_SomeI) (simp_all add: keyed_by_index_def)
    moreover from this new_backend_maps(1) [OF assms(1)]
    have "mt_market_index perp_market_kind (das_data (snd x)) = fst x" unfolding keyed_by_index_def by blast
    then have "fst x = i" using x(2) by (simp add: perp_market_kind_def)
    ultimately show False using assms(2) by (simp add: market_map_get_def)
  qed
  then have "current_perp_oracle (be_oracle_map b) i = None"
    unfolding new_backend_maps(3) [OF assms(1)]
    by (simp add: current_perp_oracle_def oracle_map_new_def Let_def collect_map_of map_of_eq_None_iff)
  then show ?thesis
    using assms(3) by (simp add: oracle_for_perp_market_def market_store.lookup_update perp_market_kind_def)
qed

theorem new_market_price_panics_witness:
  "\<exists>b. sample_new_backend = Inr b \<and>
     oracle_for_perp_market (b\<lparr>be_perp_market_map := market_update perp_market_kind (be_perp_market_map b)
       \<lparr>das_slot = 9, das_data = sample_perp_market 4\<rparr>\<rparr>) 4 = Inl (Panic ''oracle'')"
proof -
  obtain b where b: "sample_new_backend = Inr b" "map fst (mm_marketmap (be_perp_market_map b)) = [3]"
    using sample_new_backend by (elim exE conjE)
  then have "fst ` set (mm_marketmap (be_perp_market_map b)) = {3}" by (metis list.set_map list.simps(15) empty_set)
  then have "market_map_get (be_perp_market_map b) 4 = None"
    by (simp add: market_map_get_def map_of_eq_None_iff)
  with new_market_price_panics [OF b(1), of 4 "sample_perp_market 4" 9] b(1) show ?thesis
    by (simp add: sample_perp_market_def)
qed

section \<open>Tasks that spin\<close>

definition abandoned :: "'d spawned \<Rightarrow> bool" where
  "abandoned t \<longleftrightarrow> \<not> sp_signal t \<and> \<not> sp_sender t \<and> wt_phase (sp_task t) \<noteq> Ended None"

lemma deliver_abandoned:
  assumes "deliver (oracle_ws key_text ks) handler c e c'" and "list_all abandoned (dv_tasks c)"
  shows "list_all abandoned (dv_tasks c')"
  using assms(1)
proof (cases rule: deliver.cases)
  case (reaches n i t)
  have a: "abandoned (dv_tasks c ! n)" using assms(2) reaches(3) by (simp add: list_all_length)
  have "abandoned ((receive i (dv_tasks c ! n))\<lparr>sp_task := t\<rparr>)"
    using reaches(5) a reaches(4)
    by (cases rule: ws_step.cases)
      (auto simp: abandoned_def receive_def may_receive_def oracle_ws_def account_ws_def ws_backoff_def Let_def
        split: if_splits)
  then show ?thesis using assms(2) by (simp add: reaches(2,3) list_all_length nth_list_update)
qed (use assms(2) in simp)

text \<open>
  No oracle task is ever unsubscribed, and while it streams it never waits: its senders were dropped, so
  the other branch of its loop is ready at once, over and over, and changes nothing.
\<close>

theorem oracle_task_spins:
  assumes "deliveries (oracle_ws key_text ks) handler
      \<lparr>dv_tasks = map (\<lambda>_. oracle_task) ks, dv_queues = queues, dv_store = m\<rparr> events c"
    and "n < length (dv_tasks c)"
  shows "wt_phase (sp_task (dv_tasks c ! n)) \<noteq> Ended None \<and>
    (wt_phase (sp_task (dv_tasks c ! n)) = Streaming \<longrightarrow>
     deliver (oracle_ws key_text ks) handler c (Reaches n (Unsub False)) c)"
proof -
  have "list_all abandoned (dv_tasks c)"
    using assms(1)
  proof (induction rule: deliveries.induct)
    case none
    then show ?case by (simp add: list_all_iff abandoned_def oracle_task_def ws_task_new_def)
  qed (rule deliver_abandoned)
  then have a: "abandoned (dv_tasks c ! n)" using assms(2) by (simp add: list_all_length)
  have "deliver (oracle_ws key_text ks) handler c (Reaches n (Unsub False)) c"
    if "wt_phase (sp_task (dv_tasks c ! n)) = Streaming"
  proof -
    have "ws_step (oracle_ws key_text ks n) (sp_task (dv_tasks c ! n)) (Unsub False) (sp_task (dv_tasks c ! n))"
      by (rule ws_step.unsub_closed [OF that]) (simp_all add: oracle_ws_def account_ws_def)
    have "(dv_tasks c ! n)\<lparr>sp_signal := False\<rparr> = dv_tasks c ! n"
      using a by (cases "dv_tasks c ! n") (simp add: abandoned_def)
    with deliver.reaches [OF assms(2), of "Unsub False" "oracle_ws key_text ks", OF _ \<open>ws_step _ _ _ _\<close>, of handler] a
    show ?thesis
      by (simp add: may_receive_def receive_def abandoned_def emitted_by_def)
  qed
  with a show ?thesis by (simp add: abandoned_def)
qed

section \<open>A sample run\<close>

definition length_env :: oracle_env where
  "length_env = \<lparr>parse_pubkey = (\<lambda>s. Some (of_nat (length s))), base64_decode = (\<lambda>s. Some (map of_char s)),
     get_oracle_price = (\<lambda>_ _ _ _. Inr \<lparr>opd_price = 5, opd_confidence = 0, opd_delay = 0,
       opd_has_sufficient_number_of_data_points = True\<rparr>)\<rparr>"

definition length_text :: "pubkey \<Rightarrow> string" where
  "length_text k = replicate (unat k) CHR ''a''"

lemma length_env_parse: "parse_pubkey length_env (length_text k) = Some k"
  by (simp add: length_env_def length_text_def)

definition sample_oracle_account :: ui_account where
  "sample_oracle_account = \<lparr>ua_base64 = Some ''AA'', ua_owner = ''a'', ua_lamports = 1, ua_rent_epoch = 0\<rparr>"

lemma sample_oracle_run:
  "\<exists>c. deliveries (oracle_ws length_text [300]) (oracle_live length_env)
      \<lparr>dv_tasks = map (\<lambda>_. oracle_task) [300 :: pubkey], dv_queues = [[]], dv_store = m\<rparr>
      [Reaches 0 SubscribeOk, Reaches 0 (Message 20 sample_oracle_account), Handles 0] c \<and>
    map (wt_emitted \<circ> sp_task) (dv_tasks c) = [[(20, length_text 300, sample_oracle_account)]] \<and> dv_queues c = [[]]"
proof -
  let ?W = "oracle_ws length_text [300]" and ?H = "oracle_live length_env"
  let ?u = "(20, length_text 300, sample_oracle_account)"
  let ?c0 = "\<lparr>dv_tasks = [oracle_task], dv_queues = [[]], dv_store = m\<rparr>"
  let ?c1 = "?c0\<lparr>dv_tasks := [\<lparr>sp_task = streaming [] 0, sp_signal = False, sp_sender = False\<rparr>]\<rparr>"
  let ?c2 = "?c1\<lparr>dv_tasks := [\<lparr>sp_task = streaming [?u] 20, sp_signal = False, sp_sender = False\<rparr>],
    dv_queues := [[?u]]\<rparr>"
  have 1: "deliver ?W ?H ?c0 (Reaches 0 SubscribeOk) ?c1"
    by (rule deliver_connect [of 0 _ False False]) (simp_all add: oracle_task_def)
  have 2: "deliver ?W ?H ?c1 (Reaches 0 (Message 20 sample_oracle_account)) ?c2"
    by (rule deliver_message [of 0 _ "[]" 0 False False]) (simp_all add: oracle_ws_def)
  have 3: "deliver ?W ?H ?c2 (Handles 0) (?c2\<lparr>dv_store := ?H (dv_store ?c2) ?u, dv_queues := (dv_queues ?c2)[0 := []]\<rparr>)"
    by (rule deliver.handles) simp_all
  from deliveries.more [OF deliveries.more [OF deliveries.more [OF deliveries.none 1] 2] 3] show ?thesis
    by (intro exI conjI) (simp, simp_all add: streaming_def)
qed

theorem client_serves_newest_price_witness:
  "\<exists>b m c r. sample_new_backend = Inr b \<and>
     oracle_map_subscribe length_env (Some ''ws://x'') False
       (\<lambda>ks. Inr (12, map (\<lambda>k. Some \<lparr>ra_data = [1], ra_owner = k, ra_lamports = 1, ra_rent_epoch = 0\<rparr>) ks))
       (be_oracle_map b) = Inr (m, None) \<and>
     deliveries (oracle_ws length_text (om_tasks m)) (oracle_live length_env)
       \<lparr>dv_tasks = map (\<lambda>_. oracle_task) (om_tasks m), dv_queues = [[]], dv_store = m\<rparr>
       [Reaches 0 SubscribeOk, Reaches 0 (Message 20 sample_oracle_account), Handles 0] c \<and>
     oracle_for_perp_market (b\<lparr>be_oracle_map := dv_store c\<rparr>) 3 = Inr (Some r, None) \<and> or_slot r = 20"
proof -
  obtain b where b: "sample_new_backend = Inr b"
    "market_map_get (be_perp_market_map b) 3 = Some \<lparr>das_slot = 9, das_data = sample_perp_market 3\<rparr>"
    "om_sync_lock (be_oracle_map b)" "map fst (om_oracle_infos (be_oracle_map b)) = [300]"
    using sample_new_backend by (elim exE conjE)
  let ?accounts = "map (\<lambda>k. Some \<lparr>ra_data = [1], ra_owner = k, ra_lamports = 1, ra_rent_epoch = 0\<rparr>)"
  let ?fetched = "\<lambda>ks. Inr (12, ?accounts ks) :: sdk_error + u64 \<times> rpc_account option list"
  obtain source where infos: "om_oracle_infos (be_oracle_map b) = [(300, source)]"
    using b(4) by (cases "om_oracle_infos (be_oracle_map b)") auto
  have new: "\<not> om_subscribed (be_oracle_map b)" "om_handlers (be_oracle_map b) = []" "om_tasks (be_oracle_map b) = []"
    using new_backend_maps(3) [OF b(1)] by (simp_all add: oracle_map_new_def Let_def)
  have "\<exists>t. oracle_map_sync length_env False ?fetched (be_oracle_map b) = Inr (t, None)"
    using b(3) infos by (simp add: oracle_map_sync_def length_env_def)
  then obtain t where t: "oracle_map_sync length_env False ?fetched (be_oracle_map b) = Inr (t, None)" ..
  then have "\<exists>m. oracle_map_subscribe length_env (Some ''ws://x'') False ?fetched (be_oracle_map b) = Inr (m, None)"
    using new(1) b(3) oracle_map_sync_kept [OF t] by (simp add: oracle_map_subscribe_def t Let_def)
  then obtain m where m: "oracle_map_subscribe length_env (Some ''ws://x'') False ?fetched (be_oracle_map b) = Inr (m, None)" ..
  have ks: "om_tasks m = [300]"
    by (rule first_oracle_subscription [OF m new(1) b(3) new(2,3)]) (simp add: infos)
  obtain c where c: "deliveries (oracle_ws length_text (om_tasks m)) (oracle_live length_env)
       \<lparr>dv_tasks = map (\<lambda>_. oracle_task) (om_tasks m), dv_queues = [[]], dv_store = m\<rparr>
       [Reaches 0 SubscribeOk, Reaches 0 (Message 20 sample_oracle_account), Handles 0] c"
    "map (wt_emitted \<circ> sp_task) (dv_tasks c) = [[(20, length_text 300, sample_oracle_account)]]" "dv_queues c = [[]]"
    unfolding ks using sample_oracle_run [of m] by (elim exE conjE)
  then obtain x where x: "dv_tasks c = [x]" "wt_emitted (sp_task x) = [(20, length_text 300, sample_oracle_account)]"
    by auto
  have accounts: "?fetched ks = Inr (12, ?accounts ks) \<and> None \<notin> set (?accounts ks)" for ks by auto
  have readable: "\<forall>t\<in>set (dv_tasks c). \<forall>u\<in>set (wt_emitted (sp_task t)). readable length_env (as_update u)"
    by (simp add: x readable_def as_update_def length_env_def sample_oracle_account_def)
  have price: "\<exists>r. priced length_env [(300, source)] (as_update (20, length_text 300, sample_oracle_account)) = Some r \<and> or_slot r = 20"
    by (simp add: priced_def as_update_def length_env_def sample_oracle_account_def length_text_def)
  obtain n handled pending r0 r where p: "n < length (om_tasks m)"
    "wt_emitted (sp_task (dv_tasks c ! n)) = handled @ pending"
    "pending = filter (\<lambda>u. fst (snd u) = length_text (om_tasks m ! n)) (hd (dv_queues c))"
    "newest_price (\<lambda>u. priced length_env (om_oracle_infos (be_oracle_map b)) (as_update u)) handled (Some r0) (Some r)"
    "oracle_for_perp_market (b\<lparr>be_oracle_map := dv_store c\<rparr>) 3 = Inr (Some r, None)"
    using client_serves_newest_price [OF b(1) m accounts length_env_parse c(1) readable b(2)]
    by (elim exE conjE)
  then have "handled = [(20, length_text 300, sample_oracle_account)]"
    by (simp add: ks x c(3))
  with p(4) price have "or_slot r = 20" unfolding infos by (auto simp: newest_price_def)
  with b(1) m c(1) p(5) show ?thesis by (intro exI conjI) assumption+
qed

theorem oracle_task_spins_witness:
  "\<exists>c :: (string \<times> ui_account, oracle_map) delivery. deliver (oracle_ws length_text [300]) (oracle_live length_env) c (Reaches 0 (Unsub False)) c \<and>
     map (wt_phase \<circ> sp_task) (dv_tasks c) = [Streaming]"
proof -
  let ?c0 = "\<lparr>dv_tasks = map (\<lambda>_. oracle_task) [300 :: pubkey], dv_queues = [[]], dv_store = sample_oracles\<rparr>"
  let ?c1 = "?c0\<lparr>dv_tasks := [\<lparr>sp_task = streaming [] 0, sp_signal = False, sp_sender = False\<rparr>]\<rparr>"
  have "deliver (oracle_ws length_text [300]) (oracle_live length_env) ?c0 (Reaches 0 SubscribeOk) ?c1"
    by (rule deliver_connect [of 0 _ False False]) (simp_all add: oracle_task_def)
  from oracle_task_spins [OF deliveries.more [OF deliveries.none this], of 0] show ?thesis
    by (intro exI [of _ ?c1]) (simp add: streaming_def)
qed

end
