(* ===== verification/Chain_Tasks.thy ===== *)
theory Chain_Tasks
  imports Backend
begin

text \<open>
  The two tasks that follow the chain itself: the slot task of \<open>src/src/slot_subscriber.rs\<close> as a step
  relation over what reaches it, and the block hash task of \<open>src/src/blockhash_subscriber.rs\<close> as a loop over
  the node's answers, with the hash a transaction of \<open>src/src/lib.rs\<close> is signed with.
\<close>

section \<open>The slot task\<close>

datatype slot_phase = Requesting | Following | Stopped "string option"

record slot_task =
  sk_subscriber :: slot_subscriber
  sk_phase :: slot_phase
  sk_signal :: bool
  sk_sender :: bool

text \<open>The answer to the subscription, slots, the end of the stream, and the receiver of the signal being ready.\<close>

datatype slot_input = Accepted | Refused | Slot u64 | SlotsEnd | Signalled

definition unwrap_error :: string where
  "unwrap_error = ''called `Result::unwrap()` on an `Err` value''"

definition slot_subscribe_ws :: "slot_subscriber \<Rightarrow> slot_task" where
  "slot_subscribe_ws s = \<lparr>sk_subscriber = s\<lparr>ss_unsubscriber := True\<rparr>, sk_phase = Requesting, sk_signal = False,
     sk_sender = True\<rparr>"

text \<open>
  \<open>subscribe\<close> with a node that accepts the connection: the flag is set before the task is started, and a
  subscriber that has the flag starts none.
\<close>

definition slot_owner_subscribes :: "slot_subscriber \<Rightarrow> slot_task option" where
  "slot_owner_subscribes s = (if ss_subscribed s then None else Some (slot_subscribe_ws (s\<lparr>ss_subscribed := True\<rparr>)))"

lemma slot_owner_subscribes_subscriber:
  "slot_owner_subscribes s = Some t \<Longrightarrow> slot_subscribe None s = (sk_subscriber t, None)"
  by (auto simp: slot_owner_subscribes_def slot_subscribe_ws_def slot_subscribe_def Let_def split: if_splits)

inductive slot_step :: "slot_task \<Rightarrow> slot_input \<Rightarrow> slot_task \<Rightarrow> bool" where
  accepted: "sk_phase t = Requesting \<Longrightarrow> slot_step t Accepted (t\<lparr>sk_phase := Following\<rparr>)"
| refused: "sk_phase t = Requesting \<Longrightarrow> slot_step t Refused (t\<lparr>sk_phase := Stopped (Some unwrap_error)\<rparr>)"
| slot: "sk_phase t = Following \<Longrightarrow>
    slot_step t (Slot s) (t\<lparr>sk_subscriber := slot_message (sk_subscriber t) s\<rparr>)"
| slots_end: "sk_phase t = Following \<Longrightarrow> slot_step t SlotsEnd (t\<lparr>sk_phase := Stopped None\<rparr>)"
| signalled: "sk_phase t = Following \<Longrightarrow> sk_signal t \<or> \<not> sk_sender t \<Longrightarrow>
    slot_step t Signalled (t\<lparr>sk_phase := Stopped None\<rparr>)"

code_pred (modes: i \<Rightarrow> i \<Rightarrow> o \<Rightarrow> bool as slot_step_fun) slot_step .

interpretation slot_handle: handle ss_subscribed "\<lambda>s. fst (slot_subscribe None s)" "\<lambda>s. \<not> ss_subscribed s"
    slot_unsubscribe ss_unsubscriber
  by unfold_locales (auto simp: slot_subscribe_def slot_unsubscribe_def Let_def)

text \<open>
  What the subscriber's owner does in between: unsubscribing, which fails if the task has stopped, and
  dropping the subscriber, which makes the receiver ready for ever and leaves nobody to unsubscribe. A run
  is the life of one task, from the state in which \<open>subscribe\<close> leaves it.
\<close>

definition slot_task_alive :: "slot_task \<Rightarrow> bool" where
  "slot_task_alive t = (case sk_phase t of Stopped _ \<Rightarrow> False | _ \<Rightarrow> True)"

definition slot_owner_unsubscribes :: "slot_task \<Rightarrow> slot_task \<times> sdk_error option" where
  "slot_owner_unsubscribes t =
     (let (s, e) = slot_unsubscribe (slot_task_alive t) (sk_subscriber t) in
      (t\<lparr>sk_subscriber := s,
         sk_signal := (sk_signal t \<or> (ss_subscribed (sk_subscriber t) \<and> ss_unsubscriber (sk_subscriber t) \<and> e = None))\<rparr>, e))"

definition current_slot :: "slot_subscriber \<Rightarrow> u64" where
  "current_slot s = ss_current_slot s"

inductive slot_run :: "slot_task \<Rightarrow> slot_input list \<Rightarrow> slot_task \<Rightarrow> bool" for t where
  started: "slot_run t [] t"
| input: "slot_run t inputs u \<Longrightarrow> slot_step u i v \<Longrightarrow> slot_run t (inputs @ [i]) v"
| dropping: "slot_run t inputs u \<Longrightarrow> slot_run t inputs (u\<lparr>sk_sender := False\<rparr>)"
| unsubscribing: "slot_run t inputs u \<Longrightarrow> sk_sender u \<Longrightarrow> slot_owner_unsubscribes u = (v, e) \<Longrightarrow>
    slot_run t inputs v"

fun slot_seen :: "slot_input \<Rightarrow> u64 option" where
  "slot_seen (Slot s) = Some s"
| "slot_seen _ = None"

lemma slot_gate_max: "ss_current_slot (slot_message s slot) = max slot (ss_current_slot s)"
  using slots.latest_max [of s "[slot]"] by simp

lemma slot_unsubscribe_slots:
  "slot_unsubscribe alive s = (s', e) \<Longrightarrow> ss_current_slot s' = ss_current_slot s \<and> ss_emitted s' = ss_emitted s"
  by (auto simp: slot_unsubscribe_def split: if_splits)

lemma owner_unsubscribes_slots:
  "slot_owner_unsubscribes t = (u, e) \<Longrightarrow> ss_current_slot (sk_subscriber u) = ss_current_slot (sk_subscriber t) \<and>
    ss_emitted (sk_subscriber u) = ss_emitted (sk_subscriber t) \<and> sk_phase u = sk_phase t"
  by (auto simp: slot_owner_unsubscribes_def Let_def split: prod.splits dest: slot_unsubscribe_slots)

lemma map_filter_snoc:
  "List.map_filter f (xs @ [x]) = List.map_filter f xs @ (case f x of None \<Rightarrow> [] | Some y \<Rightarrow> [y])"
  by (auto simp: map_filter_def split: option.split)

lemma slot_message_same:
  "ss_current_slot s = ss_current_slot s' \<Longrightarrow> ss_emitted s = ss_emitted s' \<Longrightarrow>
    ss_current_slot (slot_message s x) = ss_current_slot (slot_message s' x) \<and>
    ss_emitted (slot_message s x) = ss_emitted (slot_message s' x)"
  by (simp add: slot_message_def)

text \<open>What the task has done: its slots are a fold of the messages, whatever else happened.\<close>

lemma slot_run_messages:
  assumes "slot_run t inputs u"
  shows "ss_current_slot (sk_subscriber u) =
      ss_current_slot (foldl slot_message (sk_subscriber t) (List.map_filter slot_seen inputs)) \<and>
    ss_emitted (sk_subscriber u) = ss_emitted (foldl slot_message (sk_subscriber t) (List.map_filter slot_seen inputs))"
  using assms
proof (induction rule: slot_run.induct)
  case (input inputs u i v)
  from input(2) show ?case
  proof (cases rule: slot_step.cases)
    case (slot s)
    then show ?thesis
      using slot_message_same [of "sk_subscriber u" "foldl slot_message (sk_subscriber t) (List.map_filter slot_seen inputs)" s]
        input.IH by (simp add: map_filter_snoc)
  qed (use input.IH in \<open>simp_all add: map_filter_snoc\<close>)
next
  case (unsubscribing inputs u v e)
  then show ?case using owner_unsubscribes_slots [OF unsubscribing(3)] by simp
qed (simp_all add: map_filter_simps)

lemma stopped_run:
  assumes "slot_run t inputs u" and "sk_phase t = Stopped r"
  shows "inputs = [] \<and> sk_phase u = Stopped r"
  using assms
proof (induction rule: slot_run.induct)
  case (input inputs u i v)
  then show ?case by (auto elim: slot_step.cases)
next
  case (unsubscribing inputs u v e)
  then show ?case using owner_unsubscribes_slots [OF unsubscribing(3)] by simp
qed simp_all

text \<open>
  How the owner and the task meet: the flag is up until the signal is sent, and a task that has taken the
  signal, or the end of its channel, has stopped with it.
\<close>

definition slot_talk :: "slot_task \<Rightarrow> slot_input list \<Rightarrow> bool" where
  "slot_talk t inputs \<longleftrightarrow> ss_unsubscriber (sk_subscriber t) \<and> sk_signal t = (\<not> ss_subscribed (sk_subscriber t)) \<and>
     (Signalled \<in> set inputs \<longrightarrow> last inputs = Signalled \<and> sk_phase t = Stopped None \<and>
        (\<not> ss_subscribed (sk_subscriber t) \<or> \<not> sk_sender t))"

lemma slot_message_flags:
  "ss_subscribed (slot_message s x) = ss_subscribed s" "ss_unsubscriber (slot_message s x) = ss_unsubscriber s"
  by (simp_all add: slot_message_def)

lemma slot_run_talks:
  assumes "slot_run t inputs u" and "slot_talk t []"
  shows "slot_talk u inputs"
  using assms
proof (induction rule: slot_run.induct)
  case (input inputs u i v)
  then show ?case by (auto simp: slot_talk_def slot_message_flags elim!: slot_step.cases)
next
  case (unsubscribing inputs u v e)
  then show ?case
    by (auto simp: slot_talk_def slot_owner_unsubscribes_def slot_unsubscribe_def slot_task_alive_def Let_def
        split: if_splits)
qed (auto simp: slot_talk_def)

lemma subscribed_slots:
  assumes "slot_owner_subscribes (slot_subscriber_new url) = Some t"
  shows "ss_current_slot (sk_subscriber t) = 0" "ss_emitted (sk_subscriber t) = []" "slot_talk t []"
  using assms
  by (auto simp: slot_owner_subscribes_def slot_subscribe_ws_def slot_subscriber_new_def slot_talk_def)

text \<open>
  C16. Over every run of the slot task that a successful \<open>subscribe\<close> of a new subscriber starts, with its owner
  unsubscribing or dropping the subscriber at any time, the current slot is the largest the task has handled,
  the slots passed on never decrease, and none of them is newer than the current one. While the task is alive
  an owner who is subscribed can unsubscribe, which sends the task its signal and lowers the flag; and a task
  that takes the signal handles nothing after it, and takes it only from an owner who has unsubscribed or is gone.
\<close>

theorem slot_task_serves_newest:
  assumes "slot_owner_subscribes (slot_subscriber_new url) = Some t" and "slot_run t inputs u"
  shows "current_slot (sk_subscriber u) = fold max (List.map_filter slot_seen inputs) 0 \<and>
    sorted (ss_emitted (sk_subscriber u)) \<and>
    (\<forall>s\<in>set (ss_emitted (sk_subscriber u)). s \<le> current_slot (sk_subscriber u)) \<and>
    (slot_task_alive u \<and> ss_subscribed (sk_subscriber u) \<longrightarrow> slot_owner_unsubscribes u =
       (u\<lparr>sk_subscriber := (sk_subscriber u)\<lparr>ss_subscribed := False\<rparr>, sk_signal := True\<rparr>, None)) \<and>
    (Signalled \<in> set inputs \<longrightarrow> last inputs = Signalled \<and> sk_phase u = Stopped None \<and>
       (\<not> ss_subscribed (sk_subscriber u) \<or> \<not> sk_sender u))"
proof -
  let ?s = "sk_subscriber t" and ?slots = "List.map_filter slot_seen inputs"
  have "current_slot (sk_subscriber u) = ss_current_slot (foldl slot_message ?s ?slots)"
    "ss_emitted (sk_subscriber u) = ss_emitted (foldl slot_message ?s ?slots)"
    using slot_run_messages [OF assms(2)] by (simp_all add: current_slot_def)
  moreover have "slot_talk u inputs" by (rule slot_run_talks [OF assms(2) subscribed_slots(3) [OF assms(1)]])
  ultimately show ?thesis
    using slots.latest_max [of ?s ?slots] slots.emitted_sorted [of ?s ?slots] subscribed_slots [OF assms(1)]
    by (auto simp: slot_talk_def slot_owner_unsubscribes_def slot_unsubscribe_def)
qed

text \<open>
  Once the task has stopped by itself, because its subscription was refused or its stream ended, the
  subscriber is stuck: whatever its owner calls, its slot stays the one it was, subscribing starts
  no task, and unsubscribing fails.
\<close>

theorem stopped_slot_task_freezes:
  assumes "sk_phase t = Stopped r" and "ss_subscribed (sk_subscriber t)" and "ss_unsubscriber (sk_subscriber t)"
    and "slot_run t inputs u"
  shows "current_slot (sk_subscriber u) = current_slot (sk_subscriber t) \<and>
    slot_subscribe connect_error (sk_subscriber t) = (sk_subscriber t, None) \<and>
    slot_owner_unsubscribes t = (t, Some CouldntUnsubscribe)"
proof -
  have "inputs = []" using stopped_run [OF assms(4,1)] by simp
  with slot_run_messages [OF assms(4)] have "current_slot (sk_subscriber u) = current_slot (sk_subscriber t)"
    by (simp add: map_filter_simps current_slot_def)
  moreover have "slot_unsubscribe False (sk_subscriber t) = (sk_subscriber t, Some CouldntUnsubscribe)"
    by (rule slot_handle.unheard [OF assms(2,3)])
  then have "slot_owner_unsubscribes t = (t, Some CouldntUnsubscribe)"
    using assms(1) by (simp add: slot_owner_unsubscribes_def slot_task_alive_def)
  ultimately show ?thesis using assms(2) by (simp add: slot_subscribe_def)
qed

section \<open>The block hash task\<close>

text \<open>
  A round asks for a hash with the subscriber locked. A request that fails panics, which ends the task and
  releases the lock.
\<close>

fun blockhash_task :: "blockhash_subscriber \<Rightarrow> (ext_error + hash) list \<Rightarrow> blockhash_subscriber \<times> string option" where
  "blockhash_task s [] = (s, None)"
| "blockhash_task s (Inl e # answers) = (s, Some ''blockhash'')"
| "blockhash_task s (Inr blockhash # answers) = blockhash_task (blockhash_round s blockhash) answers"

fun first_hashes :: "(ext_error + hash) list \<Rightarrow> hash list" where
  "first_hashes (Inr h # answers) = h # first_hashes answers"
| "first_hashes _ = []"

lemma blockhash_task_fold:
  "blockhash_task s answers = (foldl blockhash_round s (first_hashes answers),
    if length (first_hashes answers) = length answers then None else Some ''blockhash'')"
proof (induction s answers rule: blockhash_task.induct)
  case (3 s blockhash answers)
  then show ?case by simp
qed simp_all

definition hash_to_sign :: "hash list \<Rightarrow> hash" where
  "hash_to_sign hs = (if hs = [] then 0 else hs ! (length hs - 20))"

lemma rounds_hash:
  "get_valid_blockhash (foldl blockhash_round (blockhash_subscriber_new f) hs) = hash_to_sign hs"
proof (cases "hs = []")
  case True
  then show ?thesis by (simp add: hash_to_sign_def get_valid_blockhash_def blockhash_subscriber_new_def)
next
  case False
  then have "drop (length hs - 20) hs = hs ! (length hs - 20) # drop (Suc (length hs - 20)) hs"
    by (intro Cons_nth_drop_Suc [symmetric]) simp
  with False show ?thesis
    using blockhash_rounds [of f hs] by (simp add: get_valid_blockhash_def hash_to_sign_def)
qed

text \<open>
  C21. A transaction is signed with the hash the node answered nineteen rounds before the last one that
  succeeded (the first as long as there are fewer than twenty, the zero hash before any). After the first
  request that fails the task is gone, and every later transaction is signed with the same hash.
\<close>

theorem transactions_signed_with_old_hash:
  assumes "be_blockhash_subscriber s = fst (blockhash_task (blockhash_subscriber_new f) answers)"
  shows "sign_and_send_with_config try_new send s w tx config =
    bindE (sign_tx try_new w tx (hash_to_sign (first_hashes answers))) (\<lambda>tx. send tx config) \<and>
    (Inl e \<in> set answers \<longrightarrow> blockhash_task (blockhash_subscriber_new f) (answers @ later) =
       blockhash_task (blockhash_subscriber_new f) answers)"
proof -
  have "be_blockhash_subscriber s = foldl blockhash_round (blockhash_subscriber_new f) (first_hashes answers)"
    using assms by (simp add: blockhash_task_fold)
  then have "get_valid_blockhash (be_blockhash_subscriber s) = hash_to_sign (first_hashes answers)"
    by (simp add: rounds_hash)
  moreover have "blockhash_task b (answers @ later) = blockhash_task b answers" if "Inl e \<in> set answers" for b
    using that by (induction b answers rule: blockhash_task.induct) auto
  ultimately show ?thesis by (simp add: sign_and_send_with_config_def Let_def)
qed

text \<open>A run in which the owner unsubscribes after the first slot, and the task handles one more before it stops.\<close>

theorem slot_task_serves_newest_witness:
  "\<exists>t u. slot_owner_subscribes (slot_subscriber_new ''ws://x'') = Some t \<and>
     slot_run t [Accepted, Slot 7, Slot 9, Signalled] u \<and> current_slot (sk_subscriber u) = 9 \<and>
     \<not> ss_subscribed (sk_subscriber u)"
proof -
  let ?t = "slot_subscribe_ws ((slot_subscriber_new ''ws://x'')\<lparr>ss_subscribed := True\<rparr>)"
  let ?a = "?t\<lparr>sk_phase := Following\<rparr>"
  let ?b = "?a\<lparr>sk_subscriber := slot_message (sk_subscriber ?a) 7\<rparr>"
  let ?c = "?b\<lparr>sk_subscriber := (sk_subscriber ?b)\<lparr>ss_subscribed := False\<rparr>, sk_signal := True\<rparr>"
  let ?d = "?c\<lparr>sk_subscriber := slot_message (sk_subscriber ?c) 9\<rparr>"
  let ?u = "?d\<lparr>sk_phase := Stopped None\<rparr>"
  have t: "slot_owner_subscribes (slot_subscriber_new ''ws://x'') = Some ?t"
    by (simp add: slot_owner_subscribes_def slot_subscriber_new_def)
  have "slot_run ?t ([] @ [Accepted]) ?a"
    by (rule slot_run.input [OF slot_run.started slot_step.accepted]) (simp add: slot_subscribe_ws_def)
  then have b: "slot_run ?t (([] @ [Accepted]) @ [Slot 7]) ?b"
    by (rule slot_run.input [OF _ slot_step.slot]) simp
  then have "slot_owner_unsubscribes ?b = (?c, None)"
    using slot_task_serves_newest [OF t b]
    by (simp add: slot_task_alive_def slot_message_flags slot_subscribe_ws_def)
  from slot_run.unsubscribing [OF b _ this]
  have "slot_run ?t (([] @ [Accepted]) @ [Slot 7]) ?c" by (simp add: slot_subscribe_ws_def)
  then have "slot_run ?t ((([] @ [Accepted]) @ [Slot 7]) @ [Slot 9]) ?d"
    by (rule slot_run.input [OF _ slot_step.slot]) simp
  then have "slot_run ?t (((([] @ [Accepted]) @ [Slot 7]) @ [Slot 9]) @ [Signalled]) ?u"
    by (rule slot_run.input [OF _ slot_step.signalled]) simp_all
  then have u: "slot_run ?t [Accepted, Slot 7, Slot 9, Signalled] ?u" by simp
  with slot_task_serves_newest [OF t u] t show ?thesis
    by (intro exI [of _ ?t] exI [of _ ?u]) (simp add: map_filter_simps slot_message_flags)
qed

theorem stopped_slot_task_freezes_witness:
  "slot_owner_unsubscribes \<lparr>sk_subscriber = (slot_subscriber_new ''ws://x'')\<lparr>ss_subscribed := True,
      ss_unsubscriber := True, ss_current_slot := 7\<rparr>, sk_phase = Stopped None, sk_signal = False, sk_sender = True\<rparr> =
    (\<lparr>sk_subscriber = (slot_subscriber_new ''ws://x'')\<lparr>ss_subscribed := True,
      ss_unsubscriber := True, ss_current_slot := 7\<rparr>, sk_phase = Stopped None, sk_signal = False, sk_sender = True\<rparr>, Some CouldntUnsubscribe)"
  using stopped_slot_task_freezes [of "\<lparr>sk_subscriber = (slot_subscriber_new ''ws://x'')\<lparr>ss_subscribed := True,
      ss_unsubscriber := True, ss_current_slot := 7\<rparr>, sk_phase = Stopped None, sk_signal = False, sk_sender = True\<rparr>" None, OF _ _ _ slot_run.started]
  by simp

theorem transactions_signed_with_old_hash_witness:
  "\<exists>b :: unit backend. sign_and_send_with_config (\<lambda>k msg h. Inr (h :: hash)) (\<lambda>tx config. Inr [ucast tx])
      b \<lparr>wl_signer = 1, wl_authority = 1, wl_stats = 2\<rparr> () () = Inr [5]"
proof -
  obtain b :: "unit backend" where b: "sample_new_backend = Inr b"
    using sample_new_backend by (elim exE conjE)
  let ?b = "b\<lparr>be_blockhash_subscriber := fst (blockhash_task (blockhash_subscriber_new 2) [Inr 5, Inr 6, Inl undefined])\<rparr>"
  have "hash_to_sign (first_hashes [Inr 5, Inr 6, Inl undefined]) = 5" by (simp add: hash_to_sign_def)
  with transactions_signed_with_old_hash [of ?b 2 "[Inr 5, Inr 6, Inl undefined]" "\<lambda>k msg h. Inr (h :: hash)"
      "\<lambda>tx config. Inr [ucast tx]" "\<lparr>wl_signer = 1, wl_authority = 1, wl_stats = 2\<rparr>" "()" "()"]
  show ?thesis by (intro exI [of _ ?b]) (simp add: sign_tx_def)
qed

end
