(* ===== verification/Client_Api.thy ===== *)
theory Client_Api
  imports Backend
begin

text \<open>
  The client as its users see it (\<open>DriftClient\<close> in \<open>src/src/lib.rs\<close>): the methods it passes on to its
  backend, the two account providers behind it, the states it can reach, and that in each of them it
  answers about what it was asked.
\<close>

section \<open>Account providers\<close>

text \<open>
  The provider that always asks the node. Its methods and those of the websocket provider are given what
  the node answers at the time.
\<close>

record rpc_account_provider =
  rp_url :: string

definition rpc_account_provider_new :: "string \<Rightarrow> rpc_account_provider" where
  "rpc_account_provider_new endpoint = \<lparr>rp_url = endpoint\<rparr>"

definition rpc_get_account :: "(pubkey \<Rightarrow> sdk_error + account) \<Rightarrow> pubkey \<Rightarrow> rpc_account_provider \<Rightarrow>
    rpc_account_provider \<times> (sdk_error + account)" where
  "rpc_get_account fetched k s = (s, fetched k)"

text \<open>
  The contract of a provider (the trait \<open>AccountProvider\<close>): what it holds it answers without asking and
  keeps; anything else is the node's answer, and only an account is kept. The endpoint does not change.
\<close>

locale account_provider =
  fixes get :: "(pubkey \<Rightarrow> sdk_error + account) \<Rightarrow> pubkey \<Rightarrow> 'p \<Rightarrow> 'p \<times> (sdk_error + account)"
    and held :: "'p \<Rightarrow> pubkey \<Rightarrow> account option" and endpoint :: "'p \<Rightarrow> string"
  assumes answer: "snd (get fetched k s) = (case held s k of Some a \<Rightarrow> Inr a | None \<Rightarrow> fetched k)"
    and kept: "held s k' = Some a \<Longrightarrow> held (fst (get fetched k s)) k' = Some a"
    and source: "held (fst (get fetched k s)) k' = Some a \<Longrightarrow>
      held s k' = Some a \<or> (k' = k \<and> fetched k = Inr a)"
    and same_endpoint: "endpoint (fst (get fetched k s)) = endpoint s"
begin

text \<open>A sequence of reads, each with what the node answers at its time.\<close>

fun reads :: "'p \<Rightarrow> ((pubkey \<Rightarrow> sdk_error + account) \<times> pubkey) list \<Rightarrow> 'p \<times> (sdk_error + account) list" where
  "reads s [] = (s, [])"
| "reads s ((fetched, k) # rs) =
     (let (s', a) = get fetched k s; (s'', as) = reads s' rs in (s'', a # as))"

lemma reads_length: "length (snd (reads s rs)) = length rs"
  by (induction rs arbitrary: s) (auto simp: case_prod_beta Let_def)

text \<open>An error is always the node's own answer; an account is one the node has given for the same key.\<close>

lemma answers_real:
  assumes "n < length rs"
  shows "snd (reads s rs) ! n = fst (rs ! n) (snd (rs ! n)) \<or>
    (\<exists>a. snd (reads s rs) ! n = Inr a \<and>
      (held s (snd (rs ! n)) = Some a \<or>
       (\<exists>m<n. snd (rs ! m) = snd (rs ! n) \<and> fst (rs ! m) (snd (rs ! n)) = Inr a)))"
  using assms
proof (induction s rs arbitrary: n rule: reads.induct)
  case (2 s fetched k rs)
  let ?s = "fst (get fetched k s)"
  have step: "snd (reads s ((fetched, k) # rs)) = snd (get fetched k s) # snd (reads ?s rs)"
    by (simp add: case_prod_beta Let_def)
  show ?case
  proof (cases n)
    case 0
    then show ?thesis unfolding step by (auto simp: answer split: option.splits)
  next
    case (Suc n')
    with 2 have n': "n' < length rs" by simp
    let ?k = "snd (rs ! n')"
    have earlier: "\<exists>m<Suc n'. snd (((fetched, k) # rs) ! m) = ?k \<and> fst (((fetched, k) # rs) ! m) ?k = Inr a"
      if "m < n'" "snd (rs ! m) = ?k" "fst (rs ! m) ?k = Inr a" for m a
      using that by (intro exI [of _ "Suc m"]) simp
    have first: "\<exists>m<Suc n'. snd (((fetched, k) # rs) ! m) = ?k \<and> fst (((fetched, k) # rs) ! m) ?k = Inr a"
      if "?k = k" "fetched k = Inr a" for a
      using that by (intro exI [of _ 0]) simp
    from "2.IH" [OF prod.collapse refl n'] consider
        "snd (reads ?s rs) ! n' = fst (rs ! n') ?k"
      | a where "snd (reads ?s rs) ! n' = Inr a" "held ?s ?k = Some a"
      | a m where "snd (reads ?s rs) ! n' = Inr a" "m < n'" "snd (rs ! m) = ?k" "fst (rs ! m) ?k = Inr a"
      by blast
    then have "snd (reads ?s rs) ! n' = fst (rs ! n') ?k \<or>
        (\<exists>a. snd (reads ?s rs) ! n' = Inr a \<and> (held s ?k = Some a \<or>
          (\<exists>m<Suc n'. snd (((fetched, k) # rs) ! m) = ?k \<and> fst (((fetched, k) # rs) ! m) ?k = Inr a)))"
    proof cases
      case 2
      then show ?thesis using source [OF 2(2)] first by blast
    next
      case 3
      then show ?thesis using earlier by blast
    qed simp
    moreover have "snd (reads s ((fetched, k) # rs)) ! n = snd (reads ?s rs) ! n'" "((fetched, k) # rs) ! n = rs ! n'"
      unfolding step Suc by simp_all
    ultimately show ?thesis by (simp only: Suc)
  qed
qed simp

end

interpretation rpc_provider: account_provider rpc_get_account "\<lambda>_ _. None" rp_url
  by unfold_locales (simp_all add: rpc_get_account_def)

interpretation ws_provider: account_provider ws_get_account "\<lambda>s k. map_option fst (map_of (wp_account_cache s) k)" wp_url
  by unfold_locales (auto simp: ws_get_account_def update_conv' split: option.splits sum.splits if_splits)

text \<open>
  Whatever is read through a new websocket provider, as long as no update arrives, is what the node
  answered for the same key, in the same read or in an earlier one.
\<close>

theorem provider_answers_real:
  assumes "n < length rs"
  shows "\<exists>m\<le>n. snd (rs ! m) = snd (rs ! n) \<and>
    snd (ws_provider.reads (ws_account_provider_new url) rs) ! n = fst (rs ! m) (snd (rs ! n))"
proof -
  have "map_option fst (map_of (wp_account_cache (ws_account_provider_new url)) k) = None" for k
    by (simp add: ws_account_provider_new_def)
  with ws_provider.answers_real [OF assms, of "ws_account_provider_new url"] show ?thesis
    by (metis less_imp_le_nat option.distinct(1) order_refl)
qed

section \<open>Wallet and options\<close>

definition wallet_authority :: "wallet \<Rightarrow> pubkey" where "wallet_authority w = wl_authority w"

definition wallet_signer :: "wallet \<Rightarrow> pubkey" where "wallet_signer w = wl_signer w"

definition wallet_stats :: "wallet \<Rightarrow> pubkey" where "wallet_stats w = wl_stats w"

text \<open>Reading a key pair from a base58 text panics on an invalid text; it belongs to another crate.\<close>

definition wallet_from_seed_bs58 :: "chain_env \<Rightarrow> (string \<Rightarrow> pubkey res) \<Rightarrow> string \<Rightarrow> wallet res" where
  "wallet_from_seed_bs58 C keypair_from_base58 seed =
     bindE (keypair_from_base58 seed) (\<lambda>authority. Inr (wallet_new C authority))"

definition active_sub_account_id :: "client_opts \<Rightarrow> u16" where
  "active_sub_account_id opts = co_active_sub_account_id opts"

definition sub_account_ids :: "client_opts \<Rightarrow> u16 list" where "sub_account_ids opts = co_sub_account_ids opts"

definition referrer_info_new :: "pubkey \<Rightarrow> pubkey \<Rightarrow> referrer_info" where
  "referrer_info_new referrer referrer_stats = \<lparr>ri_referrer = referrer, ri_referrer_stats = referrer_stats\<rparr>"

section \<open>Methods of the client\<close>

definition client_new_with_opts :: "('st backend res) \<Rightarrow> wallet \<Rightarrow> client_opts \<Rightarrow> 'st drift_client res" where
  "client_new_with_opts backend wallet opts = bindE backend (\<lambda>b. Inr (drift_client_new_with_opts b wallet opts))"

definition client_subscribe :: "oracle_env \<Rightarrow> string option \<Rightarrow> ('a \<Rightarrow> sdk_error + perp_market) \<Rightarrow>
    ('b \<Rightarrow> sdk_error + spot_market) \<Rightarrow> sdk_error + 'a response \<Rightarrow> sdk_error + 'b response \<Rightarrow>
    (pubkey list \<Rightarrow> sdk_error + u64 \<times> rpc_account option list) \<Rightarrow> 'st drift_client \<Rightarrow>
    ('st drift_client \<times> sdk_error option) res" where
  "client_subscribe V ws_url decode_perp decode_spot perp_markets spot_markets oracles s =
     bindE (backend_subscribe V ws_url decode_perp decode_spot perp_markets spot_markets oracles (dc_backend s))
       (\<lambda>(b, e). Inr (s\<lparr>dc_backend := b\<rparr>, e))"

definition client_unsubscribe :: "bool \<Rightarrow> bool \<Rightarrow> (pubkey \<Rightarrow> bool) \<Rightarrow> 'st drift_client \<Rightarrow>
    'st drift_client \<times> sdk_error option" where
  "client_unsubscribe perp_alive spot_alive alive s =
     (let (b, e) = backend_unsubscribe perp_alive spot_alive alive (dc_backend s) in (s\<lparr>dc_backend := b\<rparr>, e))"

definition client_program_data :: "'st drift_client \<Rightarrow> program_data" where
  "client_program_data s = be_program_data (dc_backend s)"

definition client_wallet :: "'st drift_client \<Rightarrow> wallet" where "client_wallet s = dc_wallet s"

definition client_get_user_account :: "(pubkey \<Rightarrow> sdk_error + account) \<Rightarrow> (u8 list \<Rightarrow> user option) \<Rightarrow>
    pubkey \<Rightarrow> sdk_error + user" where
  "client_get_user_account provider try_deserialize k = get_account provider try_deserialize k"

definition client_get_latest_blockhash :: "transaction_error option + hash \<Rightarrow> sdk_error + hash" where
  "client_get_latest_blockhash fetched = map_sum Rpc id fetched"

definition client_oracle_price :: "oracle_env \<Rightarrow> (pubkey \<Rightarrow> sdk_error + rpc_account) \<Rightarrow>
    sdk_error + u64 \<Rightarrow> 'st drift_client \<Rightarrow> market_id \<Rightarrow> (sdk_error + i64) res" where
  "client_oracle_price V provider current_slot s market =
     oracle_price V (be_program_data (dc_backend s)) provider current_slot market"

definition client_get_recent_priority_fees :: "(pubkey list \<Rightarrow> sdk_error + u64 list) \<Rightarrow> 'st drift_client \<Rightarrow>
    market_id list \<Rightarrow> nat option \<Rightarrow> sdk_error + u64 list" where
  "client_get_recent_priority_fees fees s markets window =
     get_recent_priority_fees (be_program_data (dc_backend s)) fees markets window"

definition client_perp_market_and_slot :: "'st drift_client \<Rightarrow> u16 \<Rightarrow> perp_market data_and_slot option" where
  "client_perp_market_and_slot s market_index = get_perp_market_account_and_slot (dc_backend s) market_index"

definition client_spot_market_and_slot :: "'st drift_client \<Rightarrow> u16 \<Rightarrow> spot_market data_and_slot option" where
  "client_spot_market_and_slot s market_index = get_spot_market_account_and_slot (dc_backend s) market_index"

definition client_num_perp_markets :: "'st drift_client \<Rightarrow> nat" where
  "client_num_perp_markets s = num_perp_markets (dc_backend s)"

definition client_num_spot_markets :: "'st drift_client \<Rightarrow> nat" where
  "client_num_spot_markets s = num_spot_markets (dc_backend s)"

definition client_oracle :: "'st drift_client \<Rightarrow> pubkey \<Rightarrow> live_oracle option" where
  "client_oracle s oracle_pubkey = get_oracle_price_data_and_slot (dc_backend s) oracle_pubkey"

definition client_oracle_for_perp_market :: "'st drift_client \<Rightarrow> u16 \<Rightarrow>
    (live_oracle option \<times> (pubkey \<times> oracle_source) option) res" where
  "client_oracle_for_perp_market s market_index = oracle_for_perp_market (dc_backend s) market_index"

definition client_oracle_for_spot_market :: "'st drift_client \<Rightarrow> u16 \<Rightarrow>
    (live_oracle option \<times> (pubkey \<times> oracle_source) option) res" where
  "client_oracle_for_spot_market s market_index = oracle_for_spot_market (dc_backend s) market_index"

definition get_state_account :: "'st drift_client \<Rightarrow> 'st" where
  "get_state_account s = be_state_account (dc_backend s)"

section \<open>The states of a client\<close>

lemma market_update_keyed: "keyed_by_index K s \<Longrightarrow> keyed_by_index K (market_update K s u)"
  by (auto simp: market_update_def keyed_by_index_def update_conv' distinct_update Let_def)

text \<open>
  From a new client on: adding users, subscribing and unsubscribing, an update taken by one of the handler
  threads, a task that switches an oracle, and a round of the block hash task.
\<close>

inductive client_state :: "chain_env \<Rightarrow> oracle_env \<Rightarrow> ('a \<Rightarrow> sdk_error + perp_market) \<Rightarrow>
    ('b \<Rightarrow> sdk_error + spot_market) \<Rightarrow> wallet \<Rightarrow> 'st drift_client \<Rightarrow> bool" for C V decode_perp decode_spot w where
  New: "client_new_with_opts (backend_new C P D ws_url endpoint context decode_perp decode_spot A) w opts = Inr s \<Longrightarrow>
    client_state C V decode_perp decode_spot w s"
| Added: "client_state C V decode_perp decode_spot w s \<Longrightarrow> add_user C ws_url fetched sub_account_id s = Inr s' \<Longrightarrow> client_state C V decode_perp decode_spot w s'"
| Subscribed: "client_state C V decode_perp decode_spot w s \<Longrightarrow>
    client_subscribe V ws_url decode_perp decode_spot perp_markets spot_markets oracles s = Inr (s', e) \<Longrightarrow>
    client_state C V decode_perp decode_spot w s'"
| Unsubscribed: "client_state C V decode_perp decode_spot w s \<Longrightarrow> client_unsubscribe perp_alive spot_alive alive s = (s', e) \<Longrightarrow>
    client_state C V decode_perp decode_spot w s'"
| Perp_Update: "client_state C V decode_perp decode_spot w s \<Longrightarrow> b = dc_backend s \<Longrightarrow>
    client_state C V decode_perp decode_spot w (s\<lparr>dc_backend := b\<lparr>be_perp_market_map := market_update perp_market_kind (be_perp_market_map b) u\<rparr>\<rparr>)"
| Spot_Update: "client_state C V decode_perp decode_spot w s \<Longrightarrow> b = dc_backend s \<Longrightarrow>
    client_state C V decode_perp decode_spot w (s\<lparr>dc_backend := b\<lparr>be_spot_market_map := market_update spot_market_kind (be_spot_market_map b) u'\<rparr>\<rparr>)"
| Oracle_Update: "client_state C V decode_perp decode_spot w s \<Longrightarrow> b = dc_backend s \<Longrightarrow>
    client_state C V decode_perp decode_spot w (s\<lparr>dc_backend := b\<lparr>be_oracle_map := oracle_update V (be_oracle_map b) update\<rparr>\<rparr>)"
| Perp_Switch: "client_state C V decode_perp decode_spot w s \<Longrightarrow> b = dc_backend s \<Longrightarrow>
    switch_perp_oracle ws_url market_index oracle (be_oracle_map b) = Inr m \<Longrightarrow>
    client_state C V decode_perp decode_spot w (s\<lparr>dc_backend := b\<lparr>be_oracle_map := m\<rparr>\<rparr>)"
| Spot_Switch: "client_state C V decode_perp decode_spot w s \<Longrightarrow> b = dc_backend s \<Longrightarrow>
    switch_spot_oracle ws_url market_index oracle (be_oracle_map b) = Inr m \<Longrightarrow>
    client_state C V decode_perp decode_spot w (s\<lparr>dc_backend := b\<lparr>be_oracle_map := m\<rparr>\<rparr>)"
| User_Update: "client_state C V decode_perp decode_spot w s \<Longrightarrow> n < length (dc_users s) \<Longrightarrow>
    drift_user_update decode (dc_users s ! n) update = Inr user \<Longrightarrow>
    client_state C V decode_perp decode_spot w (s\<lparr>dc_users := (dc_users s)[n := user]\<rparr>)"
| State_Update: "client_state C V decode_perp decode_spot w s \<Longrightarrow> state_update decode_state (dc_backend s) update = Inr b \<Longrightarrow>
    client_state C V decode_perp decode_spot w (s\<lparr>dc_backend := b\<rparr>)"
| Hash_Round: "client_state C V decode_perp decode_spot w s \<Longrightarrow> b = dc_backend s \<Longrightarrow>
    client_state C V decode_perp decode_spot w (s\<lparr>dc_backend :=
      b\<lparr>be_blockhash_subscriber := blockhash_round (be_blockhash_subscriber b) blockhash\<rparr>\<rparr>)"

definition oracles_keyed :: "(pubkey \<times> live_oracle) list \<Rightarrow> bool" where
  "oracles_keyed m \<longleftrightarrow> (\<forall>k r. map_of m k = Some r \<longrightarrow> or_pubkey r = k)"

definition markets_indexed :: "program_data \<Rightarrow> bool" where
  "markets_indexed P \<longleftrightarrow>
     (\<forall>i m. perp_market_config_by_index P i = Some m \<longrightarrow> pm_market_index m = i) \<and>
     (\<forall>i m. spot_market_config_by_index P i = Some m \<longrightarrow> sm_market_index m = i)"

lemma new_markets_indexed: "program_data_new spot perp table = Inr P \<Longrightarrow> markets_indexed P"
  using program_data_by_index [of spot perp table P] by (simp add: markets_indexed_def)

definition backend_ok :: "'st backend \<Rightarrow> bool" where
  "backend_ok b \<longleftrightarrow> keyed_by_index perp_market_kind (be_perp_market_map b) \<and>
     keyed_by_index spot_market_kind (be_spot_market_map b) \<and> oracles_keyed (om_oraclemap (be_oracle_map b)) \<and>
     markets_indexed (be_program_data b)"

definition client_ok :: "chain_env \<Rightarrow> wallet \<Rightarrow> 'st drift_client \<Rightarrow> bool" where
  "client_ok C w s \<longleftrightarrow> dc_wallet s = w \<and> backend_ok (dc_backend s) \<and>
     (\<forall>u\<in>set (dc_users s). du_pubkey u = wallet_sub_account C w (du_sub_account u))"

lemma oracles_keyed_update: "oracles_keyed m \<Longrightarrow> or_pubkey r = k \<Longrightarrow> oracles_keyed (AList.update k r m)"
  by (auto simp: oracles_keyed_def update_conv')

lemma handler_keyed:
  assumes "oracle_handler V infos m update = Inr m'" and "oracles_keyed m"
  shows "oracles_keyed m'"
  using assms
  by (auto simp: oracle_handler_def bindE_def of_opt_def intro!: oracles_keyed_update
      split: option.split_asm sum.split_asm if_split_asm)

lemma update_oracles_keyed:
  assumes "oracles_keyed (om_oraclemap s)"
  shows "oracles_keyed (om_oraclemap (oracle_update V s update))"
proof -
  have "oracles_keyed (foldl (\<lambda>m infos. case oracle_handler V infos m update of Inl _ \<Rightarrow> m | Inr m' \<Rightarrow> m') t hs)"
    if "oracles_keyed t" for t hs
    using that
  proof (induction hs arbitrary: t)
    case (Cons infos hs)
    then show ?case
      by (cases "oracle_handler V infos t update") (simp_all add: handler_keyed)
  qed simp
  with assms show ?thesis by (simp add: oracle_update_def)
qed

lemma sync_oracles_keyed:
  "oracle_sync_accounts V slot xs s = (s', e) \<Longrightarrow> oracles_keyed (om_oraclemap s) \<Longrightarrow> oracles_keyed (om_oraclemap s')"
proof (induction V slot xs s rule: oracle_sync_accounts.induct)
  case (3 V slot account oracle_pubkey source rest s)
  then show ?case
    by (cases "get_oracle_price V source oracle_pubkey account slot") (simp_all add: oracles_keyed_update)
qed auto

lemma map_sync_oracles_keyed:
  assumes "oracle_map_sync V locked fetched s = Inr (s', e)" and "oracles_keyed (om_oraclemap s)"
  shows "oracles_keyed (om_oraclemap s')"
  using assms(1) sync_oracles_keyed assms(2)
  by (auto simp: oracle_map_sync_def returns Let_def split: if_split_asm sum.split_asm prod.split_asm)

lemma subscribe_oracles_keyed:
  assumes "oracle_map_subscribe V ws_url locked fetched s = Inr (s', e)" and "oracles_keyed (om_oraclemap s)"
  shows "oracles_keyed (om_oraclemap s')"
proof -
  obtain t e' where t: "(if om_sync_lock s then oracle_map_sync V locked fetched s else Inr (s, None)) = Inr (t, e')"
      "om_oraclemap s' = om_oraclemap t"
    using assms(1)
    by (auto simp: oracle_map_subscribe_def bindE_Inr_iff Let_def split: option.split_asm if_split_asm)
  show ?thesis
    unfolding t(2) using t(1) assms(2) by (cases "om_sync_lock s") (simp_all add: map_sync_oracles_keyed)
qed

lemma subscribe_keyed:
  assumes "market_map_subscribe K decode locked response s = Inr (s', e)" and "keyed_by_index K s"
  shows "keyed_by_index K s'"
proof -
  obtain t e' where t: "(if mm_sync_lock s then market_map_sync K decode locked response s else Inr (s, None)) =
      Inr (t, e')" "mm_marketmap s' = mm_marketmap t"
    using assms(1) by (auto simp: market_map_subscribe_def returns split: option.splits if_splits)
  then have "keyed_by_index K t"
    using assms(2) by (auto split: if_splits dest: map_sync_keyed)
  with t(2) show ?thesis by (rule keyed_other_fields)
qed

lemma unsubscribe_keyed: "market_map_unsubscribe alive s = (s', e) \<Longrightarrow> keyed_by_index K s \<Longrightarrow> keyed_by_index K s'"
  by (auto simp: market_map_unsubscribe_def keyed_by_index_def split: if_splits option.splits prod.splits)

lemma unsubscribe_oracles_keyed:
  "oracle_map_unsubscribe alive s = (s', e) \<Longrightarrow> oracles_keyed (om_oraclemap s) \<Longrightarrow> oracles_keyed (om_oraclemap s')"
  by (auto simp: oracle_map_unsubscribe_def oracles_keyed_def Let_def split: if_splits option.splits prod.splits)

lemma subscribe_backend_ok:
  assumes "backend_subscribe V ws_url decode_perp decode_spot perp_markets spot_markets oracles b = Inr (b', e)"
    and "backend_ok b"
  shows "backend_ok b'"
proof -
  have parts: "keyed_by_index perp_market_kind (be_perp_market_map b)" "keyed_by_index spot_market_kind (be_spot_market_map b)"
    "oracles_keyed (om_oraclemap (be_oracle_map b))"
    using assms(2) by (simp_all add: backend_ok_def)
  have "be_program_data b' = be_program_data b \<and> keyed_by_index perp_market_kind (be_perp_market_map b') \<and>
    keyed_by_index spot_market_kind (be_spot_market_map b') \<and> oracles_keyed (om_oraclemap (be_oracle_map b'))"
    using assms(1) parts
    by (auto simp: backend_subscribe_def bindE_def Let_def split: sum.split_asm option.split_asm prod.split_asm
        intro: subscribe_keyed subscribe_oracles_keyed)
  with assms(2) show ?thesis by (simp add: backend_ok_def)
qed

lemma unsubscribe_backend_ok:
  assumes "backend_unsubscribe perp_alive spot_alive alive b = (b', e)" and "backend_ok b"
  shows "backend_ok b'"
proof -
  have parts: "keyed_by_index perp_market_kind (be_perp_market_map b)" "keyed_by_index spot_market_kind (be_spot_market_map b)"
    "oracles_keyed (om_oraclemap (be_oracle_map b))"
    using assms(2) by (simp_all add: backend_ok_def)
  have "be_program_data b' = be_program_data b \<and> keyed_by_index perp_market_kind (be_perp_market_map b') \<and>
    keyed_by_index spot_market_kind (be_spot_market_map b') \<and> oracles_keyed (om_oraclemap (be_oracle_map b'))"
    using assms(1) parts
    by (auto simp: backend_unsubscribe_def Let_def split: option.split_asm prod.split_asm
        dest: unsubscribe_keyed unsubscribe_oracles_keyed)
  with assms(2) show ?thesis by (simp add: backend_ok_def)
qed

lemma new_backend_ok:
  assumes "backend_new C P D ws_url endpoint context decode_perp decode_spot A = Inr b"
  shows "backend_ok b"
proof -
  note maps = new_backend_maps [OF assms]
  have "markets_indexed (be_program_data b)"
    using assms by (auto simp: backend_new_def returns Let_def split: prod.splits dest: new_markets_indexed)
  with maps show ?thesis by (simp add: backend_ok_def oracles_keyed_def oracle_map_new_def Let_def)
qed

lemma add_oracle_same: "add_oracle ws_url k source m = Inr m' \<Longrightarrow> om_oraclemap m' = om_oraclemap m"
  by (auto simp: add_oracle_def bindE_def Let_def split: sum.split_asm if_split_asm prod.split_asm)

lemma switch_same_oracles:
  "switch_perp_oracle ws_url i t m = Inr m' \<Longrightarrow> om_oraclemap m' = om_oraclemap m"
  "switch_spot_oracle ws_url i t m = Inr m' \<Longrightarrow> om_oraclemap m' = om_oraclemap m"
  by (cases t, auto simp: switch_perp_oracle_def switch_spot_oracle_def update_perp_oracle_def
      update_spot_oracle_def bindE_Inr_iff dest: add_oracle_same)+

lemma user_update_key:
  "drift_user_update decode u update = Inr u' \<Longrightarrow> du_pubkey u' = du_pubkey u \<and> du_sub_account u' = du_sub_account u"
  by (auto simp: drift_user_update_def bindE_Inr_iff)

lemma add_user_key:
  assumes "add_user C ws_url fetched i s = Inr s'"
  shows "\<exists>u. s' = s\<lparr>dc_users := dc_users s @ [u]\<rparr> \<and> du_sub_account u = i \<and>
    du_pubkey u = wallet_sub_account C (dc_wallet s) i"
proof (cases "fetched (derive_user_account C (wl_authority (dc_wallet s)) i (drift_ID C))")
  case (Inr user)
  with assms show ?thesis
    by (auto simp: add_user_def drift_user_new_def drift_user_subscribe_def bindE_Inr_iff Let_def wallet_sub_account_def)
qed (use assms in \<open>auto simp: add_user_def drift_user_new_def bindE_Inr_iff Let_def\<close>)

lemma client_state_ok: "client_state C V decode_perp decode_spot w s \<Longrightarrow> client_ok C w s"
proof (induction rule: client_state.induct)
  case (New P D ws_url endpoint ctx A opts s)
  then show ?case
    by (auto simp: client_new_with_opts_def bindE_Inr_iff drift_client_new_with_opts_def client_ok_def
        dest: new_backend_ok)
next
  case (Added s ws_url fetched i s')
  then show ?case by (auto simp: client_ok_def dest!: add_user_key)
next
  case (Subscribed s ws_url perp_markets spot_markets oracles s' e)
  then show ?case
    by (auto simp: client_subscribe_def bindE_Inr_iff client_ok_def dest: subscribe_backend_ok)
next
  case (Unsubscribed s perp_alive spot_alive alive s' e)
  then show ?case
    by (auto simp: client_unsubscribe_def client_ok_def split: prod.split_asm dest: unsubscribe_backend_ok)
next
  case (Perp_Update s b u)
  then show ?case by (simp add: client_ok_def backend_ok_def market_update_keyed)
next
  case (Spot_Update s b u)
  then show ?case by (simp add: client_ok_def backend_ok_def market_update_keyed)
next
  case (Oracle_Update s b update)
  then show ?case by (simp add: client_ok_def backend_ok_def update_oracles_keyed)
next
  case (Perp_Switch s b ws_url i t m)
  then show ?case by (simp add: client_ok_def backend_ok_def switch_same_oracles)
next
  case (Spot_Switch s b ws_url i t m)
  then show ?case by (simp add: client_ok_def backend_ok_def switch_same_oracles)
next
  case (User_Update s n decode update user)
  then show ?case by (auto simp: client_ok_def dest!: user_update_key set_update_subset_insert [THEN subsetD])
next
  case (State_Update s decode update b)
  then show ?case by (auto simp: client_ok_def backend_ok_def state_update_def bindE_Inr_iff)
next
  case (Hash_Round s b blockhash)
  then show ?case by (simp add: client_ok_def backend_ok_def)
qed

text \<open>
  C23. In every state it can reach, the client answers about what it was asked: a market has the index it was
  looked up by, in the live maps and in the program data; an oracle has the key; the oracle of a perp market
  is the one recorded for the index, that of a spot market the one its account names; and the user of a
  sub-account has the address derived from the authority of the client's wallet.
\<close>

theorem client_answers_match_queries:
  assumes "client_state C V decode_perp decode_spot w s"
  shows "client_wallet s = w \<and>
    (\<forall>i d. client_perp_market_and_slot s i = Some d \<longrightarrow> pm_market_index (das_data d) = i) \<and>
    (\<forall>i d. client_spot_market_and_slot s i = Some d \<longrightarrow> sm_market_index (das_data d) = i) \<and>
    (\<forall>i m. perp_market_config_by_index (client_program_data s) i = Some m \<longrightarrow> pm_market_index m = i) \<and>
    (\<forall>i m. spot_market_config_by_index (client_program_data s) i = Some m \<longrightarrow> sm_market_index m = i) \<and>
    (\<forall>k r. client_oracle s k = Some r \<longrightarrow> or_pubkey r = k) \<and>
    (\<forall>i r task. client_oracle_for_perp_market s i = Inr (Some r, task) \<longrightarrow>
      current_perp_oracle (be_oracle_map (dc_backend s)) i = Some (or_pubkey r)) \<and>
    (\<forall>i r task. client_oracle_for_spot_market s i = Inr (Some r, task) \<longrightarrow>
      (\<exists>d. client_spot_market_and_slot s i = Some d \<and> sm_oracle (das_data d) = or_pubkey r)) \<and>
    (\<forall>i u. client_get_user i s = Some u \<longrightarrow> du_pubkey u = wallet_sub_account C w i)"
proof -
  have ok: "dc_wallet s = w" "keyed_by_index perp_market_kind (be_perp_market_map (dc_backend s))"
    "keyed_by_index spot_market_kind (be_spot_market_map (dc_backend s))"
    "oracles_keyed (om_oraclemap (be_oracle_map (dc_backend s)))" "markets_indexed (be_program_data (dc_backend s))"
    "\<forall>u\<in>set (dc_users s). du_pubkey u = wallet_sub_account C w (du_sub_account u)"
    using client_state_ok [OF assms] by (simp_all add: client_ok_def backend_ok_def)
  note maps = ok(2,3) [unfolded keyed_by_index_def perp_market_kind_def spot_market_kind_def]
  show ?thesis
  proof (intro conjI)
    show "\<forall>i r task. client_oracle_for_perp_market s i = Inr (Some r, task) \<longrightarrow>
        current_perp_oracle (be_oracle_map (dc_backend s)) i = Some (or_pubkey r)"
      using ok(4) by (auto simp: client_oracle_for_perp_market_def oracle_for_perp_market_def oracle_map_get_def
          oracles_keyed_def returns Let_def split: option.split_asm)
    show "\<forall>i r task. client_oracle_for_spot_market s i = Inr (Some r, task) \<longrightarrow>
        (\<exists>d. client_spot_market_and_slot s i = Some d \<and> sm_oracle (das_data d) = or_pubkey r)"
      using ok(4) by (auto simp: client_oracle_for_spot_market_def oracle_for_spot_market_def oracle_map_get_def
          client_spot_market_and_slot_def get_spot_market_account_and_slot_def oracles_keyed_def bindE_Inr_iff Let_def
          split: option.split_asm)
    show "\<forall>i u. client_get_user i s = Some u \<longrightarrow> du_pubkey u = wallet_sub_account C w i"
      using ok(6) by (auto simp: client_get_user_def find_Some_iff)
  qed (use ok(1,4,5) maps in \<open>simp_all add: client_wallet_def client_perp_market_and_slot_def
      get_perp_market_account_and_slot_def client_spot_market_and_slot_def get_spot_market_account_and_slot_def
      market_map_get_def client_program_data_def markets_indexed_def client_oracle_def
      get_oracle_price_data_and_slot_def oracle_map_get_def oracles_keyed_def\<close>)
qed

theorem client_answers_match_queries_witness:
  "\<exists>s :: unit drift_client. client_state sample_chain sample_oracle_env Inr Inr (wallet_new sample_chain 5) s \<and>
     client_perp_market_and_slot s 3 = Some \<lparr>das_slot = 9, das_data = sample_perp_market 3\<rparr> \<and>
     pm_market_index (das_data \<lparr>das_slot = (9 :: u64), das_data = sample_perp_market 3\<rparr>) = 3"
proof -
  obtain b where b: "sample_new_backend = Inr b"
    "market_map_get (be_perp_market_map b) 3 = Some \<lparr>das_slot = 9, das_data = sample_perp_market 3\<rparr>"
    using sample_new_backend by blast
  let ?s = "drift_client_new_with_opts b (wallet_new sample_chain 5) client_opts_default"
  have "client_new_with_opts sample_new_backend (wallet_new sample_chain 5) client_opts_default = Inr ?s"
    by (simp add: client_new_with_opts_def b(1))
  then have s: "client_state sample_chain sample_oracle_env Inr Inr (wallet_new sample_chain 5) ?s"
    by (rule client_state.New)
  have m: "client_perp_market_and_slot ?s 3 = Some \<lparr>das_slot = 9, das_data = sample_perp_market 3\<rparr>"
    by (simp add: client_perp_market_and_slot_def get_perp_market_account_and_slot_def drift_client_new_with_opts_def b(2))
  note i = client_answers_match_queries [OF s, THEN conjunct2, THEN conjunct1, rule_format, OF m]
  show ?thesis by (intro exI [of _ ?s] conjI s m i)
qed

end
