(* ===== verification/Unit_Tests.thy ===== *)
theory Unit_Tests
  imports Dlob_Samples Client_Api
begin

text \<open>
  The unit tests of the repository that need neither the network nor the on-chain program, run on the
  model: the \<open>tests\<close> modules of \<open>dlob/dlob.rs\<close>, \<open>dlob/order_list.rs\<close>, \<open>dlob/dlob_node.rs\<close>, \<open>types.rs\<close>,
  \<open>utils.rs\<close>, \<open>event_emitter.rs\<close> and \<open>lib.rs\<close> under \<open>src/src/\<close>. A test returns normally if it passes. Its
  arguments are what it takes from other crates: the heap, a fresh key, and the default order, which has
  every number zero and is a limit order.
\<close>

definition assert_that :: "bool \<Rightarrow> unit res" where
  "assert_that b = guardE b (Panic ''assertion failed'')"

definition zero_order :: order where
  "zero_order = \<lparr>o_slot = 0, o_price = 0, o_base_asset_amount = 0, o_base_asset_amount_filled = 0,
     o_trigger_price = 0, o_auction_start_price = 0, o_auction_end_price = 0, o_max_ts = 0,
     o_oracle_price_offset = 0, o_order_id = 0, o_market_index = 0, o_status = order_status.Init,
     o_order_type = order_type.Limit, o_market_type = market_type.Spot, o_user_order_id = 0,
     o_direction = Long, o_post_only = False, o_trigger_condition = order_trigger_condition.Above, o_auction_duration = 0\<rparr>"

section \<open>The order book\<close>

definition insert_orders :: "'h dlob_env \<Rightarrow> pubkey \<Rightarrow> (order \<times> u64) list \<Rightarrow> 'h dlob \<Rightarrow> 'h dlob res" where
  "insert_orders E user_account orders D = foldE (\<lambda>D (order, slot). insert_order E order user_account slot D) D orders"

definition assert_found :: "'h dlob_env \<Rightarrow> pubkey \<Rightarrow> u32 list \<Rightarrow> 'h dlob \<Rightarrow> unit res" where
  "assert_found E user_account ids D =
     foldE (\<lambda>_ i. assert_that (\<not> Option.is_none (dlob_get_order E i user_account D))) () ids"

definition test_dlob_insert :: "'h dlob_env \<Rightarrow> order \<Rightarrow> pubkey \<Rightarrow> unit res" where
  "test_dlob_insert E order_default user_account =
     (let perp_order = order_default\<lparr>o_market_index := 0, o_market_type := market_type.Perp\<rparr>;
          taking_limit_order = perp_order\<lparr>o_order_id := 1, o_slot := 1\<rparr>;
          floating_limit_order = perp_order\<lparr>o_order_id := 2, o_oracle_price_offset := 1\<rparr>;
          resting_limit_order = perp_order\<lparr>o_order_id := 3, o_slot := 3\<rparr>;
          market_order = perp_order\<lparr>o_order_id := 4, o_slot := 4\<rparr>;
          trigger_order = perp_order\<lparr>o_order_id := 5, o_slot := 5\<rparr> in
      bindE (insert_orders E user_account [(taking_limit_order, 1), (floating_limit_order, 0),
        (resting_limit_order, 3), (market_order, 4), (trigger_order, 5)] dlob_new) (\<lambda>dlob.
      assert_found E user_account [1, 2, 3, 4, 5] dlob))"

lemma test_dlob_insert_passes: "test_dlob_insert list_env zero_order 7 = Inr ()"
  by code_simp

definition long_order :: "order \<Rightarrow> u32 \<Rightarrow> u64 \<Rightarrow> order" where
  "long_order order_default i slot = order_default\<lparr>o_order_id := i, o_slot := slot, o_market_index := 0,
     o_direction := Long, o_market_type := market_type.Perp, o_auction_duration := 1\<rparr>"

definition test_dlob_ordering :: "'h dlob_env \<Rightarrow> order \<Rightarrow> pubkey \<Rightarrow> unit res" where
  "test_dlob_ordering E order_default user_account =
     bindE (insert_orders E user_account
       [(long_order order_default 1 1, 1), (long_order order_default 2 2, 2), (long_order order_default 3 3, 3),
        (long_order order_default 4 4, 4), (long_order order_default 5 5, 5)] dlob_new) (\<lambda>dlob.
     bindE (assert_found E user_account [1, 2, 3, 4, 5] dlob) (\<lambda>_.
     bindE (get_best_orders E market_type.Perp sub_type.Bid node_type.TakingLimit 0 dlob) (\<lambda>best_orders.
     assert_that (map (\<lambda>n. o_slot (get_order n)) best_orders = [1, 2, 3, 4, 5]))))"

lemma test_dlob_ordering_passes: "test_dlob_ordering list_env zero_order 7 = Inr ()"
  by code_simp

definition test_update_resting_limit_orders :: "'h dlob_env \<Rightarrow> order \<Rightarrow> pubkey \<Rightarrow> unit res" where
  "test_update_resting_limit_orders E order_default user_account =
     (let market_of = (\<lambda>dlob. of_opt (Panic ''called `Option::unwrap()` on a `None` value'')
            (map_of (ex_perp (dl_exchange dlob)) 0)) in
      bindE (insert_order E (long_order order_default 1 1) user_account 1 dlob_new) (\<lambda>dlob.
      bindE (market_of dlob) (\<lambda>market.
      bindE (assert_that (h_len E (ol_bids (mk_taking_limit_orders market)) = 1)) (\<lambda>_.
      bindE (update_resting_limit_orders E 5 dlob) (\<lambda>dlob.
      bindE (market_of dlob) (\<lambda>market.
      bindE (assert_that (h_len E (ol_bids (mk_taking_limit_orders market)) = 0)) (\<lambda>_.
      assert_that (h_len E (ol_bids (mk_resting_limit_orders market)) = 1))))))))"

lemma test_update_resting_limit_orders_passes: "test_update_resting_limit_orders list_env zero_order 7 = Inr ()"
  by code_simp

definition auction_order :: "order \<Rightarrow> position_direction \<Rightarrow> u32 \<Rightarrow> u64 \<Rightarrow> u64 \<Rightarrow> order" where
  "auction_order order_default direction i slot price = order_default\<lparr>o_order_id := i, o_slot := slot,
     o_market_index := 0, o_direction := direction, o_market_type := market_type.Perp,
     o_order_type := order_type.Limit, o_auction_duration := 10, o_price := price\<rparr>"

definition test_oracle :: oracle_price_data where
  "test_oracle = (let v_ask = 15; v_bid = 10 in
     \<lparr>opd_price = (v_bid + v_ask) div 2, opd_confidence = 1, opd_delay = 0,
      opd_has_sufficient_number_of_data_points = True\<rparr>)"

definition ids_of :: "node list \<Rightarrow> u32 list" where
  "ids_of = map (\<lambda>n. o_order_id (get_order n))"

text \<open>The price precision is a constant of the program crate.\<close>

definition test_get_resting_limit_asks :: "'h dlob_env \<Rightarrow> u64 \<Rightarrow> order \<Rightarrow> pubkey \<Rightarrow> unit res" where
  "test_get_resting_limit_asks E PRICE_PRECISION order_default user_account =
     (let asks = (\<lambda>slot dlob. get_resting_limit_asks E slot market_type.Perp 0 test_oracle dlob);
          order = auction_order order_default Short in
      bindE (insert_orders E user_account [(order 1 1 (11 * PRICE_PRECISION), 1),
        (order 2 11 (12 * PRICE_PRECISION), 11), (order 3 21 (13 * PRICE_PRECISION), 21)] dlob_new) (\<lambda>dlob.
      bindE (asks 1 dlob) (\<lambda>(resting_limit_asks, dlob).
      bindE (assert_that (ids_of resting_limit_asks = [])) (\<lambda>_.
      bindE (asks 12 dlob) (\<lambda>(resting_limit_asks, dlob).
      bindE (assert_that (ids_of resting_limit_asks = [1])) (\<lambda>_.
      bindE (asks 23 dlob) (\<lambda>(resting_limit_asks, dlob).
      bindE (assert_that (ids_of resting_limit_asks = [1, 2])) (\<lambda>_.
      bindE (asks 34 dlob) (\<lambda>(resting_limit_asks, dlob).
      assert_that (ids_of resting_limit_asks = [1, 2, 3]))))))))))"

lemma test_get_resting_limit_asks_passes: "test_get_resting_limit_asks list_env 1000000 zero_order 7 = Inr ()"
  by code_simp

definition test_get_resting_limit_bids :: "'h dlob_env \<Rightarrow> order \<Rightarrow> pubkey \<Rightarrow> unit res" where
  "test_get_resting_limit_bids E order_default user_account =
     (let bids = (\<lambda>slot dlob. get_resting_limit_bids E slot market_type.Perp 0 test_oracle dlob);
          order = auction_order order_default Long in
      bindE (insert_orders E user_account [(order 1 1 11, 1), (order 2 11 12, 11), (order 3 21 13, 21)] dlob_new) (\<lambda>dlob.
      bindE (bids 1 dlob) (\<lambda>(resting_limit_bids, dlob).
      bindE (assert_that (ids_of resting_limit_bids = [])) (\<lambda>_.
      bindE (bids 12 dlob) (\<lambda>(resting_limit_bids, dlob).
      bindE (assert_that (ids_of resting_limit_bids = [1])) (\<lambda>_.
      bindE (bids 23 dlob) (\<lambda>(resting_limit_bids, dlob).
      bindE (assert_that (ids_of resting_limit_bids = [2, 1])) (\<lambda>_.
      bindE (bids 34 dlob) (\<lambda>(resting_limit_bids, dlob).
      assert_that (ids_of resting_limit_bids = [3, 2, 1]))))))))))"

lemma test_get_resting_limit_bids_passes: "test_get_resting_limit_bids list_env zero_order 7 = Inr ()"
  by code_simp

section \<open>Order lists and nodes\<close>

definition insert_slots :: "(node \<Rightarrow> 'h order_list \<Rightarrow> 'h order_list res) \<Rightarrow> order \<Rightarrow> pubkey \<Rightarrow> (u32 \<times> u64) list \<Rightarrow>
    'h order_list \<Rightarrow> 'h order_list res" where
  "insert_slots insert_node order_default user_account ids orderlist =
     foldE (\<lambda>ol (i, slot). insert_node (create_node node_type.TakingLimit
       (order_default\<lparr>o_order_id := i, o_slot := slot\<rparr>) user_account) ol) orderlist ids"

definition expect_slots :: "('h order_list \<Rightarrow> (node option \<times> 'h order_list) res) \<Rightarrow> u64 list \<Rightarrow>
    'h order_list \<Rightarrow> 'h order_list res" where
  "expect_slots best slots orderlist =
     foldE (\<lambda>ol slot. bindE (best ol) (\<lambda>(n, ol).
       bindE (of_opt (Panic ''called `Option::unwrap()` on a `None` value'') n) (\<lambda>n.
       bindE (assert_that (o_slot (get_order n) = slot)) (\<lambda>_. Inr ol)))) orderlist slots"

definition test_insertion_and_ordering :: "'h dlob_env \<Rightarrow> order \<Rightarrow> pubkey \<Rightarrow> unit res" where
  "test_insertion_and_ordering E order_default user_account =
     bindE (insert_slots (insert_bid E) order_default user_account [(1, 1), (2, 2), (3, 3), (4, 4), (5, 5)]
       (orderlist_new E Ascending Ascending)) (\<lambda>orderlist.
     bindE (insert_slots (insert_ask E) order_default user_account [(6, 1), (7, 2), (8, 3), (9, 4), (10, 5)] orderlist)
       (\<lambda>orderlist.
     bindE (expect_slots (get_best_bid E) [1, 2, 3, 4, 5] orderlist) (\<lambda>orderlist.
     bindE (expect_slots (get_best_ask E) [1, 2, 3, 4, 5] orderlist) (\<lambda>_. Inr ()))))"

lemma test_insertion_and_ordering_passes: "test_insertion_and_ordering list_env zero_order 7 = Inr ()"
  by (simp add: test_insertion_and_ordering_def insert_slots_def expect_slots_def insert_bid_def insert_ask_def
      get_best_bid_def get_best_ask_def orderlist_new_def create_node_def order_node_new_def directional_node_new_def
      list_heap_push_def list_heap_pop_def zero_order_def dn_cmp_def assert_that_def Let_def)

definition priced_order :: "order \<Rightarrow> u64 \<Rightarrow> u64 \<Rightarrow> u64 \<Rightarrow> i32 \<Rightarrow> order" where
  "priced_order order_default slot price trigger_price oracle_price_offset = order_default\<lparr>o_slot := slot,
     o_price := price, o_trigger_price := trigger_price, o_oracle_price_offset := oracle_price_offset\<rparr>"

definition order_kinds :: "node_type list" where
  "order_kinds = [node_type.TakingLimit, node_type.RestingLimit, node_type.FloatingLimit, node_type.Market,
     node_type.Trigger]"

definition test_set_next_prev :: "order \<Rightarrow> pubkey \<Rightarrow> unit res" where
  "test_set_next_prev order_default user_account =
     (let sort_values = (\<lambda>order. map (\<lambda>t. get_sort_value (create_node t order user_account) order) order_kinds) in
      bindE (assert_that (sort_values (priced_order order_default 100 1000 500 5000) =
        [Some 100, Some 1000, Some 5000, Some 100, Some 500])) (\<lambda>_.
      bindE (assert_that (sort_values (priced_order order_default 200 2000 600 6000) =
        [Some 200, Some 2000, Some 6000, Some 200, Some 600])) (\<lambda>_.
      assert_that (sort_values (priced_order order_default 300 3000 700 7000) =
        [Some 300, Some 3000, Some 7000, Some 300, Some 700]))))"

lemma test_set_next_prev_passes: "test_set_next_prev zero_order 7 = Inr ()"
  by code_simp

definition test_set_order :: "order \<Rightarrow> pubkey \<Rightarrow> unit res" where
  "test_set_order order_default user_account =
     (let order = priced_order order_default 100 1000 500 5000;
          order_2 = priced_order order_default 200 2000 600 6000 in
      bindE (mapE (\<lambda>t. set_order order_2 (create_node t order user_account)) order_kinds) (\<lambda>nodes.
      case map get_order nodes of
        [taking, resting, floating, market, trigger] \<Rightarrow>
          bindE (assert_that (o_slot taking = 200)) (\<lambda>_.
          bindE (assert_that (o_price resting = 2000)) (\<lambda>_.
          bindE (assert_that (o_oracle_price_offset floating = 6000)) (\<lambda>_.
          bindE (assert_that (o_slot market = 200)) (\<lambda>_.
          assert_that (o_trigger_price trigger = 600)))))
      | _ \<Rightarrow> unimplemented))"

lemma test_set_order_passes: "test_set_order zero_order 7 = Inr ()"
  by code_simp

definition test_eq :: "order \<Rightarrow> pubkey \<Rightarrow> unit res" where
  "test_eq order_default user_account =
     (let nodes = map (\<lambda>t. create_node t (priced_order order_default 100 1000 500 5000) user_account) order_kinds;
          nodes_2 = map (\<lambda>t. create_node t (priced_order order_default 200 2000 600 6000) user_account) order_kinds in
      bindE (foldE (\<lambda>_ n. assert_that (node_eq n n)) () nodes) (\<lambda>_.
      foldE (\<lambda>_ (n, n_2). assert_that (\<not> node_eq n n_2)) () (zip nodes nodes_2)))"

lemma test_eq_passes: "test_eq zero_order 7 = Inr ()"
  by code_simp

text \<open>These two tests pass if they panic.\<close>

definition test_vamm_node_get_user_account_panics :: "order \<Rightarrow> pubkey res" where
  "test_vamm_node_get_user_account_panics order_default =
     (let vamm_node = vamm_node_new order_default 100 in vamm_node_get_user_account vamm_node)"

definition test_vamm_node_set_order_panics :: "order \<Rightarrow> vamm_node res" where
  "test_vamm_node_set_order_panics order_default =
     (let vamm_node = vamm_node_new order_default 100 in vamm_node_set_order order_default vamm_node)"

lemma test_vamm_node_panics:
  "test_vamm_node_get_user_account_panics order_default = Inl (Panic ''not implemented'')"
  "test_vamm_node_set_order_panics order_default = Inl (Panic ''not implemented'')"
  by (simp_all add: test_vamm_node_get_user_account_panics_def test_vamm_node_set_order_panics_def
      vamm_node_get_user_account_def vamm_node_set_order_def)

section \<open>Accounts, texts, wallets and events\<close>

definition account_type_sorting :: "unit res" where
  "account_type_sorting =
     (let key = (\<lambda>b. pubkey_of_bytes (replicate 32 b));
          accounts = [remaining_account.Perp (key 4) False, remaining_account.Oracle (key 2),
            remaining_account.Oracle (key 1), remaining_account.Spot (key 3) True] in
      bindE (sort_byE (\<lambda>a b. Inr (remaining_cmp a b)) accounts) (\<lambda>accounts.
      assert_that (accounts = [remaining_account.Oracle (key 1), remaining_account.Oracle (key 2),
        remaining_account.Spot (key 3) True, remaining_account.Perp (key 4) False])))"

lemma account_type_sorting_passes: "account_type_sorting = Inr ()"
  by code_simp

definition test_https_to_ws :: "unit res" where
  "test_https_to_ws =
     bindE (assert_that (http_to_ws ''https://dlob.drift.trade'' = Inr ''wss://dlob.drift.trade/ws'')) (\<lambda>_.
     assert_that (http_to_ws ''http://dlob.drift.trade'' = Inr ''ws://dlob.drift.trade/ws''))"

lemma test_https_to_ws_passes: "test_https_to_ws = Inr ()"
  by code_simp

definition test_wallet_read_only :: "chain_env \<Rightarrow> pubkey \<Rightarrow> pubkey \<Rightarrow> unit res" where
  "test_wallet_read_only C empty_signer keypair =
     (let ro = wallet_read_only C empty_signer keypair; rw = wallet_new C keypair in
      bindE (assert_that (wl_authority rw = wl_authority ro)) (\<lambda>_.
      bindE (assert_that (wl_stats rw = wl_stats ro)) (\<lambda>_.
      assert_that (wallet_default_sub_account C rw = wallet_default_sub_account C ro))))"

lemma test_wallet_read_only_passes: "test_wallet_read_only C empty_signer keypair = Inr ()"
  by (simp add: test_wallet_read_only_def wallet_read_only_def wallet_new_def assert_that_def
      wallet_default_sub_account_def wallet_sub_account_def)

text \<open>The handler is the function that builds the response; emitting gives every handler with its event.\<close>

definition test_event_emitter_with_captured_variable :: "unit res" where
  "test_event_emitter_with_captured_variable =
     (let captured_message = ''Captured'';
          event_emitter = emitter_subscribe ''test_event'' (\<lambda>message. captured_message @ '': '' @ message) event_emitter_new;
          responses = map (\<lambda>(handler, event). handler event)
            (emitter_emit ''test_event'' ''Hello, world!'' event_emitter) in
      assert_that (responses = [''Captured: Hello, world!'']))"

lemma test_event_emitter_with_captured_variable_passes: "test_event_emitter_with_captured_variable = Inr ()"
  by (simp add: test_event_emitter_with_captured_variable_def emitter_subscribe_def emitter_emit_def
      event_emitter_new_def assert_that_def)

end
