(* ===== verification/Mock_Tests.thy ===== *)
theory Mock_Tests
  imports Unit_Tests Event_Stream Margin
begin

text \<open>
  The unit tests that set up a substitute for what they need of other crates, run on the model with the
  substitute as an argument: the polled stream on a mock of the node (\<open>src/src/event_subscriber.rs\<close>), key
  pairs in the formats of \<open>src/src/utils.rs\<close>, the error code of \<open>src/src/types.rs\<close>, and the profits of
  \<open>src/src/math/liquidation.rs\<close>. A lemma states what the substitute has to do for the test to pass.
\<close>

section \<open>The mock of the node\<close>

record mock_rpc_provider =
  mp_tx_responses :: "(string \<times> encoded_tx) list"
  mp_signatures :: "string list"

definition add_signatures :: "string list \<Rightarrow> mock_rpc_provider \<Rightarrow> mock_rpc_provider" where
  "add_signatures signatures p = p\<lparr>mp_signatures := mp_signatures p @ signatures\<rparr>"

definition mock_get_tx :: "mock_rpc_provider \<Rightarrow> string \<Rightarrow> sdk_error + encoded_tx" where
  "mock_get_tx p signature = of_opt Deserializing (map_of (mp_tx_responses p) signature)"

definition mock_get_tx_signatures ::
  "string option \<Rightarrow> mock_rpc_provider \<Rightarrow> (sdk_error + string list) \<times> mock_rpc_provider" where
  "mock_get_tx_signatures prev p =
     (case prev of
        None \<Rightarrow> (Inr (mp_signatures p), p)
      | Some s \<Rightarrow>
          let p = (if s \<in> set (mp_signatures p)
            then p\<lparr>mp_signatures := takeWhile (\<lambda>x. x \<noteq> s) (mp_signatures p)\<rparr> else p) in
          (Inr (mp_signatures p), p))"

text \<open>The message of a transaction holds the keys of its payer and of the program.\<close>

definition make_transaction :: "pubkey \<Rightarrow> pubkey \<Rightarrow> string list option \<Rightarrow> encoded_tx" where
  "make_transaction program_id account logs =
     \<lparr>et_meta = Some \<lparr>tm_err = False, tm_log_messages = logs\<rparr>, et_account_keys = Some [account, program_id]\<rparr>"

text \<open>Sleeping lets the stream's task make rounds, each with one request for signatures.\<close>

fun mock_rounds :: "event_env \<Rightarrow> pubkey \<Rightarrow> pubkey \<Rightarrow> nat \<Rightarrow> polled_stream \<times> mock_rpc_provider \<Rightarrow>
    (polled_stream \<times> mock_rpc_provider) res" where
  "mock_rounds E program_id sub_account 0 (s, p) = Inr (s, p)"
| "mock_rounds E program_id sub_account (Suc n) (s, p) =
     (let (signatures, p) = mock_get_tx_signatures (ps_last_seen_tx s) p in
      bindE (poll_round E program_id sub_account s (\<lambda>_. signatures, mock_get_tx p)) (\<lambda>s.
      mock_rounds E program_id sub_account n (s, p)))"

section \<open>The polled stream\<close>

definition expect_created :: "u32 \<Rightarrow> event_stream \<Rightarrow> event_stream res" where
  "expect_created order_id s =
     bindE (assert_that (case es_queue s of
       OrderCreate order _ _ _ _ # _ \<Rightarrow> o_order_id order = order_id | _ \<Rightarrow> False)) (\<lambda>_. Inr (poll_next s))"

text \<open>
  The texts of the records and the signatures are arguments, as are the program's function that makes a
  record and the rounds made in a second.
\<close>

definition polled_event_stream_caching :: "event_env \<Rightarrow> (order_action_record \<Rightarrow> string) \<Rightarrow>
    (order_record \<Rightarrow> string) \<Rightarrow> (i64 \<Rightarrow> order_action \<Rightarrow> pubkey option \<Rightarrow> order option \<Rightarrow> order_action_record) \<Rightarrow>
    order \<Rightarrow> pubkey \<Rightarrow> pubkey \<Rightarrow> string list \<Rightarrow> nat \<Rightarrow> unit res" where
  "polled_event_stream_caching E serialize_action serialize_order get_order_action_record order_default
       program_id sub_account signatures rounds =
     (let order_events = map (\<lambda>i. let order = order_default\<lparr>o_order_id := of_nat i\<rparr> in
            (get_order_action_record (of_nat i) Place (Some sub_account) (Some order),
             \<lparr>rr_ts = of_nat i, rr_user = sub_account, rr_order = order\<rparr>)) [0..<5];
          tx_responses = map2 (\<lambda>s (oar, or). (s, make_transaction program_id sub_account
            (Some [PROGRAM_LOG @ serialize_action oar, PROGRAM_LOG @ serialize_order or])))
            signatures (rev order_events);
          mock_rpc_provider = \<lparr>mp_tx_responses = tx_responses, mp_signatures = [signatures ! 0]\<rparr>;
          (initial, mock_rpc_provider) = mock_get_tx_signatures None mock_rpc_provider in
      bindE (polled_stream_new initial) (\<lambda>s.
      bindE (mock_rounds E program_id sub_account rounds (s\<lparr>ps_stream := event_stream_new 16\<rparr>, mock_rpc_provider))
        (\<lambda>(s, mock_rpc_provider).
      let cache = cache_insert (signatures ! 4) (cache_insert (signatures ! 1) (es_cache (ps_stream s)));
          s = s\<lparr>ps_stream := (ps_stream s)\<lparr>es_cache := cache\<rparr>\<rparr>;
          mock_rpc_provider = add_signatures (drop 1 signatures) mock_rpc_provider in
      bindE (mock_rounds E program_id sub_account rounds (s, mock_rpc_provider)) (\<lambda>(s, mock_rpc_provider).
      bindE (expect_created 1 (ps_stream s)) (\<lambda>stream.
      bindE (expect_created 2 stream) (\<lambda>stream.
      bindE (mock_rounds E program_id sub_account rounds (s\<lparr>ps_stream := stream\<rparr>, mock_rpc_provider)) (\<lambda>(s, _).
      assert_that (es_queue (ps_stream s) = []))))))))"

text \<open>What the text of a record has to decode to.\<close>

definition decodes_records :: "event_env \<Rightarrow> (order_action_record \<Rightarrow> string) \<Rightarrow> (order_record \<Rightarrow> string) \<Rightarrow> bool" where
  "decodes_records E serialize_action serialize_order \<longleftrightarrow>
     length (oar_discriminator E) = 8 \<and> length (order_record_discriminator E) = 8 \<and>
     oar_discriminator E \<noteq> order_record_discriminator E \<and>
     (\<forall>r. \<exists>data. ev_base64_decode E (serialize_action r) = Some (oar_discriminator E @ data) \<and> oar_deserialize E data = Some r) \<and>
     (\<forall>r. \<exists>data. ev_base64_decode E (serialize_order r) = Some (order_record_discriminator E @ data) \<and>
       order_record_deserialize E data = Some r)"

lemma record_logs_parsed:
  assumes "decodes_records E serialize_action serialize_order"
  shows "ar_action a = Place \<Longrightarrow> try_parse_log E (PROGRAM_LOG @ serialize_action a) signature i = Inr None"
    and "try_parse_log E (PROGRAM_LOG @ serialize_order r) signature i =
      Inr (Some (OrderCreate (rr_order r) (rr_user r) (unsigned_abs (rr_ts r)) signature i))"
proof -
  have log: "strip_prefix PROGRAM_LOG (PROGRAM_LOG @ s) = Some s" for s
    by (simp add: strip_prefix_def)
  obtain data where "ev_base64_decode E (serialize_action a) = Some (oar_discriminator E @ data)"
    "oar_deserialize E data = Some a" using assms by (auto simp: decodes_records_def)
  then show "ar_action a = Place \<Longrightarrow> try_parse_log E (PROGRAM_LOG @ serialize_action a) signature i = Inr None"
    using assms by (simp add: try_parse_log_def log opt_or_def from_discriminant_def decodes_records_def from_oar_def)
  obtain data where "ev_base64_decode E (serialize_order r) = Some (order_record_discriminator E @ data)"
    "order_record_deserialize E data = Some r" using assms by (auto simp: decodes_records_def)
  then show "try_parse_log E (PROGRAM_LOG @ serialize_order r) signature i =
      Inr (Some (OrderCreate (rr_order r) (rr_user r) (unsigned_abs (rr_ts r)) signature i))"
    using assms by (auto simp: try_parse_log_def log opt_or_def from_discriminant_def decodes_records_def from_order_record_def)
qed

lemma mock_poll_tx:
  assumes "decodes_records E serialize_action serialize_order" and "ar_action a = Place" and "rr_user r = sub_account"
    and "\<not> cache_contains (es_cache s) signature" and "length (es_queue s) < channel_capacity"
  shows "poll_tx E program_id sub_account signature (make_transaction program_id sub_account
      (Some [PROGRAM_LOG @ serialize_action a, PROGRAM_LOG @ serialize_order r])) s =
    Inr (s\<lparr>es_cache := cache_insert signature (es_cache s), es_queue := es_queue s @
      [OrderCreate (rr_order r) sub_account (unsigned_abs (rr_ts r)) signature 1]\<rparr>)"
  using assms
  by (simp add: poll_tx_def make_transaction_def emit_log_def record_logs_parsed [OF assms(1)] try_send_def Let_def
      enumerate_simps)

lemma cached_poll_tx:
  "cache_contains (es_cache s) signature \<Longrightarrow> poll_tx E program_id sub_account signature tx s = Inr s"
  by (simp add: poll_tx_def)

lemma polled_event_stream_caching_passes:
  assumes "decodes_records E serialize_action serialize_order" and "\<And>ts user order. ar_action (record_of ts Place user order) = Place"
    and "distinct [a, b, c, d, e]"
  shows "polled_event_stream_caching E serialize_action serialize_order record_of order_default program_id
    sub_account [a, b, c, d, e] (Suc (Suc 0)) = Inr ()"
proof -
  have distinct: "a \<noteq> b" "a \<noteq> c" "a \<noteq> d" "a \<noteq> e" "b \<noteq> c" "b \<noteq> d" "b \<noteq> e" "c \<noteq> d" "c \<noteq> e" "d \<noteq> e"
    using assms(3) by simp_all
  have upt: "[0..<5] = [0, 1, 2, 3, 4 :: nat]" by (simp add: upt_rec)
  show ?thesis
    by (simp add: distinct distinct [symmetric] polled_event_stream_caching_def upt mock_get_tx_signatures_def polled_stream_new_def
        poll_round_def mock_get_tx_def add_signatures_def cached_poll_tx mock_poll_tx [OF assms(1,2)] Let_def
        event_stream_new_def tx_signature_cache_new_def cache_insert_def cache_contains_def
        channel_capacity_def expect_created_def assert_that_def poll_next_def)
qed

section \<open>Key pairs\<close>

definition assert_pubkey :: "('k \<Rightarrow> string) \<Rightarrow> sdk_error + 'k \<Rightarrow> unit res" where
  "assert_pubkey pubkey_text keypair =
     (case keypair of
        Inl _ \<Rightarrow> Inl (Panic ''called `Result::unwrap()` on an `Err` value'')
      | Inr k \<Rightarrow> assert_that (pubkey_text k = ''EtiM5qwcrrawQP9FfRErBatNvDgEU656tk5aA8iTgqri''))"

definition keypair_numbers :: string where
  "keypair_numbers = ''17,188,105,73,182,3,56,125,157,20,12,82,88,197,181,202,251,248,97,103,215,165,233,145,114,254,20,89,100,79,207,168,206,103,77,58,215,94,196,155,224,116,73,74,62,200,30,248,101,102,164,126,6,170,77,190,186,142,107,222,3,242,143,155''"

definition test_keypair_from_json_numbers_array :: "'k key_env \<Rightarrow> ('k \<Rightarrow> string) \<Rightarrow> unit res" where
  "test_keypair_from_json_numbers_array K pubkey_text =
     assert_pubkey pubkey_text (read_keypair_str_multi_format K (''['' @ keypair_numbers @ '']''))"

definition test_keypair_from_json_comma_separated_numbers :: "'k key_env \<Rightarrow> ('k \<Rightarrow> string) \<Rightarrow> unit res" where
  "test_keypair_from_json_comma_separated_numbers K pubkey_text =
     assert_pubkey pubkey_text (read_keypair_str_multi_format K keypair_numbers)"

definition keypair_base58 :: string where
  "keypair_base58 = ''MZsY4Vme2Xa417rhh1MUGCru9oYNDxCjH1TZRWJPNSzRmZmodjczVaGuWKgzBsoKxx2ZLQZjUWTkLu44jE5DhSJ''"

definition test_keypair_from_base58_string :: "'k key_env \<Rightarrow> ('k \<Rightarrow> string) \<Rightarrow> unit res" where
  "test_keypair_from_base58_string K pubkey_text =
     assert_pubkey pubkey_text (read_keypair_str_multi_format K keypair_base58)"

definition keypair_base64 :: string where
  "keypair_base64 = ''EbxpSbYDOH2dFAxSWMW1yvv4YWfXpemRcv4UWWRPz6jOZ006117Em+B0SUo+yB74ZWakfgaqTb66jmveA/KPmw==''"

definition test_keypair_from_base64_string :: "'k key_env \<Rightarrow> ('k \<Rightarrow> string) \<Rightarrow> unit res" where
  "test_keypair_from_base64_string K pubkey_text =
     assert_pubkey pubkey_text (read_keypair_str_multi_format K keypair_base64)"

text \<open>The bytes all four texts stand for.\<close>

definition keypair_bytes :: "u8 list" where
  "keypair_bytes = [17, 188, 105, 73, 182, 3, 56, 125, 157, 20, 12, 82, 88, 197, 181, 202, 251, 248, 97, 103, 215, 165, 233,
     145, 114, 254, 20, 89, 100, 79, 207, 168, 206, 103, 77, 58, 215, 94, 196, 155, 224, 116, 73, 74, 62, 200, 30, 248, 101,
     102, 164, 126, 6, 170, 77, 190, 186, 142, 107, 222, 3, 242, 143, 155]"

lemma keypair_numbers_read:
  "filter (\<lambda>c. c \<notin> set key_padding) (''['' @ keypair_numbers @ '']'') = keypair_numbers"
  "filter (\<lambda>c. c \<notin> set key_padding) keypair_numbers = keypair_numbers"
  "CHR '','' \<in> set keypair_numbers"
  "collect_opt (map (\<lambda>x. map_option of_nat (parse_unsigned 8 x)) (split_at CHR '','' keypair_numbers)) = Some keypair_bytes"
  by code_simp+

lemma keypair_texts_plain:
  "filter (\<lambda>c. c \<notin> set key_padding) keypair_base58 = keypair_base58" "CHR '','' \<notin> set keypair_base58"
  "filter (\<lambda>c. c \<notin> set key_padding) keypair_base64 = keypair_base64" "CHR '','' \<notin> set keypair_base64"
  by code_simp+

lemma keypair_tests_pass:
  assumes "keypair_from_bytes K keypair_bytes = Some k" and "pubkey_text k = ''EtiM5qwcrrawQP9FfRErBatNvDgEU656tk5aA8iTgqri''"
    and "base58_decode K keypair_base58 = Some keypair_bytes"
    and "base58_decode K keypair_base64 = None" and "key_base64_decode K keypair_base64 = Some keypair_bytes"
  shows "test_keypair_from_json_numbers_array K pubkey_text = Inr ()"
    and "test_keypair_from_json_comma_separated_numbers K pubkey_text = Inr ()"
    and "test_keypair_from_base58_string K pubkey_text = Inr ()"
    and "test_keypair_from_base64_string K pubkey_text = Inr ()"
  unfolding test_keypair_from_json_numbers_array_def test_keypair_from_json_comma_separated_numbers_def
    test_keypair_from_base58_string_def test_keypair_from_base64_string_def read_keypair_str_multi_format_def Let_def
    keypair_numbers_read keypair_texts_plain
  by (simp_all only: keypair_numbers_read(3) keypair_texts_plain if_True if_False assms option.case)
    (simp_all add: assert_pubkey_def assert_that_def assms(2))

section \<open>The error code\<close>

text \<open>The offset of the error codes and the discriminant of the code are arguments.\<close>

definition extract_anchor_error :: "u32 \<Rightarrow> u32 \<Rightarrow> unit res" where
  "extract_anchor_error offset UserOrderIdAlreadyInUse =
     (let err = Rpc (Some (InstructionError 0 (Custom 6071))) in
      bindE (to_anchor_error_code offset err) (\<lambda>code. assert_that (code = Some UserOrderIdAlreadyInUse)))"

lemma extract_anchor_error_passes: "extract_anchor_error 6000 71 = Inr ()"
  by code_simp

section \<open>Profits\<close>

text \<open>
  A position of one unit, at a price of 80, and what the maps of the test hold. The oracle's account is read
  by the program: its price is an argument.
\<close>

definition test_unrealized_pnl :: "('pm, 'sm, 'om) margin_env \<Rightarrow> perp_position \<Rightarrow>
    ('pm, 'sm, 'om) account_maps \<Rightarrow> int \<Rightarrow> unit res" where
  "test_unrealized_pnl M position_default account_maps side =
     (let position = position_default\<lparr>pp_market_index := 0, pp_base_asset_amount := word_of_int (side * BASE_PRECISION M),
        pp_quote_entry_amount := word_of_int (- side * 80 * QUOTE_PRECISION M)\<rparr> in
      bindE (calculate_unrealized_pnl_inner M position 0 account_maps) (\<lambda>unrealized_pnl.
      assert_that (unrealized_pnl = 20 * QUOTE_PRECISION M)))"

definition unrealized_pnl_short :: "('pm, 'sm, 'om) margin_env \<Rightarrow> perp_position \<Rightarrow>
    ('pm, 'sm, 'om) account_maps \<Rightarrow> unit res" where
  "unrealized_pnl_short M position_default account_maps = test_unrealized_pnl M position_default account_maps (- 1)"

definition unrealized_pnl_long :: "('pm, 'sm, 'om) margin_env \<Rightarrow> perp_position \<Rightarrow>
    ('pm, 'sm, 'om) account_maps \<Rightarrow> unit res" where
  "unrealized_pnl_long M position_default account_maps = test_unrealized_pnl M position_default account_maps 1"

definition liquidation_price_no_positions :: "chain_env \<Rightarrow> ('pm, 'sm, 'om) margin_env \<Rightarrow> user \<Rightarrow>
    ('pm, 'sm, 'om) account_maps \<Rightarrow> unit res" where
  "liquidation_price_no_positions C M user_default account_maps =
     (case calculate_liquidation_price_inner C M user_default 0 account_maps of
        Inl (Err _) \<Rightarrow> Inr ()
      | Inl e \<Rightarrow> Inl e
      | Inr _ \<Rightarrow> Inl (Panic ''assertion failed''))"

lemma unrealized_pnl_tests_pass:
  assumes "perp_get_ref M (am_perp_market_map maps) 0 = Inr sol_perp"
    and "get_price_data M (am_oracle_map maps) (pm_amm_oracle sol_perp) = Inr d"
    and "QUOTE_PRECISION M = 10 ^ 6" "BASE_PRECISION M = 10 ^ 9" "AMM_RESERVE_PRECISION M = 10 ^ 9"
  shows "opd_price d = 60000000 \<Longrightarrow> unrealized_pnl_short M position_default maps = Inr ()"
    and "opd_price d = 100000000 \<Longrightarrow> unrealized_pnl_long M position_default maps = Inr ()"
  by (simp_all add: unrealized_pnl_short_def unrealized_pnl_long_def test_unrealized_pnl_def calculate_unrealized_pnl_inner_def
      assms mul_i_def chk_i_def div_i_def fits_i_def assert_that_def Let_def)

lemma liquidation_price_no_positions_passes:
  assumes "perp_get_ref M (am_perp_market_map maps) 0 = Inl e"
  shows "liquidation_price_no_positions C M user_default maps = Inr ()"
  using assms
  by (auto simp: liquidation_price_no_positions_def calculate_liquidation_price_inner_def maps_margin_def of_anchor_def
      bindE_def split: sum.splits)

section \<open>The client\<close>

text \<open>
  A client whose account provider is a mock that answers every request with one account. The account's data
  is a file of the repository; what it deserializes to is an argument, as is the default state.
\<close>

definition DEVNET_ENDPOINT :: string where
  "DEVNET_ENDPOINT = ''https://api.devnet.solana.com''"

definition test_setup :: "chain_env \<Rightarrow> discriminators \<Rightarrow> (string \<Rightarrow> string option) \<Rightarrow> 'st \<Rightarrow> pubkey \<Rightarrow>
    'st drift_client res" where
  "test_setup C D ws_url state_default keypair =
     bindE (market_map_new perp_market_kind D ws_url DEVNET_ENDPOINT False) (\<lambda>perp_market_map.
     bindE (market_map_new spot_market_kind D ws_url DEVNET_ENDPOINT False) (\<lambda>spot_market_map.
     let backend = \<lparr>be_program_data = uninitialized, be_perp_market_map = perp_market_map,
           be_spot_market_map = spot_market_map, be_oracle_map = oracle_map_new True [] [],
           be_state_account = state_default, be_blockhash_subscriber = blockhash_subscriber_new 2\<rparr> in
     Inr \<lparr>dc_backend = backend, dc_wallet = wallet_new C keypair, dc_active_sub_account_id = 0,
       dc_sub_account_ids = [0], dc_users = []\<rparr>))"

definition expect_Ok :: "sdk_error + 'a \<Rightarrow> 'a res" where
  "expect_Ok r = (case r of Inl _ \<Rightarrow> Inl (Panic ''called `Result::unwrap()` on an `Err` value'') | Inr x \<Rightarrow> Inr x)"

definition test_get_orders :: "chain_env \<Rightarrow> discriminators \<Rightarrow> (string \<Rightarrow> string option) \<Rightarrow> 'st \<Rightarrow>
    (u8 list \<Rightarrow> user option) \<Rightarrow> account \<Rightarrow> pubkey \<Rightarrow> pubkey \<Rightarrow> unit res" where
  "test_get_orders C D ws_url state_default try_deserialize account user keypair =
     bindE (test_setup C D ws_url state_default keypair) (\<lambda>_.
     bindE (expect_Ok (all_orders (get_account (\<lambda>_. Inr account) try_deserialize user))) (\<lambda>orders.
     assert_that (length orders = 3)))"

definition test_get_positions :: "chain_env \<Rightarrow> discriminators \<Rightarrow> (string \<Rightarrow> string option) \<Rightarrow> 'st \<Rightarrow>
    (u8 list \<Rightarrow> user option) \<Rightarrow> account \<Rightarrow> pubkey \<Rightarrow> pubkey \<Rightarrow> unit res" where
  "test_get_positions C D ws_url state_default try_deserialize account user keypair =
     bindE (test_setup C D ws_url state_default keypair) (\<lambda>_.
     bindE (expect_Ok (all_positions C (get_account (\<lambda>_. Inr account) try_deserialize user))) (\<lambda>(spot, perp).
     bindE (assert_that (length spot = 1)) (\<lambda>_. assert_that (length perp = 1))))"

lemma test_setup_makes_client:
  "ws_url DEVNET_ENDPOINT = Some url \<Longrightarrow> \<exists>client. test_setup C D ws_url state_default keypair = Inr client"
  by (simp add: test_setup_def market_map_new_def Let_def)

lemma client_tests_pass:
  assumes "ws_url DEVNET_ENDPOINT = Some url" and "try_deserialize (ac_data account) = Some u"
  shows "length (filter (\<lambda>order. o_status order = order_status.Open) (u_orders u)) = 3 \<Longrightarrow>
      test_get_orders C D ws_url state_default try_deserialize account user keypair = Inr ()"
    and "length (filter (\<lambda>s. \<not> spot_position_is_available C s) (u_spot_positions u)) = 1 \<Longrightarrow>
      length (filter (perp_position_is_open_position C) (u_perp_positions u)) = 1 \<Longrightarrow>
      test_get_positions C D ws_url state_default try_deserialize account user keypair = Inr ()"
  using test_setup_makes_client [of ws_url url C D state_default keypair, OF assms(1)] assms(2)
  by (auto simp: test_get_orders_def test_get_positions_def all_orders_def all_positions_def get_account_def expect_Ok_def
      assert_that_def)

end
