(* ===== verification/Rpc_Events.thy ===== *)
theory Rpc_Events
  imports Event_Delivery
begin

text \<open>
  The polled stream of \<open>src/src/event_subscriber.rs\<close> on the node's own client, which the file makes an
  \<open>EventRpcProvider\<close>. The stream asks for the signatures after the last one it has seen without a limit
  and takes the answer for all of them; a node answers with a page.
\<close>

section \<open>The client as a provider\<close>

record rpc_signature =
  rs_signature :: string
  rs_err :: bool

text \<open>The requests of the client are arguments, given the account, what to stop at, and the limit.\<close>

definition rpc_get_tx_signatures ::
  "(pubkey \<Rightarrow> string option \<Rightarrow> nat option \<Rightarrow> transaction_error option + rpc_signature list) \<Rightarrow>
    pubkey \<Rightarrow> string option \<Rightarrow> nat option \<Rightarrow> sdk_error + string list" where
  "rpc_get_tx_signatures get_signatures_for_address account until limit =
     map_sum Rpc (map rs_signature) (get_signatures_for_address account until limit)"

definition rpc_get_tx :: "(string \<Rightarrow> transaction_error option + encoded_tx) \<Rightarrow> string \<Rightarrow> sdk_error + encoded_tx" where
  "rpc_get_tx get_transaction signature = map_sum Rpc id (get_transaction signature)"

text \<open>What a round of the stream asks for.\<close>

definition rpc_answers ::
  "(pubkey \<Rightarrow> string option \<Rightarrow> nat option \<Rightarrow> transaction_error option + rpc_signature list) \<Rightarrow>
    (string \<Rightarrow> transaction_error option + encoded_tx) \<Rightarrow> pubkey \<Rightarrow> poll_answers" where
  "rpc_answers get_signatures_for_address get_transaction account =
     (\<lambda>until. rpc_get_tx_signatures get_signatures_for_address account until None, rpc_get_tx get_transaction)"

section \<open>A node that answers in pages\<close>

text \<open>
  The documented answer of a node: of the signatures after \<open>until\<close> the newest, newest first, at most as
  many as the limit and never more than a page (a thousand).
\<close>

definition paged :: "nat \<Rightarrow> string list \<Rightarrow>
    (pubkey \<Rightarrow> string option \<Rightarrow> nat option \<Rightarrow> transaction_error option + rpc_signature list) \<Rightarrow> bool" where
  "paged page chain get_signatures_for_address \<longleftrightarrow> (\<forall>account until limit. known_in until chain \<longrightarrow>
     (\<exists>rs. get_signatures_for_address account until limit = Inr rs \<and>
       map rs_signature rs = take (case limit of None \<Rightarrow> page | Some n \<Rightarrow> min n page) (rev (after until chain))))"

definition page_node :: "nat \<Rightarrow> string list \<Rightarrow>
    pubkey \<Rightarrow> string option \<Rightarrow> nat option \<Rightarrow> transaction_error option + rpc_signature list" where
  "page_node page chain account until limit =
     Inr (map (\<lambda>s. \<lparr>rs_signature = s, rs_err = False\<rparr>)
       (take (case limit of None \<Rightarrow> page | Some n \<Rightarrow> min n page) (rev (after until chain))))"

lemma page_node_paged: "paged page chain (page_node page chain)"
  by (simp add: paged_def page_node_def comp_def)

text \<open>As long as a page holds what is new, the client serves everything.\<close>

lemma paged_serves_all:
  assumes "paged page chain signatures" and "length chain \<le> page" and "\<forall>s. transaction s = Inr (txs s)"
  shows "serves_all chain txs (rpc_answers signatures transaction account)"
proof -
  have fits: "length (after until chain) \<le> page" for until
    using assms(2) by (auto simp: after_def split: option.split intro: order_trans [OF diff_le_self order_trans [OF length_dropWhile_le]])
  have "fst (rpc_answers signatures transaction account) until = Inr (rev (after until chain))"
    if known: "known_in until chain" for until
  proof -
    obtain rs where "signatures account until None = Inr rs" "map rs_signature rs = take page (rev (after until chain))"
      using assms(1) [unfolded paged_def, rule_format, OF known, of account None] by auto
    with fits show ?thesis by (simp add: rpc_answers_def rpc_get_tx_signatures_def)
  qed
  with assms(3) show ?thesis by (simp add: serves_all_def rpc_answers_def rpc_get_tx_def)
qed

lemma after_last:
  assumes "distinct (old @ new)"
  shows "after (if old = [] then None else Some (last old)) (old @ new) = new"
proof (cases "old = []")
  case False
  then have "length old - 1 < length (old @ new)" by (cases old) simp_all
  from after_nth [OF assms this] False show ?thesis by (simp add: last_conv_nth nth_append)
qed (simp add: after_def)

lemma known_last: "known_in (if old = [] then None else Some (last old)) (old @ new)"
  by (simp add: known_in_def)

lemma last_page_answered:
  assumes "distinct (old @ new)" and "paged page (old @ new) signatures"
  shows "fst (rpc_answers signatures transaction account) (if old = [] then None else Some (last old)) =
    Inr (rev (drop (length new - page) new))"
proof -
  from assms(2) known_last [of old new] obtain rs where
    "signatures account (if old = [] then None else Some (last old)) None = Inr rs"
    "map rs_signature rs = take page (rev (after (if old = [] then None else Some (last old)) (old @ new)))"
    unfolding paged_def by fastforce
  with after_last [OF assms(1)] show ?thesis
    by (simp add: rpc_answers_def rpc_get_tx_signatures_def take_rev)
qed

text \<open>
  C40. When more transactions have arrived since the last round than the node puts on a page, a round in which
  no request fails sends the events of the last page only and goes on after the newest transaction: the
  transactions in between are never asked for again.
\<close>

theorem backlog_beyond_page_lost:
  assumes "distinct (old @ new)" and "page < length new" and "0 < page"
    and "paged page (old @ new) signatures" and "\<forall>s. transaction s = Inr (txs s)"
    and "\<forall>s\<in>set new. tx_events E program_id sub_account s (txs s) = Inr (ev s)"
    and "length (concat (map ev (drop (length new - page) new))) \<le> 64"
    and "polled_stream_new (Inr (if old = [] then [] else [last old])) = Inr s0"
  shows "\<exists>s. poll_round E program_id sub_account s0 (rpc_answers signatures transaction sub_account) = Inr s \<and>
    es_taken (ps_stream s) @ es_queue (ps_stream s) = concat (map ev (drop (length new - page) new)) \<and>
    (\<forall>later. distinct (old @ new @ later) \<longrightarrow> after (ps_last_seen_tx s) (old @ new @ later) = later)"
proof -
  define kept where "kept = drop (length new - page) new"
  have kept: "length kept = page" "kept \<noteq> []" "last kept = last new" "set kept \<subseteq> set new"
    using assms(2,3) by (auto simp: kept_def last_drop dest: in_set_dropD)
  have seen: "ps_last_seen_tx s0 = (if old = [] then None else Some (last old))"
    and start: "seen_upto (old @ kept) ev (length old) (length old) s0"
    using assms(8) by (auto simp: polled_stream_new_def polled_channel_def seen_upto_def sent_events_def
        event_stream_new_def tx_signature_cache_new_def nth_append last_conv_nth)
  have answer: "fst (rpc_answers signatures transaction sub_account) (ps_last_seen_tx s0) = Inr (rev kept)"
    unfolding seen kept_def by (rule last_page_answered [OF assms(1,4)])
  have dist: "distinct (old @ kept)" using assms(1) kept(4) by (auto simp: kept_def)
  have ev: "\<forall>s\<in>set (drop (length old) (old @ kept)). tx_events E program_id sub_account s (txs s) = Inr (ev s)"
    using assms(6) kept(4) by auto
  have get: "rpc_get_tx transaction = (\<lambda>s. Inr (txs s))"
    using assms(5) by (simp add: rpc_get_tx_def fun_eq_iff)
  have round: "poll_round E program_id sub_account s0 (rpc_answers signatures transaction sub_account) =
      poll_batch E program_id sub_account (\<lambda>s. Inr (txs s)) kept s0"
    using answer by (simp add: poll_round_def rpc_answers_def get)
  obtain s where s: "poll_batch E program_id sub_account (\<lambda>s. Inr (txs s)) kept s0 = Inr s"
    "seen_upto (old @ kept) ev (length old) (length old + length kept) s"
    using batch_delivers [OF dist start _ _ _ ev, of kept "\<lambda>s. Inr (txs s)"] assms(7)
    by (auto simp: channel_capacity_def kept_def [symmetric])
  have last: "ps_last_seen_tx s = Some (last (old @ new))"
  proof -
    have "ps_last_seen_tx s = Some ((old @ kept) ! (length old + length kept - 1))"
      using s(2) kept(2) by (simp add: seen_upto_def)
    also have "(old @ kept) ! (length old + length kept - 1) = last (old @ kept)"
      using kept(2) by (subst last_conv_nth) simp_all
    finally show ?thesis using kept(2,3) assms(2) by (auto simp: last_append)
  qed
  moreover have "after (Some (last (old @ new))) ((old @ new) @ later) = later"
    if "distinct ((old @ new) @ later)" for later
    using after_last [OF that] assms(2) by (auto split: if_splits)
  ultimately show ?thesis
    using s round by (auto simp: seen_upto_def sent_events_def kept_def)
qed

theorem backlog_beyond_page_lost_witness:
  "\<exists>s0 s. polled_stream_new (Inr [''a'']) = Inr s0 \<and>
     poll_round sample_events 1000 5 s0 (rpc_answers (page_node 2 [''a'', ''b'', ''c'', ''d''])
       (\<lambda>_. Inr sample_encoded_tx) 5) = Inr s \<and>
     es_taken (ps_stream s) @ es_queue (ps_stream s) = [OrderCancelMissing 0 7 ''c'', OrderCancelMissing 0 7 ''d'']"
proof -
  obtain s0 where s0: "polled_stream_new (Inr [''a'']) = Inr s0" by (simp add: polled_stream_new_def)
  with backlog_beyond_page_lost [of "[''a'']" "[''b'', ''c'', ''d'']" 2 "page_node 2 [''a'', ''b'', ''c'', ''d'']"
      "\<lambda>_. Inr sample_encoded_tx" "\<lambda>_. sample_encoded_tx" sample_events 1000 5
      "\<lambda>s. [OrderCancelMissing 0 7 s]" s0] page_node_paged [of 2 "[''a'', ''b'', ''c'', ''d'']"]
  show ?thesis by (auto simp: sample_tx_events)
qed

end
