(* ===== verification/Spec2Isabelle.thy ===== *)
theory Spec2Isabelle
  imports Dlob_Filling Tx_Building Jit_Client Event_Delivery Margin Dlob_Streams Live_Book
    Account_Stream Auction_Price Live_Markets Live_Oracles Chain_Tasks Client_Api Unit_Tests Mock_Tests Rpc_Events
begin

text \<open>
  A model of drift-rs, the client library of the drift exchange (\<open>src/src/\<close>), with the theorems that say
  what its parts do.

  \<^bold>\<open>The program.\<close> The library keeps copies of the accounts of an on-chain program (markets, oracles,
  users) that it reads once and then keeps current from websocket subscriptions; it builds, signs and
  sends transactions; it rebuilds the exchange's limit order book from the users' orders and searches it
  for orders to fill; it reads the program's events from transaction logs; and it computes prices, margin
  and liquidation prices from the copies.

  \<^bold>\<open>Foundations.\<close> \<open>Prelude\<close> has machine integers as words, failures as values, and checked arithmetic;
  \<open>Rust_Std\<close> the slice routines, comparison results and decimal text; \<open>Sdk_Types\<close> the types of
  \<open>types.rs\<close> with the order builder and the errors; \<open>Program_Types\<close> the accounts of the on-chain program
  as far as they are read; \<open>Program_Data\<close> is \<open>constants.rs\<close> with derived addresses and the wallet;
  \<open>Text_Utils\<close> is \<open>utils.rs\<close>.

  \<^bold>\<open>The order book.\<close> \<open>Order_Math\<close> is \<open>math/auction.rs\<close> and \<open>math/order.rs\<close>, and
  \<open>Auction_Price\<close> says how far the auction price lies from a linear interpolation. \<open>Keyed_Heap\<close> states what the
  book needs of the heap with keyed access, which comes from another crate; \<open>Dlob_Node\<close>, \<open>Order_List\<close>,
  \<open>Dlob_Market\<close>, \<open>Market_Operations\<close> and \<open>Dlob_Core\<close> are the files of \<open>dlob/\<close> bottom up, with \<open>Dlob_Fill\<close>
  for the search. \<open>Dlob_Inserting\<close>, \<open>Dlob_Resting\<close>, \<open>Dlob_Listing\<close> and \<open>Dlob_Filling\<close> prove what these do:
  insertion and the move to the resting lists refine operations on an abstract book, a multiset of nodes
  for every market, kind of list and side; the lists come out sorted; the searches find exactly the orders
  they are for, or block where the code takes a lock it holds. \<open>Dlob_Builder\<close> is \<open>dlob/dlob_builder.rs\<close>, the
  task that rebuilds and publishes the book; \<open>Dlob_Building\<close> proves that building succeeds and gives exactly
  the orders in use, each at its place, and \<open>Live_Book\<close> follows the users' accounts from the websocket
  task through the user map into that book. \<open>Dlob_Samples\<close> has concrete books.

  \<^bold>\<open>Transactions.\<close> \<open>Accounts\<close> is \<open>build_accounts\<close> of \<open>lib.rs\<close>, \<open>Tx_Builder\<close> its \<open>TransactionBuilder\<close>, and
  \<open>Tx_Building\<close> what a sequence of its calls gives; \<open>Jit_Client\<close> is \<open>jit_client.rs\<close>.

  \<^bold>\<open>Live data.\<close> \<open>Event_Flow\<close> has the emitter, the retries and the slot and block hash subscribers;
  \<open>Websocket\<close> both websocket subscribers, their task as a step relation, and the auction subscriber;
  \<open>Live_Maps\<close> the market and user maps with the order subscriber; \<open>Oracle_Map\<close> the oracle map; \<open>Client\<close> the
  providers, the wallet's use and the queries of \<open>lib.rs\<close> with \<open>user.rs\<close>; \<open>Account_Stream\<close> the task behind
  every account the provider has read; \<open>Backend\<close> how the client's backend is made, filled and subscribed;
  \<open>Client_Api\<close> the providers' interface, the remaining methods of the client and the states it can reach.

  \<^bold>\<open>Tasks and threads.\<close> \<open>Subscriptions\<close> puts together what runs on behalf of a map: the tasks its subscribers
  have spawned, a queue for every handler thread, and the map itself, with a step for every message that
  reaches a task and every update a thread takes. \<open>Live_Markets\<close> adds subscribing and unsubscribing and
  proves what a market map serves: the newest handled update while it is subscribed once, only real
  accounts over any sequence of subscriptions, and, from every state in which it is subscribed again, a run that puts an
  older account over a newer one. \<open>Live_Users\<close> does it for the user map, whose callers fetch users while updates are handled.
  \<open>Live_Oracles\<close> does the same for the oracle map, up to the price the client answers.
  \<open>Chain_Tasks\<close> has the slot task, from the state its subscription leaves it in through what its owner does, and the
  block hash task.

  \<^bold>\<open>Events.\<close> \<open>Drift_Events\<close>, \<open>Event_Stream\<close> and \<open>Event_Delivery\<close> are \<open>event_subscriber.rs\<close>: log lines to
  events, the two streams, and what they deliver; \<open>Rpc_Events\<close> is the polled stream on the node's client, whose
  answers come in pages.

  \<^bold>\<open>Margin.\<close> \<open>Account_Map\<close> is \<open>math/account_map_builder.rs\<close>, \<open>Margin\<close> is \<open>math/leverage.rs\<close> and
  \<open>math/liquidation.rs\<close>.

  \<^bold>\<open>The order book server.\<close> \<open>Dlob_Client\<close> and \<open>Dlob_Streams\<close> are \<open>dlob_client.rs\<close>: requests, books as JSON,
  and the streams. The websocket stream is a step relation over its task, its clock and its consumer; it
  refines a function of the timed messages alone.

  \<^bold>\<open>Tests.\<close> \<open>Unit_Tests\<close> runs those of the repository's unit tests on the model that need neither the network
  nor the on-chain program, \<open>Mock_Tests\<close> those that bring a mock of what they need.

  \<^bold>\<open>Conventions.\<close> Structs are records whose fields carry a prefix, enums datatypes with the constructors of
  the source. A method that changes its object returns the changed object; one that fails after a change
  returns it with the error. A result is \<open>Inr\<close> a value or \<open>Inl\<close> a failure: a panic with its message, an
  error, a thread blocked on its own lock, or fuel used up. Arithmetic is that of a build with overflow
  checks. Concurrent maps are association lists, in the order of insertion; where the order of a hash map
  matters it is a parameter. Asynchronous requests are made one after the other and their answers are
  arguments; a spawned task is a step function or relation whose inputs are the messages it receives.

  \<^bold>\<open>Parameters.\<close> Code of other crates is an argument, collected in environment records: the keyed heap and
  the formatting of signatures, the methods of the program's accounts and its margin calculation, address
  derivation, hashing and signing, base58 and base64, deserialization, parsing a text as JSON, the quotient
  of floating point numbers. What the proofs need of the heap are the laws of the locale \<open>keyed_heap\<close>, which
  an association list meets; the interfaces \<open>market_operations\<close>, \<open>value_store\<close>, \<open>update_store\<close>,
  \<open>slot_gate\<close>, \<open>drain_queue\<close>, \<open>handle\<close> (what every subscriber does with the task it has spawned), \<open>account_provider\<close> and
  \<open>task_pool\<close> (tasks with one handler thread) are interpreted on the definitions of the code.

  \<^bold>\<open>Fuel.\<close> A loop that drains a heap gets the number of its elements as fuel, and \<open>Keyed_Heap\<close> proves that
  this is enough. Retry loops that may run forever take their number of turns as fuel.

  \<^bold>\<open>Not modelled.\<close> The network itself, logging and debugging prints, the remaining tests and the embedded interface
  description; requests of two tasks that interleave within one method, other than \<open>must_get\<close> of the user map; how long an update waits in a queue; time except in the order book
  stream; the conversion traits that only wrap a value. Subscribing a map spawns its task and registers its handler in one step, and a clone of a book does
  not share its newest resting slot. The order book server's answers and the accounts on
  the chain are arguments throughout.

  \<^bold>\<open>What is left.\<close> Subscriptions of single accounts apart from those of the provider and the oracle map (the
  handler is folded over what the task emits), and the book's search over several markets with interleaved
  updates.
\<close>

section \<open>Properties that span components\<close>

text \<open>
  C34. When a live market names a new oracle, the client starts a task that adds it and makes it the
  market's current oracle. Once the task has run, no update of any account gives the market a price
  again: every later lookup answers none, and starts no further task.
\<close>

theorem perp_oracle_switch_loses_price:
  assumes "\<forall>infos\<in>set (om_handlers (be_oracle_map s)). map_of infos k = None"
    and "oracle_map_get (be_oracle_map s) k = None" and "\<not> oracle_map_contains (be_oracle_map s) k"
    and "oracle_for_perp_market s i = Inr (r, Some (k, source))"
    and "switch_perp_oracle (Some url) i (k, source) (be_oracle_map s) = Inr m"
  shows "oracle_for_perp_market (s\<lparr>be_oracle_map := foldl (oracle_update V) m us\<rparr>) i = Inr (None, None)"
proof -
  obtain m0 where m0: "add_oracle (Some url) k source (be_oracle_map s) = Inr m0"
    and m: "m = update_perp_oracle i k m0"
    using assms(5) by (auto simp: switch_perp_oracle_def returns)
  have handlers: "om_handlers m = om_handlers (be_oracle_map s)" "om_oraclemap m = om_oraclemap (be_oracle_map s)"
    using m0 m by (auto simp: add_oracle_def update_perp_oracle_def returns Let_def split: if_splits prod.splits)
  have perp: "om_perp_oracles (foldl (oracle_update V) m' us) = om_perp_oracles m'" for m'
    by (induction us arbitrary: m') (auto simp: oracle_update_def)
  have "oracle_map_get (foldl (oracle_update V) m us) k = None"
    using updates_other [of m k V us] assms(1,2) handlers by (simp add: oracle_map_get_def)
  moreover have "current_perp_oracle (foldl (oracle_update V) m us) i = Some k"
    by (simp add: current_perp_oracle_def perp) (simp add: m update_perp_oracle_def update_conv')
  moreover obtain market where "market_map_get (be_perp_market_map s) i = Some market"
    "pm_amm_oracle (das_data market) = k"
    using assms(4) by (auto simp: oracle_for_perp_market_def returns Let_def split: option.splits if_splits)
  ultimately show ?thesis by (simp add: oracle_for_perp_market_def Let_def)
qed

theorem perp_oracle_switch_loses_price_witness:
  "\<exists>r m. oracle_for_perp_market sample_backend 3 = Inr (r, Some (400, Pyth)) \<and>
     switch_perp_oracle (Some ''ws://x'') 3 (400, Pyth) (be_oracle_map sample_backend) = Inr m \<and>
     oracle_for_perp_market (sample_backend\<lparr>be_oracle_map := foldl (oracle_update sample_oracle_env) m
       [\<lparr>au_pubkey = ''k'', au_data = \<lparr>ua_base64 = Some ''AA'', ua_owner = ''k'', ua_lamports = 1,
         ua_rent_epoch = 0\<rparr>, au_slot = 9\<rparr>]\<rparr>) 3 = Inr (None, None)"
proof -
  have h: "\<forall>infos\<in>set (om_handlers (be_oracle_map sample_backend)). map_of infos 400 = None"
    "oracle_map_get (be_oracle_map sample_backend) 400 = None"
    "\<not> oracle_map_contains (be_oracle_map sample_backend) 400"
    by (simp_all add: sample_backend_def oracle_map_new_def collect_map_def oracle_map_get_def
        oracle_map_contains_def Let_def)
  have r: "oracle_for_perp_market sample_backend 3 = Inr (None, Some (400, Pyth))"
    by (simp add: oracle_for_perp_market_def sample_backend_def market_map_get_def current_perp_oracle_def
        oracle_map_get_def oracle_map_new_def collect_map_def Let_def)
  obtain m where m: "switch_perp_oracle (Some ''ws://x'') 3 (400, Pyth) (be_oracle_map sample_backend) = Inr m"
    using h(3) by (simp add: switch_perp_oracle_def add_oracle_def new_oracle_subscriber_def ws_subscribe_def
        ws_subscriber_new_def Let_def)
  show ?thesis
    using perp_oracle_switch_loses_price [OF h r m, of sample_oracle_env] r m by blast
qed

end
